(* ===== verification/Prelude.thy ===== *)
theory Prelude
  imports Main "HOL-Library.Word"
begin

text \<open>
  Shared vocabulary of the development: bytes and machine integers, the
  program type used for every handler that reads and changes the server state
  and may fail, watch channels, and the two small proof calculi the component
  theories use: an invariant calculus (\<open>preserves\<close>), a frame calculus
  (\<open>keeps\<close>) and an equational weakest precondition (\<open>wp\<close>).
\<close>

unbundle bit_operations_syntax

section \<open>Names for the machine types\<close>

type_synonym byte = "8 word"
type_synonym bytes = "8 word list"
type_synonym u16 = "16 word"
type_synonym u32 = "32 word"
type_synonym i32 = "32 word"
type_synonym u64 = "64 word"
type_synonym i64 = "64 word"
type_synonym uuid = "128 word"

text \<open>Floats are carried as the bit pattern of the IEEE value: the program
  stores, compares with nothing and forwards them.\<close>

type_synonym f32 = "32 word"

text \<open>Instants and durations, in nanoseconds.\<close>

type_synonym instant = nat

definition from_millis :: "nat \<Rightarrow> nat" where
  "from_millis n = n * 1000000"

definition from_secs :: "nat \<Rightarrow> nat" where
  "from_secs n = n * 1000000000"

section \<open>Programs: state, error, result\<close>

type_synonym ('s, 'e, 'a) prog = "'s \<Rightarrow> ('e + 'a) \<times> 's"

definition ok :: "'a \<Rightarrow> ('s, 'e, 'a) prog" where
  "ok a = (\<lambda>s. (Inr a, s))"

definition throw :: "'e \<Rightarrow> ('s, 'e, 'a) prog" where
  "throw e = (\<lambda>s. (Inl e, s))"

definition andThen :: "('s, 'e, 'a) prog \<Rightarrow> ('a \<Rightarrow> ('s, 'e, 'b) prog) \<Rightarrow> ('s, 'e, 'b) prog" where
  "andThen m k = (\<lambda>s. case m s of (Inl e, t) \<Rightarrow> (Inl e, t) | (Inr a, t) \<Rightarrow> k a t)"

abbreviation then_do :: "('s, 'e, 'a) prog \<Rightarrow> ('s, 'e, 'b) prog \<Rightarrow> ('s, 'e, 'b) prog" where
  "then_do m n \<equiv> andThen m (\<lambda>_. n)"

definition gets :: "('s \<Rightarrow> 'a) \<Rightarrow> ('s, 'e, 'a) prog" where
  "gets f = (\<lambda>s. (Inr (f s), s))"

definition modify :: "('s \<Rightarrow> 's) \<Rightarrow> ('s, 'e, unit) prog" where
  "modify f = (\<lambda>s. (Inr (), f s))"

text \<open>\<open>.ok_or(e)?\<close>: the value of an option or the error.\<close>

definition need :: "'e \<Rightarrow> 'a option \<Rightarrow> ('s, 'e, 'a) prog" where
  "need e v = (case v of None \<Rightarrow> throw e | Some a \<Rightarrow> ok a)"

text \<open>\<open>if !b { return Err(e); }\<close>\<close>

definition check :: "bool \<Rightarrow> 'e \<Rightarrow> ('s, 'e, unit) prog" where
  "check b e = (if b then ok () else throw e)"

text \<open>\<open>let r = m.await;\<close> with the result kept as a value, and \<open>let _ = m.await;\<close>\<close>

definition attempt :: "('s, 'e, 'a) prog \<Rightarrow> ('s, 'f, 'e + 'a) prog" where
  "attempt m = (\<lambda>s. case m s of (r, t) \<Rightarrow> (Inr r, t))"

definition ignore :: "('s, 'e, 'a) prog \<Rightarrow> ('s, 'f, unit) prog" where
  "ignore m = (\<lambda>s. (Inr (), snd (m s)))"

text \<open>\<open>.ok().flatten()\<close> and \<open>.unwrap_or_default()\<close> on the result of an effect.\<close>

definition ok_flatten :: "('s, 'e, 'a option) prog \<Rightarrow> ('s, 'f, 'a option) prog" where
  "ok_flatten m = (\<lambda>s. case m s of (Inl e, t) \<Rightarrow> (Inr None, t) | (Inr a, t) \<Rightarrow> (Inr a, t))"

definition or_else :: "'a \<Rightarrow> ('s, 'e, 'a) prog \<Rightarrow> ('s, 'f, 'a) prog" where
  "or_else d m = (\<lambda>s. case m s of (Inl e, t) \<Rightarrow> (Inr d, t) | (Inr a, t) \<Rightarrow> (Inr a, t))"

definition map_err :: "('e \<Rightarrow> 'f) \<Rightarrow> ('s, 'e, 'a) prog \<Rightarrow> ('s, 'f, 'a) prog" where
  "map_err g m = (\<lambda>s. case m s of (Inl e, t) \<Rightarrow> (Inl (g e), t) | (Inr a, t) \<Rightarrow> (Inr a, t))"

text \<open>\<open>unwrap\_or(d)\<close> on an option.\<close>

definition unwrap_or :: "'a \<Rightarrow> 'a option \<Rightarrow> 'a" where
  "unwrap_or d v = (case v of None \<Rightarrow> d | Some a \<Rightarrow> a)"

text \<open>\<open>for x in xs { body }\<close>, and the same with the results collected.\<close>

fun forM :: "('a \<Rightarrow> ('s, 'e, unit) prog) \<Rightarrow> 'a list \<Rightarrow> ('s, 'e, unit) prog" where
  "forM f [] = ok ()"
| "forM f (x # xs) = andThen (f x) (\<lambda>_. forM f xs)"

fun mapM :: "('a \<Rightarrow> ('s, 'e, 'b) prog) \<Rightarrow> 'a list \<Rightarrow> ('s, 'e, 'b list) prog" where
  "mapM f [] = ok []"
| "mapM f (x # xs) = andThen (f x) (\<lambda>y. andThen (mapM f xs) (\<lambda>ys. ok (y # ys)))"

subsection \<open>Equations\<close>

lemma run_ok [simp]: "ok a s = (Inr a, s)"
  by (simp add: ok_def)

lemma run_throw [simp]: "throw e s = (Inl e, s)"
  by (simp add: throw_def)

lemma run_gets [simp]: "gets f s = (Inr (f s), s)"
  by (simp add: gets_def)

lemma run_modify [simp]: "modify f s = (Inr (), f s)"
  by (simp add: modify_def)

lemma run_need [simp]: "need e None s = (Inl e, s)" "need e (Some a) s = (Inr a, s)"
  by (simp_all add: need_def)

lemma run_check [simp]: "check b e s = (if b then (Inr (), s) else (Inl e, s))"
  by (simp add: check_def)

lemma run_ignore [simp]: "ignore m s = (Inr (), snd (m s))"
  by (simp add: ignore_def)

lemma run_attempt [simp]: "attempt m s = (Inr (fst (m s)), snd (m s))"
  by (simp add: attempt_def split: prod.split)

lemma andThen_Inr [simp]: "m s = (Inr a, t) \<Longrightarrow> andThen m k s = k a t"
  by (simp add: andThen_def)

lemma andThen_Inl [simp]: "m s = (Inl e, t) \<Longrightarrow> andThen m k s = (Inl e, t)"
  by (simp add: andThen_def)

lemma andThen_ok [simp]: "andThen (ok a) k = k a"
  by (rule ext) (simp add: andThen_def)

lemma andThen_assoc: "andThen (andThen m k) h = andThen m (\<lambda>a. andThen (k a) h)"
  by (rule ext) (simp add: andThen_def split: prod.split sum.split)

lemma andThen_Inr_iff:
  "andThen m k s = (Inr b, t) \<longleftrightarrow> (\<exists>a u. m s = (Inr a, u) \<and> k a u = (Inr b, t))"
  by (auto simp: andThen_def split: prod.split sum.split)

lemma andThen_fst_Inr_iff:
  "fst (andThen m k s) = Inr b \<longleftrightarrow> (\<exists>a u. m s = (Inr a, u) \<and> fst (k a u) = Inr b)"
  by (auto simp: andThen_def split: prod.split sum.split)

lemma map_err_Inr_iff: "map_err g m s = (Inr b, t) \<longleftrightarrow> m s = (Inr b, t)"
  by (auto simp: map_err_def split: prod.split sum.split)

section \<open>Invariants and frames\<close>

named_theorems preserves_intros \<open>closure rules of the invariant calculus\<close>
named_theorems keeps_intros \<open>closure rules of the frame calculus\<close>
named_theorems calm_intros \<open>its rules for the frame of owned processes\<close>

text \<open>Every run of \<open>m\<close>, successful or not, leads from a state with \<open>I\<close> to one with \<open>I\<close>.\<close>

definition preserves :: "('s \<Rightarrow> bool) \<Rightarrow> ('s, 'e, 'a) prog \<Rightarrow> bool" where
  "preserves I m \<longleftrightarrow> (\<forall>s. I s \<longrightarrow> I (snd (m s)))"

text \<open>No run of \<open>m\<close> changes the part \<open>f\<close> of the state.\<close>

definition keeps :: "('s \<Rightarrow> 'b) \<Rightarrow> ('s, 'e, 'a) prog \<Rightarrow> bool" where
  "keeps f m \<longleftrightarrow> (\<forall>s. f (snd (m s)) = f s)"

lemma preservesI: "(\<And>s. I s \<Longrightarrow> I (snd (m s))) \<Longrightarrow> preserves I m"
  by (simp add: preserves_def)

lemma preservesD: "preserves I m \<Longrightarrow> I s \<Longrightarrow> I (snd (m s))"
  by (simp add: preserves_def)

lemma keepsI: "(\<And>s. f (snd (m s)) = f s) \<Longrightarrow> keeps f m"
  by (simp add: keeps_def)

lemma keepsD: "keeps f m \<Longrightarrow> f (snd (m s)) = f s"
  by (simp add: keeps_def)

lemma keeps_run: "keeps f m \<Longrightarrow> m s = (r, t) \<Longrightarrow> f t = f s"
  by (metis keeps_def snd_conv)

lemma preserves_by_keeps: "keeps f m \<Longrightarrow> preserves (\<lambda>s. P (f s)) m"
  by (simp add: keeps_def preserves_def)

lemma preserves_pure [preserves_intros]:
  "preserves I (ok a)" "preserves I (throw e)" "preserves I (gets g)"
  "preserves I (check b e)" "preserves I (need e v)"
  by (simp_all add: preserves_def need_def check_def split: option.split)

lemma keeps_pure [keeps_intros, calm_intros]:
  "keeps f (ok a)" "keeps f (throw e)" "keeps f (gets g)"
  "keeps f (check b e)" "keeps f (need e v)"
  by (simp_all add: keeps_def need_def check_def split: option.split)

lemma preserves_andThen [preserves_intros]:
  "preserves I m \<Longrightarrow> (\<And>a. preserves I (k a)) \<Longrightarrow> preserves I (andThen m k)"
  unfolding preserves_def andThen_def by (auto split: prod.split sum.split)

lemma keeps_andThen [keeps_intros, calm_intros]:
  "keeps f m \<Longrightarrow> (\<And>a. keeps f (k a)) \<Longrightarrow> keeps f (andThen m k)"
  unfolding keeps_def andThen_def by (auto split: prod.split sum.split) (metis snd_conv)+

lemma preserves_modify: "(\<And>s. I s \<Longrightarrow> I (g s)) \<Longrightarrow> preserves I (modify g)"
  by (simp add: preserves_def)

lemma keeps_modify [keeps_intros]: "(\<And>s. f (g s) = f s) \<Longrightarrow> keeps f (modify g)"
  by (simp add: keeps_def)

lemma preserves_wrap [preserves_intros]:
  assumes "preserves I m"
  shows "preserves I (ignore m)" "preserves I (attempt m)" "preserves I (map_err g m)"
    "preserves I (or_else d m)"
  using assms
  by (auto simp: preserves_def map_err_def or_else_def split: prod.split sum.split)

lemma preserves_ok_flatten [preserves_intros]:
  "preserves I m \<Longrightarrow> preserves I (ok_flatten m)"
  by (auto simp: preserves_def ok_flatten_def split: prod.split sum.split)

lemma keeps_wrap [keeps_intros, calm_intros]:
  assumes "keeps f m"
  shows "keeps f (ignore m)" "keeps f (attempt m)" "keeps f (map_err g m)"
    "keeps f (or_else d m)"
  using assms
  by (auto simp: keeps_def map_err_def or_else_def split: prod.split sum.split) (metis snd_conv)+

lemma keeps_ok_flatten [keeps_intros, calm_intros]: "keeps f m \<Longrightarrow> keeps f (ok_flatten m)"
  by (auto simp: keeps_def ok_flatten_def split: prod.split sum.split) (metis snd_conv)+

lemma preserves_forM [preserves_intros]:
  "(\<And>x. preserves I (f x)) \<Longrightarrow> preserves I (forM f xs)"
  by (induction xs) (auto intro!: preserves_intros)

lemma keeps_forM [keeps_intros, calm_intros]: "(\<And>x. keeps g (f x)) \<Longrightarrow> keeps g (forM f xs)"
  by (induction xs) (auto intro!: keeps_intros)

lemma preserves_mapM [preserves_intros]:
  "(\<And>x. preserves I (f x)) \<Longrightarrow> preserves I (mapM f xs)"
  by (induction xs) (auto intro!: preserves_intros)

lemma keeps_mapM [keeps_intros, calm_intros]: "(\<And>x. keeps g (f x)) \<Longrightarrow> keeps g (mapM f xs)"
  by (induction xs) (auto intro!: keeps_intros)

lemma preserves_if [preserves_intros]:
  "(b \<Longrightarrow> preserves I m) \<Longrightarrow> (\<not> b \<Longrightarrow> preserves I n) \<Longrightarrow> preserves I (if b then m else n)"
  by simp

lemma keeps_if [keeps_intros, calm_intros]:
  "(b \<Longrightarrow> keeps f m) \<Longrightarrow> (\<not> b \<Longrightarrow> keeps f n) \<Longrightarrow> keeps f (if b then m else n)"
  by simp

lemma preserves_case_option [preserves_intros]:
  "preserves I m \<Longrightarrow> (\<And>x. preserves I (g x)) \<Longrightarrow>
    preserves I (case v of None \<Rightarrow> m | Some x \<Rightarrow> g x)"
  by (simp split: option.split)

lemma keeps_case_option [keeps_intros, calm_intros]:
  "keeps f m \<Longrightarrow> (\<And>x. keeps f (g x)) \<Longrightarrow> keeps f (case v of None \<Rightarrow> m | Some x \<Rightarrow> g x)"
  by (simp split: option.split)

lemma keeps_case_sum [keeps_intros, calm_intros]:
  "(\<And>x. keeps f (m x)) \<Longrightarrow> (\<And>x. keeps f (g x)) \<Longrightarrow>
    keeps f (case v of Inl x \<Rightarrow> m x | Inr x \<Rightarrow> g x)"
  by (simp split: sum.split)

lemma preserves_case_sum [preserves_intros]:
  "(\<And>x. preserves I (m x)) \<Longrightarrow> (\<And>x. preserves I (g x)) \<Longrightarrow>
    preserves I (case v of Inl x \<Rightarrow> m x | Inr x \<Rightarrow> g x)"
  by (simp split: sum.split)

lemma keeps_case_prod [keeps_intros, calm_intros]:
  "(\<And>x y. keeps f (g x y)) \<Longrightarrow> keeps f (case v of (x, y) \<Rightarrow> g x y)"
  by (simp split: prod.split)

lemma preserves_case_prod [preserves_intros]:
  "(\<And>x y. preserves I (g x y)) \<Longrightarrow> preserves I (case v of (x, y) \<Rightarrow> g x y)"
  by (simp split: prod.split)

lemmas keeps_core = keeps_pure keeps_andThen keeps_wrap keeps_ok_flatten keeps_case_option keeps_if
  keeps_forM keeps_mapM keeps_case_sum keeps_case_prod

section \<open>Programs that answer success\<close>

named_theorems total_intros \<open>closure rules for programs that never fail\<close>

text \<open>No run of \<open>m\<close> ends in an error: what the handlers call and ignore.\<close>

definition never_fails :: "('s, 'e, 'a) prog \<Rightarrow> bool" where
  "never_fails m \<longleftrightarrow> (\<forall>s. \<exists>a t. m s = (Inr a, t))"

lemma never_fails_run: "never_fails m \<Longrightarrow> \<exists>a. m s = (Inr a, snd (m s))"
  by (metis never_fails_def snd_conv)

lemma snd_then: "never_fails m \<Longrightarrow> snd (then_do m n s) = snd (n (snd (m s)))"
  by (metis andThen_Inr never_fails_run)

lemma never_fails_pure [total_intros]:
  "never_fails (ok a)" "never_fails (gets f)" "never_fails (modify g)" "never_fails (ignore m)"
  by (simp_all add: never_fails_def)

lemma never_fails_wrap [total_intros]:
  "never_fails (attempt m)" "never_fails (or_else d m)" "never_fails (ok_flatten n)"
  by (auto simp: never_fails_def or_else_def ok_flatten_def split: prod.split sum.split)

lemma never_fails_andThen [total_intros]:
  "never_fails m \<Longrightarrow> (\<And>a. never_fails (k a)) \<Longrightarrow> never_fails (andThen m k)"
  unfolding never_fails_def by (metis andThen_Inr)

lemma never_fails_if [total_intros]:
  "never_fails m \<Longrightarrow> never_fails n \<Longrightarrow> never_fails (if b then m else n)"
  by simp

lemma never_fails_case_option [total_intros]:
  "never_fails m \<Longrightarrow> (\<And>x. never_fails (g x)) \<Longrightarrow>
    never_fails (case v of None \<Rightarrow> m | Some x \<Rightarrow> g x)"
  by (simp split: option.split)

lemma never_fails_case_prod [total_intros]:
  "(\<And>x y. never_fails (g x y)) \<Longrightarrow> never_fails (case v of (x, y) \<Rightarrow> g x y)"
  by (simp split: prod.split)

lemma never_fails_forM [total_intros]: "(\<And>x. never_fails (f x)) \<Longrightarrow> never_fails (forM f xs)"
  by (induction xs) (auto intro!: total_intros)

section \<open>Weakest preconditions\<close>

text \<open>\<open>wp m Q E s\<close>: from \<open>s\<close>, a successful run of \<open>m\<close> ends with \<open>Q\<close> and a
  failing one with \<open>E\<close>.\<close>

definition wp :: "('s, 'e, 'a) prog \<Rightarrow> ('a \<Rightarrow> 's \<Rightarrow> bool) \<Rightarrow> ('e \<Rightarrow> 's \<Rightarrow> bool) \<Rightarrow> 's \<Rightarrow> bool" where
  "wp m Q E s = (case m s of (Inr a, t) \<Rightarrow> Q a t | (Inl e, t) \<Rightarrow> E e t)"

named_theorems wp_simps \<open>equations of the weakest precondition\<close>

lemma wp_ok [wp_simps]: "wp (ok a) Q E s = Q a s"
  by (simp add: wp_def)

lemma wp_throw [wp_simps]: "wp (throw e) Q E s = E e s"
  by (simp add: wp_def)

lemma wp_gets [wp_simps]: "wp (gets f) Q E s = Q (f s) s"
  by (simp add: wp_def)

lemma wp_modify [wp_simps]: "wp (modify g) Q E s = Q () (g s)"
  by (simp add: wp_def)

lemma wp_check [wp_simps]: "wp (check b e) Q E s = (if b then Q () s else E e s)"
  by (simp add: wp_def)

lemmas wp_basic = wp_ok wp_throw wp_gets wp_modify wp_check

lemma wp_need [wp_simps]:
  "wp (need e v) Q E s = (case v of None \<Rightarrow> E e s | Some a \<Rightarrow> Q a s)"
  by (simp add: wp_def need_def split: option.split)

lemma wp_andThen [wp_simps]:
  "wp (andThen m k) Q E s = wp m (\<lambda>a. wp (k a) Q E) E s"
  by (simp add: wp_def andThen_def split: prod.split sum.split)

lemma wp_ignore [wp_simps]:
  "wp (ignore m) Q E s = wp m (\<lambda>_. Q ()) (\<lambda>_. Q ()) s"
  by (simp add: wp_def split: prod.split sum.split)

lemma wp_attempt [wp_simps]:
  "wp (attempt m) Q E s = wp m (\<lambda>a. Q (Inr a)) (\<lambda>e. Q (Inl e)) s"
  by (simp add: wp_def split: prod.split sum.split)

lemma wp_map_err [wp_simps]:
  "wp (map_err g m) Q E s = wp m Q (\<lambda>e. E (g e)) s"
  by (simp add: wp_def map_err_def split: prod.split sum.split)

lemma wp_or_else [wp_simps]:
  "wp (or_else d m) Q E s = wp m Q (\<lambda>_. Q d) s"
  by (simp add: wp_def or_else_def split: prod.split sum.split)

lemma wp_ok_flatten [wp_simps]:
  "wp (ok_flatten m) Q E s = wp m Q (\<lambda>_. Q None) s"
  by (simp add: wp_def ok_flatten_def split: prod.split sum.split)

lemma wp_mono:
  "wp m Q E s \<Longrightarrow> (\<And>a t. Q a t \<Longrightarrow> Q' a t) \<Longrightarrow> (\<And>e t. E e t \<Longrightarrow> E' e t) \<Longrightarrow> wp m Q' E' s"
  by (auto simp: wp_def split: prod.splits sum.splits)

lemma wp_seq:
  "wp m R E s \<Longrightarrow> (\<And>a t. R a t \<Longrightarrow> wp (k a) Q E t) \<Longrightarrow> wp (andThen m k) Q E s"
  by (simp add: wp_andThen) (erule wp_mono)

lemma wp_any: "wp m (\<lambda>_. P) (\<lambda>_. P) s \<longleftrightarrow> P (snd (m s))"
  by (simp add: wp_def split: prod.split sum.split)

lemma wp_skip: "(\<And>a t. wp (k a) Q (\<lambda>_ _. True) t) \<Longrightarrow> wp (andThen m k) Q (\<lambda>_ _. True) s"
  by (rule wp_seq [where R = "\<lambda>_ _. True"]) (simp_all add: wp_any)

text \<open>A step that leaves the part \<open>f\<close> of the state alone, whether it fails or not.\<close>

lemma wp_keep:
  assumes "keeps f m" "f s = x" "\<And>a t. f t = x \<Longrightarrow> wp (k a) Q E t" "\<And>e t. f t = x \<Longrightarrow> E e t"
  shows "wp (andThen m k) Q E s"
proof -
  obtain r t where run: "m s = (r, t)" by (cases "m s")
  then have "f t = x" using keeps_run [OF assms(1) run] assms(2) by simp
  then show ?thesis
    unfolding wp_andThen using assms(3,4) by (cases r) (simp_all add: wp_def [of m] run)
qed

lemma wp_preserves: "preserves I m \<Longrightarrow> I s \<Longrightarrow> wp m (\<lambda>_. I) (\<lambda>_. I) s"
  by (simp add: preserves_def wp_def split: prod.split sum.split) (metis snd_conv)

lemma preserves_wp: "(\<And>s. I s \<Longrightarrow> wp m (\<lambda>_. I) (\<lambda>_. I) s) \<Longrightarrow> preserves I m"
  by (simp add: preserves_def wp_any)

lemma wpD: "wp m Q E s \<Longrightarrow> m s = (Inr a, t) \<Longrightarrow> Q a t"
  by (simp add: wp_def)

lemma wp_errD: "wp m Q E s \<Longrightarrow> m s = (Inl e, t) \<Longrightarrow> E e t"
  by (simp add: wp_def)

text \<open>The rule for loops: an invariant that each round keeps.\<close>

lemma wp_forM:
  assumes "\<And>x t. x \<in> set xs \<Longrightarrow> I t \<Longrightarrow> wp (f x) (\<lambda>_. I) E t" and "I s"
  shows "wp (forM f xs) (\<lambda>_. I) E s"
  using assms
proof (induction xs arbitrary: s)
  case (Cons x xs)
  have "wp (f x) (\<lambda>_. I) E s" using Cons.prems by simp
  then show ?case
    by (simp add: wp_simps) (erule wp_mono, use Cons in auto)
qed (simp add: wp_simps)

section \<open>Watch channels\<close>

text \<open>A \<open>tokio::sync::watch\<close> channel: the current value and the number of
  sends. A receiver remembers the number it has seen; \<open>changed()\<close> is ready
  when the channel's is larger. Every send counts, also of an equal value.\<close>

record 'a watch =
  cur :: 'a
  version :: nat

definition send_watch :: "'a \<Rightarrow> 'a watch \<Rightarrow> 'a watch" where
  "send_watch v w = w\<lparr>cur := v, version := Suc (version w)\<rparr>"

definition changed_since :: "nat \<Rightarrow> 'a watch \<Rightarrow> bool" where
  "changed_since seen w \<longleftrightarrow> seen < version w"

lemma send_watch_simps [simp]:
  "cur (send_watch v w) = v" "version (send_watch v w) = Suc (version w)"
  by (simp_all add: send_watch_def)

section \<open>Lists, maps and words\<close>

lemma distinct_map_filter_keys: "distinct (map f xs) \<Longrightarrow> distinct (map f (filter P xs))"
  by (induction xs) auto

lemma find_key_Some_in: "find P xs = Some x \<Longrightarrow> x \<in> set xs \<and> P x"
  by (auto simp: find_Some_iff in_set_conv_nth)

lemma find_None_filter: "find P xs = None \<longleftrightarrow> filter P xs = []"
  by (induction xs) auto

lemma find_unique_key:
  "distinct (map f xs) \<Longrightarrow> x \<in> set xs \<Longrightarrow> find (\<lambda>y. f y = f x) xs = Some x"
  by (induction xs) force+

lemma unat_of_nat_small: "n < 2 ^ LENGTH('w::len) \<Longrightarrow> unat (of_nat n :: 'w word) = n"
  by (simp add: unat_of_nat take_bit_nat_eq_self)

lemma sort_key_sorted: "sorted (map f xs) \<Longrightarrow> sort_key f xs = xs"
  by (induction xs) (auto simp: insort_is_Cons)

lemma find_append: "find P (xs @ ys) = (case find P xs of None \<Rightarrow> find P ys | Some x \<Rightarrow> Some x)"
  by (induction xs) auto

lemma need_Inr_iff: "need e v s = (Inr a, t) \<longleftrightarrow> v = Some a \<and> t = s"
  by (cases v) auto

lemma check_Inr_iff: "check b e s = (Inr u, t) \<longleftrightarrow> b \<and> t = s"
  by auto

lemma gets_Inr_iff: "gets f s = (Inr a, t) \<longleftrightarrow> a = f s \<and> t = s"
  by auto

lemma map_sort_key: "map f (sort_key (\<lambda>a. h (f a)) xs) = sort_key h (map f xs)"
proof (induction xs)
  case (Cons a xs)
  have "map f (insort_key (\<lambda>a. h (f a)) a ys) = insort_key h (f a) (map f ys)" for ys
    by (induction ys) auto
  then show ?case using Cons by simp
qed simp

lemma ok_Inr_iff: "ok a s = (Inr b, t) \<longleftrightarrow> b = a \<and> t = s"
  by auto

lemma mapM_length: "mapM f xs s = (Inr ys, t) \<Longrightarrow> length ys = length xs"
  by (induction xs arbitrary: s ys t) (auto simp: andThen_Inr_iff)

lemma sort_key_equal: "(\<And>r. r \<in> set rs \<Longrightarrow> f r = g r) \<Longrightarrow> sort_key f rs = sort_key g rs"
proof (induction rs)
  case (Cons a rs)
  have "insort_key f a ys = insort_key g a ys" if "set ys \<subseteq> set rs" for ys
    using that Cons.prems by (induction ys) auto
  then show ?case using Cons by simp
qed simp

lemma ucast_scast_32: "ucast (scast (w :: 32 word) :: 64 word) = w"
proof (rule bit_word_eqI)
  fix n assume n: "n < LENGTH(32)"
  show "bit (ucast (scast w :: 64 word) :: 32 word) n = bit w n"
  proof (cases "n = 31")
    case False then show ?thesis using n by (simp add: bit_ucast_iff bit_signed_iff)
  qed (simp add: bit_ucast_iff bit_signed_iff)
qed

lemma sint_scast_32: "sint (scast (w :: 32 word) :: 64 word) = sint w"
  using sint_range_size [of w] by (simp add: signed_scast_eq signed_take_bit_int_eq_self word_size)

lemmas Inr_iffs = andThen_Inr_iff map_err_Inr_iff need_Inr_iff check_Inr_iff gets_Inr_iff ok_Inr_iff

end
