(* ===== verification/Common.thy ===== *)
theory Common
  imports Prelude "HOL-Library.Char_ord"
begin

text \<open>
  The types shared by the crates (\<open>crates/common/src\<close>): sources, scenes and
  layers, destinations, schedules and their triggers (\<open>types.rs\<close>), the events
  pushed to WebSocket clients (\<open>events.rs\<close>), the error type with its codes and
  status numbers (\<open>error.rs\<close>) and the configuration read from the environment
  (\<open>config.rs\<close>). Paths and texts are strings, a chrono UTC instant is a
  number of nanoseconds, a float is its bit pattern.
\<close>

section \<open>types.rs\<close>

datatype source_kind =
    Rtmp (rtmp_key: string)
  | Srt (srt_port: u16) (srt_passphrase: "string option")
  | WebRtc (webrtc_token: string)
  | TestPattern
  | MediaFile (mf_asset_id: uuid) (mf_file_path: string) (mf_loop_mode: string)
  | Browser (browser_url: string)

datatype source_state = Disconnected | Connecting | Live | SourceError string

record source =
  src_id :: uuid
  src_name :: string
  src_kind :: source_kind
  src_state :: source_state

datatype layer_fit = Fill | Contain | Cover

definition layer_fit_as_str :: "layer_fit \<Rightarrow> string" where
  "layer_fit_as_str f = (case f of
      Fill \<Rightarrow> ''fill''
    | Contain \<Rightarrow> ''contain''
    | Cover \<Rightarrow> ''cover'')"

definition layer_fit_from_db :: "string \<Rightarrow> layer_fit" where
  "layer_fit_from_db s =
    (if s = ''contain'' then Contain
     else if s = ''cover'' then Cover
     else Fill)"

record position =
  pos_x :: i32
  pos_y :: i32

record lsize =
  size_width :: u32
  size_height :: u32

record layer =
  layer_id :: uuid
  layer_source :: uuid
  layer_position :: position
  layer_size :: lsize
  layer_z :: u32
  layer_opacity :: f32
  layer_fit :: layer_fit

record scene =
  scene_id :: uuid
  scene_name :: string
  scene_layers :: "layer list"

datatype stinger_audio = Silent | Duck f32 | Overlay | Replace

record stinger_config =
  st_id :: uuid
  st_name :: string
  st_file_path :: string
  st_duration_ms :: u64
  st_start_ms :: u64
  st_opaque_ms :: u64
  st_clear_ms :: u64
  st_end_ms :: u64
  st_audio :: stinger_audio
  st_thumbnail :: string

datatype destination_kind =
    DRtmp (d_url: string) (d_stream_key: string)
  | DRtmps (d_url: string) (d_stream_key: string)
  | DSrt (d_url: string)
  | DRecording (d_path: string)

record destination =
  dest_id :: uuid
  dest_name :: string
  dest_kind :: destination_kind
  dest_enabled :: bool

datatype pipeline_state =
    PIdle
  | PStarting
  | PLive (started_at: instant) (active_scene: uuid)
  | PTransitioning (stinger_id: uuid) (target_scene: uuid)
  | PStopping
  | PError string

datatype api_scope = ScopeRead | ScopeControl | ScopeAdmin

record recording_state =
  recording :: bool
  rec_path :: "string option"
  rec_started_at :: "instant option"

record failover_config =
  fo_enabled :: bool
  fallback_source_id :: "uuid option"
  offline_grace_ms :: u64
  recovery_grace_ms :: u64

definition default_failover_config :: failover_config where
  "default_failover_config =
    \<lparr>fo_enabled = False, fallback_source_id = None,
     offline_grace_ms = 3000, recovery_grace_ms = 3000\<rparr>"

datatype end_behavior = EndStop | EndLoop | EndStandby

definition end_behavior_as_str :: "end_behavior \<Rightarrow> string" where
  "end_behavior_as_str b = (case b of
      EndStop \<Rightarrow> ''stop'' | EndLoop \<Rightarrow> ''loop'' | EndStandby \<Rightarrow> ''standby'')"

definition end_behavior_from_db :: "string \<Rightarrow> end_behavior" where
  "end_behavior_from_db s =
    (if s = ''loop'' then EndLoop else if s = ''standby'' then EndStandby else EndStop)"

datatype schedule_item_kind = ItemVod | ItemScene | ItemSource

definition item_kind_as_str :: "schedule_item_kind \<Rightarrow> string" where
  "item_kind_as_str k = (case k of
      ItemVod \<Rightarrow> ''vod'' | ItemScene \<Rightarrow> ''scene'' | ItemSource \<Rightarrow> ''source'')"

definition item_kind_from_db :: "string \<Rightarrow> schedule_item_kind" where
  "item_kind_from_db s =
    (if s = ''scene'' then ItemScene else if s = ''source'' then ItemSource else ItemVod)"

datatype trigger_kind = Once string | Cron string

record schedule_item =
  item_id :: uuid
  item_position :: u32
  item_kind :: schedule_item_kind
  item_ref :: uuid

record schedule =
  sched_id :: uuid
  sched_name :: string
  sched_enabled :: bool
  sched_trigger :: trigger_kind
  sched_destinations :: "uuid list"
  sched_standby :: "uuid option"
  sched_end :: end_behavior
  sched_until :: "string option"
  sched_items :: "schedule_item list"
  sched_next_run :: "string option"

record channel_config =
  ch_enabled :: bool
  ch_token :: string
  ch_title :: string
  ch_logo_url :: "string option"
  ch_accent :: "string option"
  ch_password_protected :: bool
  ch_watch_path :: string

record channel_info =
  ci_title :: string
  ci_logo_url :: "string option"
  ci_accent :: "string option"
  ci_live :: bool
  ci_requires_password :: bool

section \<open>events.rs\<close>

datatype ws_event =
    EvPipelineState pipeline_state
  | EvSourceState uuid source_state
  | EvDestinationState uuid string
  | EvSceneChanged uuid string
  | EvRecordingState bool "string option"
  | EvTransitionStarted uuid uuid
  | EvTransitionComplete uuid
  | EvFailoverState bool "uuid option" "uuid option"
  | EvScheduleStarted uuid
  | EvScheduleEnded uuid
  | EvScheduleSkipped uuid string
  | EvError string string

section \<open>error.rs\<close>

datatype mux_error =
    NotFound string
  | BadRequest string
  | Unauthorized string
  | PipelineErr string
  | Database string
  | Internal string

definition error_code :: "mux_error \<Rightarrow> string" where
  "error_code e = (case e of
      NotFound _ \<Rightarrow> ''NOT_FOUND''
    | BadRequest _ \<Rightarrow> ''BAD_REQUEST''
    | Unauthorized _ \<Rightarrow> ''UNAUTHORIZED''
    | PipelineErr _ \<Rightarrow> ''PIPELINE_ERROR''
    | Database _ \<Rightarrow> ''DATABASE_ERROR''
    | Internal _ \<Rightarrow> ''INTERNAL_ERROR'')"

definition status_code :: "mux_error \<Rightarrow> u16" where
  "status_code e = (case e of
      NotFound _ \<Rightarrow> 404
    | BadRequest _ \<Rightarrow> 400
    | Unauthorized _ \<Rightarrow> 401
    | PipelineErr _ \<Rightarrow> 500
    | Database _ \<Rightarrow> 500
    | Internal _ \<Rightarrow> 500)"

definition error_to_string :: "mux_error \<Rightarrow> string" where
  "error_to_string e = (case e of
      NotFound m \<Rightarrow> ''not found: '' @ m
    | BadRequest m \<Rightarrow> ''bad request: '' @ m
    | Unauthorized m \<Rightarrow> ''unauthorized: '' @ m
    | PipelineErr m \<Rightarrow> ''pipeline error: '' @ m
    | Database m \<Rightarrow> ''database error: '' @ m
    | Internal m \<Rightarrow> ''internal error: '' @ m)"

text \<open>The HTTP answer made of an error (\<open>api/src/error.rs\<close>); \<open>from_u16\<close>
  accepts 100 to 999 and anything else becomes 500.\<close>

record error_response =
  resp_status :: u16
  resp_code :: string
  resp_message :: string

definition into_response :: "mux_error \<Rightarrow> error_response" where
  "into_response e =
    \<lparr>resp_status = (if 100 \<le> status_code e \<and> status_code e < 1000 then status_code e else 500),
     resp_code = error_code e,
     resp_message = error_to_string e\<rparr>"

section \<open>Decimal text\<close>

definition digit_val :: "char \<Rightarrow> nat option" where
  "digit_val c = (if CHR ''0'' \<le> c \<and> c \<le> CHR ''9'' then Some (of_char c - 48) else None)"

fun digits_val :: "nat \<Rightarrow> string \<Rightarrow> nat option" where
  "digits_val acc [] = Some acc"
| "digits_val acc (c # cs) =
    (case digit_val c of None \<Rightarrow> None | Some d \<Rightarrow> digits_val (10 * acc + d) cs)"

text \<open>\<open>str::parse\<close> of an unsigned integer below \<open>bound\<close>: digits with an
  optional plus sign, no overflow.\<close>

definition parse_unsigned :: "nat \<Rightarrow> string \<Rightarrow> nat option" where
  "parse_unsigned bound s =
    (let ds = (case s of c # cs \<Rightarrow> if c = CHR ''+'' then cs else s | [] \<Rightarrow> s)
     in if ds = [] then None
        else case digits_val 0 ds of
          None \<Rightarrow> None
        | Some n \<Rightarrow> if n < bound then Some n else None)"

definition parse_u16 :: "string \<Rightarrow> u16 option" where
  "parse_u16 s = map_option of_nat (parse_unsigned 65536 s)"

text \<open>Decimal printing of a number, the \<open>{}\<close> of \<open>format!\<close>.\<close>

fun show_nat :: "nat \<Rightarrow> string" where
  "show_nat n = (if n < 10 then [char_of (48 + n)]
                 else show_nat (n div 10) @ [char_of (48 + n mod 10)])"

declare show_nat.simps [simp del]

definition show_word :: "'a::len word \<Rightarrow> string" where
  "show_word w = show_nat (unat w)"

definition show_i32 :: "i32 \<Rightarrow> string" where
  "show_i32 w = (if sint w < 0 then ''-'' @ show_nat (nat (- sint w)) else show_nat (nat (sint w)))"

section \<open>Text\<close>

text \<open>\<open>str::trim\<close>, \<open>split\_whitespace\<close> and \<open>to\_lowercase\<close> on ASCII text.\<close>

definition is_space :: "char \<Rightarrow> bool" where
  "is_space c \<longleftrightarrow> c = CHR '' '' \<or> (0x09 \<le> (of_char c :: nat) \<and> (of_char c :: nat) \<le> 0x0D)"

definition trim :: "string \<Rightarrow> string" where
  "trim s = rev (dropWhile is_space (rev (dropWhile is_space s)))"

fun split_spaces :: "string \<Rightarrow> string \<Rightarrow> string list" where
  "split_spaces w [] = (if w = [] then [] else [w])"
| "split_spaces w (c # cs) =
    (if is_space c then (if w = [] then split_spaces [] cs else w # split_spaces [] cs)
     else split_spaces (w @ [c]) cs)"

definition split_whitespace :: "string \<Rightarrow> string list" where
  "split_whitespace s = split_spaces [] s"

definition lower_char :: "char \<Rightarrow> char" where
  "lower_char c = (if CHR ''A'' \<le> c \<and> c \<le> CHR ''Z'' then char_of (of_char c + 32 :: nat) else c)"

definition to_lowercase :: "string \<Rightarrow> string" where
  "to_lowercase s = map lower_char s"

definition starts_with :: "string \<Rightarrow> string \<Rightarrow> bool" where
  "starts_with p s \<longleftrightarrow> take (length p) s = p"

definition strip_prefix :: "string \<Rightarrow> string \<Rightarrow> string option" where
  "strip_prefix p s = (if starts_with p s then Some (drop (length p) s) else None)"

section \<open>config.rs\<close>

record config =
  listen_addr :: string
  rtmp_port :: u16
  srt_port_range_start :: u16
  db_path :: string
  data_dir :: string
  web_dir :: "string option"
  log_level :: string
  headless :: bool
  bootstrap_api_key :: "string option"

type_synonym env = "string \<Rightarrow> string option"

definition env_bool :: "env \<Rightarrow> string \<Rightarrow> bool" where
  "env_bool e key = (case e key of
      None \<Rightarrow> False
    | Some v \<Rightarrow> v = ''1'' \<or> v = ''true'' \<or> v = ''TRUE'' \<or> v = ''yes'')"

definition env_or :: "env \<Rightarrow> string \<Rightarrow> string \<Rightarrow> string" where
  "env_or e key d = (case e key of None \<Rightarrow> d | Some v \<Rightarrow> v)"

definition env_port :: "env \<Rightarrow> string \<Rightarrow> u16 \<Rightarrow> u16" where
  "env_port e key d = (case Option.bind (e key) parse_u16 of None \<Rightarrow> d | Some p \<Rightarrow> p)"

definition config_from_env :: "env \<Rightarrow> config" where
  "config_from_env e =
    \<lparr>listen_addr = env_or e ''MUXSHED_LISTEN_ADDR'' ''0.0.0.0:8080'',
     rtmp_port = env_port e ''MUXSHED_RTMP_PORT'' 1935,
     srt_port_range_start = env_port e ''MUXSHED_SRT_PORT_START'' 9000,
     db_path = env_or e ''MUXSHED_DB_PATH'' ''muxshed.db'',
     data_dir = env_or e ''MUXSHED_DATA_DIR'' ''data'',
     web_dir = e ''MUXSHED_WEB_DIR'',
     log_level = env_or e ''MUXSHED_LOG_LEVEL'' ''info'',
     headless = env_bool e ''MUXSHED_HEADLESS'',
     bootstrap_api_key =
       (case e ''MUXSHED_API_KEY'' of None \<Rightarrow> None | Some k \<Rightarrow> if k = [] then None else Some k)\<rparr>"

section \<open>Facts\<close>

lemma layer_fit_roundtrip [simp]: "layer_fit_from_db (layer_fit_as_str f) = f"
  by (cases f) (simp_all add: layer_fit_from_db_def layer_fit_as_str_def)

lemma end_behavior_roundtrip [simp]: "end_behavior_from_db (end_behavior_as_str b) = b"
  by (cases b) (simp_all add: end_behavior_from_db_def end_behavior_as_str_def)

lemma item_kind_roundtrip [simp]: "item_kind_from_db (item_kind_as_str k) = k"
  by (cases k) (simp_all add: item_kind_from_db_def item_kind_as_str_def)

lemma into_response_status:
  "resp_status (into_response e) = status_code e"
  by (cases e) (simp_all add: into_response_def status_code_def)

lemma digits_val_append:
  "digits_val acc (xs @ ys) = Option.bind (digits_val acc xs) (\<lambda>a. digits_val a ys)"
  by (induction xs arbitrary: acc) (auto split: option.split)

lemma digit_val_char: "d < 10 \<Longrightarrow> digit_val (char_of (48 + d)) = Some d"
  by (simp add: digit_val_def less_eq_char_def take_bit_nat_eq_self_iff)

lemma digits_val_show: "digits_val 0 (show_nat n) = Some n"
proof (induction n rule: show_nat.induct)
  case (1 n)
  show ?case
  proof (cases "n < 10")
    case True
    then show ?thesis by (simp add: show_nat.simps [of n] digit_val_char)
  next
    case False
    then have "digits_val 0 (show_nat (n div 10)) = Some (n div 10)" using 1 by simp
    moreover have "digit_val (char_of (48 + n mod 10)) = Some (n mod 10)"
      by (rule digit_val_char) simp
    ultimately show ?thesis
      using False by (simp add: show_nat.simps [of n] digits_val_append)
  qed
qed

lemma show_nat_not_Nil [simp]: "show_nat n \<noteq> []"
  by (simp add: show_nat.simps [of n])

lemma set_show_nat: "c \<in> set (show_nat n) \<Longrightarrow> CHR ''0'' \<le> c \<and> c \<le> CHR ''9''"
proof (induction n rule: show_nat.induct)
  case (1 n)
  have digit: "CHR ''0'' \<le> (char_of (48 + d) :: char) \<and> (char_of (48 + d) :: char) \<le> CHR ''9''"
    if "d < 10" for d :: nat
    using that by (simp add: less_eq_char_def take_bit_nat_eq_self_iff)
  show ?case
  proof (cases "n < 10")
    case True
    then show ?thesis using "1.prems" digit by (simp add: show_nat.simps [of n])
  next
    case False
    have "n mod 10 < 10" by simp
    then show ?thesis
      using "1.prems" "1.IH" [OF False] False digit [of "n mod 10"]
      by (auto simp: show_nat.simps [of n])
  qed
qed

lemma parse_show_nat:
  assumes "n < b"
  shows "parse_unsigned b (show_nat n) = Some n"
proof -
  obtain c cs where c: "show_nat n = c # cs"
    by (cases "show_nat n") auto
  have "c \<noteq> CHR ''+''"
    using set_show_nat [of c n] c by (auto simp: less_eq_char_def)
  moreover have "digits_val 0 (c # cs) = Some n"
    using digits_val_show [of n] c by simp
  ultimately show ?thesis
    using assms by (simp add: parse_unsigned_def c del: digits_val.simps)
qed

lemma show_nat_inj: "show_nat m = show_nat n \<Longrightarrow> m = n"
  by (metis digits_val_show option.inject)

end
