(* ===== verification/Schema.thy ===== *)
theory Schema
  imports Common
begin

text \<open>
  The SQLite database behind the server (\<open>crates/api/migrations\<close>): one record
  per table row with the columns of the migrations, tables as lists in row
  order, and the constraints the statements of the program meet (primary keys,
  UNIQUE columns, ON DELETE CASCADE and SET NULL). Identifiers, JSON columns
  and timestamps are TEXT, so they are strings here too; an INTEGER read as
  \<open>i64\<close> is a 64-bit word. Foreign keys are on, as sqlx opens SQLite with them.
\<close>

section \<open>Rows\<close>

record source_row =
  sr_id :: string
  sr_name :: string
  sr_kind :: string
  sr_created_at :: string

record scene_row =
  sc_id :: string
  sc_name :: string
  sc_created_at :: string

record layer_row =
  lr_id :: string
  lr_scene_id :: string
  lr_source_id :: string
  lr_x :: i64
  lr_y :: i64
  lr_width :: i64
  lr_height :: i64
  lr_z_index :: i64
  lr_opacity :: f32
  lr_fit :: string

record stinger_row =
  sg_id :: string
  sg_name :: string
  sg_file_path :: string
  sg_duration_ms :: i64
  sg_start_ms :: i64
  sg_opaque_ms :: i64
  sg_clear_ms :: i64
  sg_end_ms :: i64
  sg_audio_behaviour :: string
  sg_thumbnail_path :: string

record dest_row =
  dr_id :: string
  dr_name :: string
  dr_kind :: string
  dr_enabled :: i64

record key_row =
  kr_id :: string
  kr_name :: string
  kr_key_hash :: string
  kr_scopes :: string
  kr_created_at :: string
  kr_last_used_at :: "string option"

record guest_row =
  gr_id :: string
  gr_name :: string
  gr_token :: string
  gr_created_at :: string
  gr_status :: string
  gr_source_id :: "string option"

record user_row =
  ur_id :: string
  ur_username :: string
  ur_password_hash :: string
  ur_role :: string
  ur_created_at :: string

record session_row =
  se_id :: string
  se_user_id :: string
  se_token :: string
  se_expires_at :: string

record asset_row =
  ar_id :: string
  ar_name :: string
  ar_asset_type :: string
  ar_file_path :: string
  ar_file_size :: i64
  ar_mime_type :: string
  ar_folder_id :: "string option"
  ar_loop_mode :: string
  ar_duration_ms :: i64
  ar_start_ms :: i64
  ar_opaque_ms :: i64
  ar_clear_ms :: i64
  ar_end_ms :: i64
  ar_audio_behaviour :: string
  ar_thumbnail_path :: string
  ar_metadata :: string
  ar_created_at :: string

record folder_row =
  fr_id :: string
  fr_name :: string
  fr_parent_id :: "string option"
  fr_color :: string
  fr_created_at :: string

record channel_row =
  cr_enabled :: i64
  cr_token :: string
  cr_title :: string
  cr_logo_path :: "string option"
  cr_accent :: "string option"
  cr_password_hash :: "string option"

record schedule_row =
  sd_id :: string
  sd_name :: string
  sd_enabled :: i64
  sd_trigger_kind :: string
  sd_trigger_at :: "string option"
  sd_trigger_cron :: "string option"
  sd_destination_ids :: string
  sd_standby_asset_id :: "string option"
  sd_end_behavior :: string
  sd_until_at :: "string option"
  sd_next_run_at :: "string option"
  sd_created_at :: string
  sd_updated_at :: string

record schedule_item_row =
  ir_id :: string
  ir_schedule_id :: string
  ir_position :: i64
  ir_item_kind :: string
  ir_ref_id :: string

record schedule_run_row =
  rr_id :: string
  rr_schedule_id :: string
  rr_started_at :: "string option"
  rr_ended_at :: "string option"
  rr_status :: string

record db =
  sources :: "source_row list"
  scenes :: "scene_row list"
  layers :: "layer_row list"
  stingers :: "stinger_row list"
  destinations :: "dest_row list"
  api_keys :: "key_row list"
  settings :: "string \<Rightarrow> string option"
  guests :: "guest_row list"
  users :: "user_row list"
  sessions :: "session_row list"
  assets :: "asset_row list"
  folders :: "folder_row list"
  channel :: "channel_row option"
  schedules :: "schedule_row list"
  schedule_items :: "schedule_item_row list"
  schedule_runs :: "schedule_run_row list"

section \<open>The statements the components share\<close>

text \<open>\<open>LIKE\<close> of SQLite: \<open>%\<close> stands for any text, \<open>_\<close> for any character, and
  letters of the ASCII range match in either case.\<close>

definition like_eq :: "char \<Rightarrow> char \<Rightarrow> bool" where
  "like_eq a b \<longleftrightarrow> lower_char a = lower_char b"

function sql_like :: "string \<Rightarrow> string \<Rightarrow> bool" where
  "sql_like [] s = (s = [])"
| "sql_like (p # ps) [] = (if p = CHR ''%'' then sql_like ps [] else False)"
| "sql_like (p # ps) (c # cs) =
    (if p = CHR ''%'' then sql_like ps (c # cs) \<or> sql_like (p # ps) cs
     else if p = CHR ''_'' then sql_like ps cs
     else like_eq p c \<and> sql_like ps cs)"
  by pat_completeness auto
termination
  by (relation "measure (\<lambda>(p, s). length p + length s)") auto

text \<open>\<open>INSERT INTO t\<close> with a primary key: refused when the key is taken.\<close>

definition insert_row :: "('r \<Rightarrow> string) \<Rightarrow> 'r \<Rightarrow> 'r list \<Rightarrow> 'r list option" where
  "insert_row key r rs = (if key r \<in> set (map key rs) then None else Some (rs @ [r]))"

text \<open>\<open>UPDATE t SET ... WHERE P\<close>, with the number of rows it changed, and
  \<open>DELETE FROM t WHERE P\<close>.\<close>

definition update_where :: "('r \<Rightarrow> bool) \<Rightarrow> ('r \<Rightarrow> 'r) \<Rightarrow> 'r list \<Rightarrow> 'r list" where
  "update_where P f rs = map (\<lambda>r. if P r then f r else r) rs"

definition delete_where :: "('r \<Rightarrow> bool) \<Rightarrow> 'r list \<Rightarrow> 'r list" where
  "delete_where P rs = filter (\<lambda>r. \<not> P r) rs"

definition count_where :: "('r \<Rightarrow> bool) \<Rightarrow> 'r list \<Rightarrow> nat" where
  "count_where P rs = length (filter P rs)"

text \<open>\<open>DELETE FROM sources\<close> cascades to the layers that show the source,
  \<open>DELETE FROM scenes\<close> to the layers of the scene, \<open>DELETE FROM users\<close> to the
  sessions of the user, \<open>DELETE FROM schedules\<close> to the items, and
  \<open>DELETE FROM folders\<close> detaches the sub-folders.\<close>

definition delete_source :: "string \<Rightarrow> db \<Rightarrow> db" where
  "delete_source i d = d\<lparr>sources := delete_where (\<lambda>r. sr_id r = i) (sources d),
     layers := delete_where (\<lambda>r. lr_source_id r = i \<and> i \<in> sr_id ` set (sources d)) (layers d)\<rparr>"

definition delete_scene :: "string \<Rightarrow> db \<Rightarrow> db" where
  "delete_scene i d = d\<lparr>scenes := delete_where (\<lambda>r. sc_id r = i) (scenes d),
     layers := delete_where (\<lambda>r. lr_scene_id r = i \<and> i \<in> sc_id ` set (scenes d)) (layers d)\<rparr>"

definition delete_user_row :: "string \<Rightarrow> db \<Rightarrow> db" where
  "delete_user_row i d = d\<lparr>users := delete_where (\<lambda>r. ur_id r = i) (users d),
     sessions := delete_where (\<lambda>r. se_user_id r = i \<and> i \<in> ur_id ` set (users d)) (sessions d)\<rparr>"

definition delete_schedule_row :: "string \<Rightarrow> db \<Rightarrow> db" where
  "delete_schedule_row i d = d\<lparr>schedules := delete_where (\<lambda>r. sd_id r = i) (schedules d),
     schedule_items :=
       delete_where (\<lambda>r. ir_schedule_id r = i \<and> i \<in> sd_id ` set (schedules d)) (schedule_items d)\<rparr>"

definition delete_folder_row :: "string \<Rightarrow> db \<Rightarrow> db" where
  "delete_folder_row i d = d\<lparr>folders :=
     update_where (\<lambda>r. fr_parent_id r = Some i) (\<lambda>r. r\<lparr>fr_parent_id := None\<rparr>)
       (delete_where (\<lambda>r. fr_id r = i) (folders d))\<rparr>"

definition put_setting :: "string \<Rightarrow> string \<Rightarrow> db \<Rightarrow> db" where
  "put_setting k v d = d\<lparr>settings := (settings d)(k \<mapsto> v)\<rparr>"

section \<open>The interface of a table with a primary key\<close>

text \<open>What the handlers rely on when they insert, look up and delete rows: a
  row that was inserted is the one found under its key, deleting a key leaves
  no row of that key and every other row, and keys stay distinct.\<close>

locale keyed_table =
  fixes key :: "'r \<Rightarrow> string"
    and ins :: "'r \<Rightarrow> 'r list \<Rightarrow> 'r list option"
    and del :: "string \<Rightarrow> 'r list \<Rightarrow> 'r list"
  assumes ins_some: "ins r rs = Some rs' \<Longrightarrow> key r \<notin> key ` set rs \<and> set rs' = insert r (set rs)"
    and ins_none: "ins r rs = None \<longleftrightarrow> key r \<in> key ` set rs"
    and ins_distinct: "ins r rs = Some rs' \<Longrightarrow> distinct (map key rs) \<Longrightarrow> distinct (map key rs')"
    and del_set: "set (del k rs) = {r \<in> set rs. key r \<noteq> k}"
    and del_distinct: "distinct (map key rs) \<Longrightarrow> distinct (map key (del k rs))"
begin

lemma found_after_insert:
  assumes "ins r rs = Some rs'" and "distinct (map key rs)"
  shows "find (\<lambda>x. key x = key r) rs' = Some r"
proof -
  have "distinct (map key rs')" "r \<in> set rs'"
    using assms ins_some ins_distinct by auto
  then show ?thesis by (rule find_unique_key)
qed

lemma gone_after_delete: "find (\<lambda>x. key x = k) (del k rs) = None"
  by (simp add: find_None_iff del_set)

lemma others_after_delete: "r \<in> set rs \<Longrightarrow> key r \<noteq> k \<Longrightarrow> r \<in> set (del k rs)"
  by (simp add: del_set)

lemma insert_after_delete: "key r = k \<Longrightarrow> ins r (del k rs) \<noteq> None"
  by (auto simp: ins_none del_set)

end

lemma insert_row_Some:
  "insert_row key r rs = Some rs' \<longleftrightarrow> key r \<notin> key ` set rs \<and> rs' = rs @ [r]"
  by (auto simp: insert_row_def split: if_splits)

lemma set_delete_where [simp]: "set (delete_where P rs) = {r \<in> set rs. \<not> P r}"
  by (auto simp: delete_where_def)

lemma distinct_delete_where: "distinct (map f rs) \<Longrightarrow> distinct (map f (delete_where P rs))"
  by (simp add: delete_where_def distinct_map_filter_keys)

lemma map_update_where: "(\<And>r. g (f r) = g r) \<Longrightarrow> map g (update_where P f rs) = map g rs"
  by (induction rs) (auto simp: update_where_def)

interpretation source_table: keyed_table sr_id "insert_row sr_id" "\<lambda>k. delete_where (\<lambda>r. sr_id r = k)"
  by unfold_locales (auto simp: insert_row_def distinct_delete_where split: if_splits)

interpretation user_table: keyed_table ur_id "insert_row ur_id" "\<lambda>k. delete_where (\<lambda>r. ur_id r = k)"
  by unfold_locales (auto simp: insert_row_def distinct_delete_where split: if_splits)

interpretation key_table: keyed_table kr_id "insert_row kr_id" "\<lambda>k. delete_where (\<lambda>r. kr_id r = k)"
  by unfold_locales (auto simp: insert_row_def distinct_delete_where split: if_splits)

interpretation dest_table: keyed_table dr_id "insert_row dr_id" "\<lambda>k. delete_where (\<lambda>r. dr_id r = k)"
  by unfold_locales (auto simp: insert_row_def distinct_delete_where split: if_splits)

interpretation schedule_table: keyed_table sd_id "insert_row sd_id" "\<lambda>k. delete_where (\<lambda>r. sd_id r = k)"
  by unfold_locales (auto simp: insert_row_def distinct_delete_where split: if_splits)

section \<open>Facts about LIKE\<close>

lemma like_eq_refl [simp]: "like_eq c c"
  by (simp add: like_eq_def)

lemma sql_like_percent_all: "sql_like ''%'' s"
  by (induction s) auto

lemma sql_like_percentI: "sql_like ps t \<Longrightarrow> sql_like (CHR ''%'' # ps) (s @ t)"
proof (induction s)
  case Nil
  then show ?case by (cases t) auto
qed simp

lemma sql_like_literal: "CHR ''%'' \<notin> set p \<Longrightarrow> sql_like ps s \<Longrightarrow> sql_like (p @ ps) (p @ s)"
  by (induction p) auto

lemma sql_like_contains:
  assumes "CHR ''%'' \<notin> set p"
  shows "sql_like (''%'' @ p @ ''%'') (a @ p @ b)"
proof -
  have "sql_like (p @ ''%'') (p @ b)"
    by (rule sql_like_literal [OF assms sql_like_percent_all])
  from sql_like_percentI [OF this, of a] show ?thesis by simp
qed

text \<open>Patterns are compared by these lemmas or by evaluation, not by unfolding.\<close>

declare sql_like.simps [simp del]

end
