(* ===== verification/AppState.thy ===== *)
theory AppState
  imports Schema
begin

text \<open>
  The shared state of the server (\<open>crates/api/src/state.rs\<close>): the record
  \<open>app\<close> with the registries of relays, cached headers and child processes, the
  watch channels that connect the operator, the failover supervisor, the
  program router and the scheduler, and the database. What the program asks
  of its environment is here too: \<open>lib\<close> collects the functions of the
  third-party crates (uuid, serde\_json, sha2, bcrypt, chrono, cron) that the
  definitions take as an argument, and \<open>os\<close> holds the clock, the running
  child processes, the files and the outcome of each fallible call.
\<close>

section \<open>Values kept as JSON in the settings table\<close>

record output_config =
  video_bitrate_kbps :: u32
  audio_bitrate_kbps :: u32
  width :: u32
  height :: u32
  fps :: u32

definition default_output_config :: output_config where
  "default_output_config =
    \<lparr>video_bitrate_kbps = 4500, audio_bitrate_kbps = 160, width = 1920, height = 1080, fps = 30\<rparr>"

record broadcast_config =
  bc_source_id :: "uuid option"
  bc_scene_id :: "uuid option"
  bc_start_stinger_id :: "uuid option"
  bc_destination_ids :: "uuid list"
  bc_auto_record :: bool

definition default_broadcast_config :: broadcast_config where
  "default_broadcast_config =
    \<lparr>bc_source_id = None, bc_scene_id = None, bc_start_stinger_id = None,
     bc_destination_ids = [], bc_auto_record = False\<rparr>"

record audio_channel_state =
  ac_source_id :: uuid
  ac_muted :: bool
  ac_volume :: f32

record audio_routing =
  active_audio_source :: "uuid option"
  channels :: "audio_channel_state list"
  audio_follows_video :: bool

definition default_audio_routing :: audio_routing where
  "default_audio_routing =
    \<lparr>active_audio_source = None, channels = [], audio_follows_video = False\<rparr>"

text \<open>\<open>routes/webrtc\_config.rs\<close>.\<close>

record ice_server =
  ice_urls :: "string list"
  ice_username :: "string option"
  ice_credential :: "string option"

type_synonym webrtc_config = "ice_server list"

definition default_webrtc_config :: webrtc_config where
  "default_webrtc_config = []"

text \<open>\<open>IngestKind\<close> of \<open>webrtc\_ingest.rs\<close>.\<close>

datatype ingest_kind = Persistent | Guest

text \<open>\<open>serde\_json::Value\<close>; a float is its bit pattern.\<close>

datatype json =
    JNull
  | JBool bool
  | JNum u64
  | JFloat u64
  | JStr string
  | JArr "json list"
  | JObj "(string \<times> json) list"

section \<open>The crates the program calls\<close>

record lib =
  parse_uuid :: "string \<Rightarrow> uuid option"
  show_uuid :: "uuid \<Rightarrow> string"
  new_v4 :: "nat \<Rightarrow> uuid"
  rand_index :: "nat \<Rightarrow> nat"
  kind_to_json :: "source_kind \<Rightarrow> string"
  kind_of_json :: "string \<Rightarrow> source_kind option"
  dest_to_json :: "destination_kind \<Rightarrow> string"
  dest_of_json :: "string \<Rightarrow> destination_kind option"
  output_to_json :: "output_config \<Rightarrow> string"
  output_of_json :: "string \<Rightarrow> output_config option"
  failover_to_json :: "failover_config \<Rightarrow> string"
  failover_of_json :: "string \<Rightarrow> failover_config option"
  routing_to_json :: "audio_routing \<Rightarrow> string"
  routing_of_json :: "string \<Rightarrow> audio_routing option"
  broadcast_to_json :: "broadcast_config \<Rightarrow> string"
  broadcast_of_json :: "string \<Rightarrow> broadcast_config option"
  strings_to_json :: "string list \<Rightarrow> string"
  strings_of_json :: "string \<Rightarrow> string list option"
  scopes_to_json :: "api_scope list \<Rightarrow> string"
  scopes_of_json :: "string \<Rightarrow> api_scope list option"
  audio_to_json :: "stinger_audio \<Rightarrow> string"
  audio_of_json :: "string \<Rightarrow> stinger_audio option"
  sha256_hex :: "string \<Rightarrow> string"
  bcrypt_hash :: "nat \<Rightarrow> string \<Rightarrow> string"
  bcrypt_verify :: "string \<Rightarrow> string \<Rightarrow> bool option"
  rfc3339 :: "instant \<Rightarrow> string"
  parse_rfc3339 :: "string \<Rightarrow> instant option"
  webrtc_to_json :: "webrtc_config \<Rightarrow> string"
  webrtc_of_json :: "string \<Rightarrow> webrtc_config option"
  file_stamp :: "instant \<Rightarrow> string"
  sql_datetime :: "instant \<Rightarrow> string"
  parse_naive :: "string \<Rightarrow> string \<Rightarrow> nat option"
  known_tz :: "string \<Rightarrow> bool"
  local_to_utc :: "string \<Rightarrow> nat \<Rightarrow> instant option"
  cron_valid :: "string \<Rightarrow> bool"
  cron_next :: "string \<Rightarrow> string \<Rightarrow> instant \<Rightarrow> instant option"
  f32_to_3dp :: "f32 \<Rightarrow> string"
  f32_below_0999 :: "f32 \<Rightarrow> bool"
  json_of_text :: "string \<Rightarrow> json option"
  json_to_text :: "json \<Rightarrow> string"
  f64_parse :: "string \<Rightarrow> u64 option"
  f64_millis :: "u64 \<Rightarrow> u64"
  f64_div :: "u64 \<Rightarrow> u64 \<Rightarrow> u64"
  f64_positive :: "u64 \<Rightarrow> bool"
  ice_error :: "(string list \<times> string \<times> string) list \<Rightarrow> string option"
  sdp_answer :: "string \<Rightarrow> string"

section \<open>Child processes and the operating system\<close>

record child =
  pid :: nat
  program :: string
  cargs :: "string list"

text \<open>The codec headers and the last keyframe cached for a source.\<close>

record seq_headers =
  video :: "bytes option"
  audio :: "bytes option"
  last_keyframe :: "bytes option"

definition default_seq_headers :: seq_headers where
  "default_seq_headers = \<lparr>video = None, audio = None, last_keyframe = None\<rparr>"

text \<open>What a handler hands to \<open>tokio::spawn\<close>; the task's own steps are
  modelled by the theory that declares its function.\<close>

datatype task =
    TReadNormalized uuid nat
  | TReadSrt uuid nat
  | TSrtStderr uuid nat
  | TFeedRelay uuid nat
  | TBrowserShots uuid string u32
  | TReadBrowser uuid nat
  | TReadIngest uuid nat ingest_kind
  | TFeedLayer u16 uuid
  | TReadComposite uuid nat
  | TPipeRaw nat nat
  | TFeedEgress uuid nat "seq_headers option"
  | TFeedChannel nat "seq_headers option"
  | TPipelineLive
  | TPipelineIdle
  | TPipelineStinger uuid
  | TRunBroadcast uuid
  | TClosePeer nat
  | TPumpTracks nat uuid u16 u16 nat ingest_kind
  | TWatchIngest uuid ingest_kind
  | TStartPlayer uuid string string
  | TStartSrt uuid u16 "string option"
  | TStartBrowser uuid string
  | TProgramRouter
  | TFailoverSupervisor
  | TScheduler
  | TRtmpServer u16
  | TExit

text \<open>The operating system and the WebRTC stack: \<open>peers\<close> holds for each open
  peer connection what its state callback captured, \<open>modified\<close> the time a file
  of an encoder was last written.\<close>

record os =
  clock :: instant
  faults :: "string option list"
  files :: "string \<Rightarrow> bytes option"
  running :: "nat list"
  next_pid :: nat
  next_port :: u16
  uuids :: nat
  rands :: nat
  tasks :: "task list"
  exe_exists :: "string \<Rightarrow> bool"
  canonical :: "string \<Rightarrow> string option"
  environ :: env
  next_peer :: nat
  peers :: "nat \<Rightarrow> (uuid \<times> ingest_kind) option"
  modified :: "string \<Rightarrow> instant option"

section \<open>AppState\<close>

record media_info =
  mi_width :: "u32 option"
  mi_height :: "u32 option"
  mi_fps :: "u64 option"
  mi_video_bitrate :: "u32 option"
  mi_audio_bitrate :: "u32 option"
  mi_audio_sample_rate :: "u32 option"
  mi_encoder :: "string option"

record egress_process =
  ep_child :: child
  ep_name :: string

text \<open>\<open>EgressManager\<close>: the order in which \<open>HashMap::drain\<close> meets the entries
  is not fixed, so the processes are an association list with distinct keys
  and every statement about a drain holds for each order of it.\<close>

record egress_manager =
  processes :: "(uuid \<times> egress_process) list"
  bytes_sent :: u64
  egress_started_at :: "instant option"
  restart_params :: "(destination list \<times> output_config option) option"

text \<open>The receiver of a broadcast channel: a value, a gap, or no sender left.\<close>

datatype recv = Got bytes | Lagged nat | Closed

record app =
  pipe_state :: pipeline_state
  rec_state :: recording_state
  cfg :: config
  db :: db
  ws_log :: "ws_event list"
  source_states :: "uuid \<Rightarrow> source_state option"
  media_relays :: "uuid \<Rightarrow> nat option"
  sent :: "nat \<Rightarrow> bytes list"
  next_chan :: nat
  sequence_headers :: "uuid \<Rightarrow> seq_headers option"
  source_media_info :: "uuid \<Rightarrow> media_info option"
  media_players :: "uuid \<Rightarrow> child option"
  source_normalizers :: "uuid \<Rightarrow> child option"
  srt_listeners :: "uuid \<Rightarrow> child option"
  guest_peers :: "uuid \<Rightarrow> nat option"
  whip_sessions :: "uuid \<Rightarrow> uuid option"
  scene_compositors :: "uuid \<Rightarrow> child option"
  browser_sources :: "uuid \<Rightarrow> child option"
  egress :: egress_manager
  hls :: "child option"
  program_tx :: "bytes list"
  program_source :: "uuid option watch"
  program_intent :: "uuid option watch"
  failover_active :: "bool watch"
  active_schedule :: "uuid option watch"
  schedule_nudge :: "u64 watch"
  preview_source :: "uuid option"
  routing :: "audio_routing watch"
  system_token :: "string option"
  sys :: os

text \<open>A handler answers a \<open>mux_error\<close>; the helpers below the handlers answer a
  string, as their \<open>Result<_, String>\<close> does.\<close>

type_synonym 'a handler = "(app, mux_error, 'a) prog"
type_synonym 'a io = "(app, string, 'a) prog"

section \<open>Calls that can fail\<close>

text \<open>Every fallible call (a statement, a spawn, a bind, a file operation)
  takes the next entry of \<open>faults\<close>: \<open>Some m\<close> makes it fail with the message
  \<open>m\<close>, \<open>None\<close> or the end of the list lets it succeed. Statements about all
  \<open>faults\<close> cover every pattern of failures.\<close>

definition set_sys :: "(os \<Rightarrow> os) \<Rightarrow> app \<Rightarrow> app" where
  "set_sys f s = s\<lparr>sys := f (sys s)\<rparr>"

definition drop_fault :: "app \<Rightarrow> app" where
  "drop_fault = set_sys (\<lambda>o1. o1\<lparr>faults := tl (faults o1)\<rparr>)"

definition next_fault :: "app \<Rightarrow> string option" where
  "next_fault s = (case faults (sys s) of [] \<Rightarrow> None | f # _ \<Rightarrow> f)"

definition fallible :: "'a io \<Rightarrow> 'a io" where
  "fallible m = (\<lambda>s. case next_fault s of
      Some e \<Rightarrow> (Inl e, drop_fault s)
    | None \<Rightarrow> m (drop_fault s))"

text \<open>A statement that reads, one that changes the database, one that answers the
  number of rows it affected too, and one whose constraints can refuse it.\<close>

definition sql_read :: "(db \<Rightarrow> 'a) \<Rightarrow> 'a io" where
  "sql_read f = fallible (gets (\<lambda>s. f (db s)))"

definition sql_exec :: "(db \<Rightarrow> db) \<Rightarrow> unit io" where
  "sql_exec f = fallible (modify (\<lambda>s. s\<lparr>db := f (db s)\<rparr>))"

definition sql_count :: "(db \<Rightarrow> nat) \<Rightarrow> (db \<Rightarrow> db) \<Rightarrow> nat io" where
  "sql_count n f = fallible (\<lambda>s. (Inr (n (db s)), s\<lparr>db := f (db s)\<rparr>))"

definition sql_try :: "(db \<Rightarrow> db option) \<Rightarrow> unit io" where
  "sql_try f = fallible (\<lambda>s. case f (db s) of
      None \<Rightarrow> (Inl ''constraint failed'', s)
    | Some d \<Rightarrow> (Inr (), s\<lparr>db := d\<rparr>))"

text \<open>The \<open>?\<close> on a statement inside a handler: \<open>From<sqlx::Error>\<close>.\<close>

abbreviation q :: "'a io \<Rightarrow> 'a handler" where
  "q m \<equiv> map_err Database m"

text \<open>The rest of the operating system: the clock, random numbers, files.\<close>

definition now :: "(app, 'e, instant) prog" where
  "now = gets (\<lambda>s. clock (sys s))"

definition sleep :: "nat \<Rightarrow> (app, 'e, unit) prog" where
  "sleep d = modify (set_sys (\<lambda>o1. o1\<lparr>clock := clock o1 + d\<rparr>))"

definition fresh_uuid :: "lib \<Rightarrow> (app, 'e, uuid) prog" where
  "fresh_uuid L = (\<lambda>s. (Inr (new_v4 L (uuids (sys s))),
     set_sys (\<lambda>o1. o1\<lparr>uuids := Suc (uuids o1)\<rparr>) s))"

text \<open>The random texts: each character is \<open>random\_range(0..base)\<close>, a digit below
  ten and a letter above. \<open>rands\<close> counts the draws.\<close>

definition token_char :: "nat \<Rightarrow> char" where
  "token_char k = char_of (if k < 10 then 48 + k else 97 + (k - 10))"

definition random_token :: "lib \<Rightarrow> nat \<Rightarrow> nat \<Rightarrow> (app, 'e, string) prog" where
  "random_token L base n = (\<lambda>s.
     (Inr (map (\<lambda>k. token_char (rand_index L (rands (sys s) + k) mod base)) [0..<n]),
      set_sys (\<lambda>o1. o1\<lparr>rands := rands o1 + n\<rparr>) s))"

definition write_file :: "string \<Rightarrow> bytes \<Rightarrow> unit io" where
  "write_file p c = fallible (modify (set_sys (\<lambda>o1. o1\<lparr>files := (files o1)(p \<mapsto> c)\<rparr>)))"

definition remove_file :: "string \<Rightarrow> unit io" where
  "remove_file p = fallible (\<lambda>s. case files (sys s) p of
      None \<Rightarrow> (Inl ''No such file or directory'', s)
    | Some _ \<Rightarrow> (Inr (), set_sys (\<lambda>o1. o1\<lparr>files := (files o1)(p := None)\<rparr>) s))"

text \<open>\<open>fs::read\<close>, and \<open>File::create\<close> with \<open>write\_all\<close>: the file is there, empty,
  when only the write fails.\<close>

definition read_file :: "string \<Rightarrow> bytes io" where
  "read_file p = fallible (\<lambda>s. case files (sys s) p of
      None \<Rightarrow> (Inl ''No such file or directory'', s) | Some c \<Rightarrow> (Inr c, s))"

definition save_file :: "string \<Rightarrow> bytes \<Rightarrow> unit handler" where
  "save_file p c =
    then_do (map_err (\<lambda>e. Internal (''create file: '' @ e)) (write_file p []))
            (map_err (\<lambda>e. Internal (''write file: '' @ e)) (write_file p c))"

text \<open>\<open>create_dir_all\<close> and \<open>canonicalize\<close>: directories are not part of \<open>files\<close>,
  the canonical form of a path is the operating system's to tell.\<close>

definition create_dir_all :: "string \<Rightarrow> unit io" where
  "create_dir_all p = fallible (ok ())"

definition canonicalize :: "string \<Rightarrow> string io" where
  "canonicalize p = fallible (\<lambda>s. case canonical (sys s) p of
      None \<Rightarrow> (Inl ''No such file or directory'', s) | Some c \<Rightarrow> (Inr c, s))"

text \<open>Joining and taking apart paths (\<open>std::path\<close>).\<close>

definition path_join :: "string \<Rightarrow> string \<Rightarrow> string" where
  "path_join a b =
    (if b \<noteq> [] \<and> hd b = CHR ''/'' then b
     else if a = [] then b
     else if last a = CHR ''/'' then a @ b
     else a @ ''/'' @ b)"

definition file_name :: "string \<Rightarrow> string" where
  "file_name p = rev (takeWhile (\<lambda>c. c \<noteq> CHR ''/'') (dropWhile (\<lambda>c. c = CHR ''/'') (rev p)))"

definition path_extension :: "string \<Rightarrow> string option" where
  "path_extension p =
    (let f = file_name p; ext = rev (takeWhile (\<lambda>c. c \<noteq> CHR ''.'') (rev f))
     in if f = ''..'' \<or> CHR ''.'' \<notin> set (tl f) then None else Some ext)"

definition spawn_task :: "task \<Rightarrow> (app, 'e, unit) prog" where
  "spawn_task t = modify (set_sys (\<lambda>o1. o1\<lparr>tasks := tasks o1 @ [t]\<rparr>))"

text \<open>\<open>Command::spawn\<close>, and the end of a child: killed or dropped. Every
  \<open>Command\<close> of the program sets \<open>kill_on_drop(true)\<close>, so both end the process.\<close>

definition spawn_child :: "string \<Rightarrow> string list \<Rightarrow> child io" where
  "spawn_child prg as = fallible (\<lambda>s.
     let p = next_pid (sys s)
     in (Inr \<lparr>pid = p, program = prg, cargs = as\<rparr>,
         set_sys (\<lambda>o1. o1\<lparr>next_pid := Suc p, running := p # running o1\<rparr>) s))"

definition kill :: "child \<Rightarrow> (app, 'e, unit) prog" where
  "kill c = modify (set_sys (\<lambda>o1. o1\<lparr>running := removeAll (pid c) (running o1)\<rparr>))"

definition kill_opt :: "child option \<Rightarrow> (app, 'e, unit) prog" where
  "kill_opt c = (case c of None \<Rightarrow> ok () | Some c \<Rightarrow> kill c)"

definition bind_port :: "u16 io" where
  "bind_port = fallible (\<lambda>s. (Inr (next_port (sys s)),
     set_sys (\<lambda>o1. o1\<lparr>next_port := next_port o1 + 1\<rparr>) s))"

section \<open>Channels and registries\<close>

text \<open>\<open>let _ = ws_tx.send(e)\<close>: the log keeps every event offered to the
  WebSocket clients; \<open>program_send\<close> is \<open>program_tx.send\<close>.\<close>

definition ws_send :: "ws_event \<Rightarrow> (app, 'e, unit) prog" where
  "ws_send e = modify (\<lambda>s. s\<lparr>ws_log := ws_log s @ [e]\<rparr>)"

definition program_send :: "bytes \<Rightarrow> app \<Rightarrow> app" where
  "program_send b s = s\<lparr>program_tx := program_tx s @ [b]\<rparr>"

definition relay_send :: "nat \<Rightarrow> bytes \<Rightarrow> app \<Rightarrow> app" where
  "relay_send ch b s = s\<lparr>sent := (sent s)(ch := sent s ch @ [b])\<rparr>"

definition set_program_source :: "uuid option \<Rightarrow> app \<Rightarrow> app" where
  "set_program_source v s = s\<lparr>program_source := send_watch v (program_source s)\<rparr>"

definition set_program_intent :: "uuid option \<Rightarrow> app \<Rightarrow> app" where
  "set_program_intent v s = s\<lparr>program_intent := send_watch v (program_intent s)\<rparr>"

definition set_failover_active :: "bool \<Rightarrow> app \<Rightarrow> app" where
  "set_failover_active v s = s\<lparr>failover_active := send_watch v (failover_active s)\<rparr>"

definition set_active_schedule :: "uuid option \<Rightarrow> app \<Rightarrow> app" where
  "set_active_schedule v s = s\<lparr>active_schedule := send_watch v (active_schedule s)\<rparr>"

definition set_routing :: "audio_routing \<Rightarrow> app \<Rightarrow> app" where
  "set_routing v s = s\<lparr>routing := send_watch v (routing s)\<rparr>"

definition set_source_state :: "uuid \<Rightarrow> source_state \<Rightarrow> app \<Rightarrow> app" where
  "set_source_state i st s = s\<lparr>source_states := (source_states s)(i \<mapsto> st)\<rparr>"

definition forget_headers :: "uuid \<Rightarrow> app \<Rightarrow> app" where
  "forget_headers i s = s\<lparr>sequence_headers := (sequence_headers s)(i := None)\<rparr>"

text \<open>\<open>AppState::get_or_create_media_relay\<close>, \<open>get_media_relay\<close> and
  \<open>remove_media_relay\<close>; a relay is the number of its broadcast channel.\<close>

definition get_or_create_media_relay :: "uuid \<Rightarrow> (app, 'e, nat) prog" where
  "get_or_create_media_relay i = (\<lambda>s. case media_relays s i of
      Some ch \<Rightarrow> (Inr ch, s)
    | None \<Rightarrow> (Inr (next_chan s),
        s\<lparr>media_relays := (media_relays s)(i \<mapsto> next_chan s), next_chan := Suc (next_chan s)\<rparr>))"

definition get_media_relay :: "uuid \<Rightarrow> app \<Rightarrow> nat option" where
  "get_media_relay i s = media_relays s i"

definition remove_media_relay :: "uuid \<Rightarrow> app \<Rightarrow> app" where
  "remove_media_relay i s = s\<lparr>media_relays := (media_relays s)(i := None)\<rparr>"

definition new_channel :: "(app, 'e, nat) prog" where
  "new_channel = (\<lambda>s. (Inr (next_chan s), s\<lparr>next_chan := Suc (next_chan s)\<rparr>))"

text \<open>The settings that several parts load: \<open>fetch_optional(..).ok().flatten()\<close>,
  then the JSON, then the default. \<open>load_output_config\<close> has one copy in each
  module that starts an encoder, all with this body.\<close>

definition read_setting :: "string \<Rightarrow> (app, 'e, string option) prog" where
  "read_setting k = ok_flatten (sql_read (\<lambda>d. settings d k))"

definition load_setting :: "(string \<Rightarrow> 'a option) \<Rightarrow> 'a \<Rightarrow> string \<Rightarrow> (app, 'e, 'a) prog" where
  "load_setting dec dflt k = andThen (read_setting k) (\<lambda>v.
     ok (case Option.bind v dec of None \<Rightarrow> dflt | Some a \<Rightarrow> a))"

definition load_output_config :: "lib \<Rightarrow> (app, 'e, output_config) prog" where
  "load_output_config L = load_setting (output_of_json L) default_output_config ''output_config''"

text \<open>What the crates promise of the texts they make: a UUID is read back from its
  text, a list of texts from its JSON.\<close>

definition uuid_text :: "lib \<Rightarrow> bool" where
  "uuid_text L \<longleftrightarrow> (\<forall>i. parse_uuid L (show_uuid L i) = Some i)"

definition strings_text :: "lib \<Rightarrow> bool" where
  "strings_text L \<longleftrightarrow> (\<forall>ts. strings_of_json L (strings_to_json L ts) = Some ts)"

section \<open>Rules of the calls\<close>

lemma wp_fallible [wp_simps]:
  "wp (fallible m) Q E s =
    (case next_fault s of Some e \<Rightarrow> E e (drop_fault s) | None \<Rightarrow> wp m Q E (drop_fault s))"
  by (simp add: wp_def fallible_def split: option.split)

lemma sys_drop_fault [simp]: "sys (drop_fault s) = (sys s)\<lparr>faults := tl (faults (sys s))\<rparr>"
  by (simp add: drop_fault_def set_sys_def)

lemma db_drop_fault [simp]: "db (drop_fault s) = db s"
  by (simp add: drop_fault_def set_sys_def)

lemma db_set_sys [simp]: "db (set_sys f s) = db s"
  by (simp add: set_sys_def)

text \<open>What a fault takes with it is only the list of faults, so a part of the
  state outside \<open>sys\<close> survives it. \<open>frame f\<close> names such parts.\<close>

definition frame :: "(app \<Rightarrow> 'b) \<Rightarrow> bool" where
  "frame f \<longleftrightarrow> (\<forall>s g. f (s\<lparr>sys := g\<rparr>) = f s)"

lemma frame_set_sys: "frame f \<Longrightarrow> f (set_sys g s) = f s"
  by (simp add: frame_def set_sys_def)

lemma frame_drop_fault: "frame f \<Longrightarrow> f (drop_fault s) = f s"
  by (simp add: drop_fault_def frame_set_sys)

lemma frames [simp, intro!]:
  "frame pipe_state" "frame rec_state" "frame cfg" "frame db" "frame ws_log" "frame source_states"
  "frame media_relays" "frame sent" "frame sequence_headers" "frame media_players"
  "frame source_normalizers" "frame srt_listeners" "frame guest_peers" "frame whip_sessions"
  "frame scene_compositors" "frame browser_sources" "frame egress" "frame hls" "frame program_tx"
  "frame program_source" "frame program_intent" "frame failover_active" "frame active_schedule"
  "frame preview_source" "frame routing" "frame system_token" "frame schedule_nudge"
  by (simp_all add: frame_def)

lemma frame_db_part [intro]: "frame (\<lambda>s. g (db s))"
  by (simp add: frame_def)

lemma keeps_fallible [keeps_intros]:
  "frame f \<Longrightarrow> keeps f m \<Longrightarrow> keeps f (fallible m)"
  by (auto simp: keeps_def fallible_def frame_drop_fault split: option.split)

lemma keeps_sql_read [keeps_intros]: "frame f \<Longrightarrow> keeps f (sql_read g)"
  by (simp add: sql_read_def keeps_intros)

lemma keeps_sql_write [keeps_intros]:
  assumes "frame f" "\<And>s x. f (s\<lparr>db := x\<rparr>) = f s"
  shows "keeps f (sql_exec h)" "keeps f (sql_count n h)" "keeps f (sql_try k)"
  unfolding sql_exec_def sql_count_def sql_try_def
  by (rule keeps_fallible [OF assms(1)]; simp add: keeps_def assms(2) split: option.split)+

lemma keeps_set_sys [keeps_intros]: "frame f \<Longrightarrow> keeps f (modify (set_sys g))"
  by (simp add: keeps_def frame_set_sys)

lemma keeps_os [keeps_intros]:
  assumes "frame f"
  shows "keeps f now" "keeps f (sleep d)" "keeps f (fresh_uuid L)" "keeps f (write_file p content)"
    "keeps f (remove_file p)" "keeps f (create_dir_all p)" "keeps f (canonicalize p)" "keeps f (spawn_task t)" "keeps f (spawn_child prg as)"
    "keeps f (kill c)" "keeps f (kill_opt co)" "keeps f bind_port" "keeps f (random_token L b n)"
    "keeps f (read_file p)"
  using assms
  by (auto simp: keeps_def now_def sleep_def fresh_uuid_def random_token_def write_file_def remove_file_def
      create_dir_all_def canonicalize_def read_file_def
      spawn_task_def spawn_child_def kill_def kill_opt_def bind_port_def fallible_def Let_def
      frame_set_sys frame_drop_fault split: option.split)

lemma keeps_read_setting [keeps_intros]: "frame f \<Longrightarrow> keeps f (read_setting k)"
  by (simp add: read_setting_def keeps_intros)

lemma keeps_load_setting [keeps_intros]: "frame f \<Longrightarrow> keeps f (load_setting dec d k)"
  unfolding load_setting_def by (intro keeps_intros)

lemma keeps_load_output_config [keeps_intros]: "frame f \<Longrightarrow> keeps f (load_output_config L)"
  unfolding load_output_config_def by (intro keeps_intros)

lemma keeps_ws_send [keeps_intros]:
  "(\<And>s x. f (s\<lparr>ws_log := x\<rparr>) = f s) \<Longrightarrow> keeps f (ws_send e)"
  by (simp add: keeps_def ws_send_def)

lemma total_os [total_intros]:
  "never_fails now" "never_fails (sleep d)" "never_fails (spawn_task t)" "never_fails (kill c)"
  "never_fails (ws_send e)" "never_fails (read_setting k)"
  unfolding now_def sleep_def spawn_task_def kill_def ws_send_def read_setting_def
  by (intro total_intros)+

lemma total_kill_opt [total_intros]: "never_fails (kill_opt c)"
  unfolding kill_opt_def by (intro total_intros)

lemma total_fresh_uuid [total_intros]: "never_fails (fresh_uuid L)" "never_fails (random_token L b n)"
  by (simp_all add: never_fails_def fresh_uuid_def random_token_def)

lemma total_relay [total_intros]: "never_fails (get_or_create_media_relay i)"
  by (auto simp: never_fails_def get_or_create_media_relay_def split: option.split)

lemma total_load_setting [total_intros]: "never_fails (load_setting dec d k)"
  unfolding load_setting_def by (intro total_intros)

lemma forM_spawn:
  "forM (\<lambda>x. spawn_task (f x)) xs s = (Inr (), set_sys (\<lambda>o1. o1\<lparr>tasks := tasks o1 @ map f xs\<rparr>) s)"
  by (induction xs arbitrary: s) (simp_all add: spawn_task_def set_sys_def)

section \<open>Runs without failing calls\<close>

definition no_faults :: "app \<Rightarrow> bool" where
  "no_faults s \<longleftrightarrow> faults (sys s) = []"

lemma no_faults_next [simp]: "no_faults s \<Longrightarrow> next_fault s = None"
  by (simp add: no_faults_def next_fault_def)

lemma drop_fault_none: "no_faults s \<Longrightarrow> drop_fault s = s"
  by (cases s) (simp add: no_faults_def drop_fault_def set_sys_def)

lemma spawn_child_ok:
  "no_faults s \<Longrightarrow> spawn_child prg as s =
    (Inr \<lparr>pid = next_pid (sys s), program = prg, cargs = as\<rparr>,
     set_sys (\<lambda>o1. o1\<lparr>next_pid := Suc (next_pid (sys s)), running := next_pid (sys s) # running o1\<rparr>) s)"
  by (simp add: spawn_child_def fallible_def drop_fault_none Let_def)

lemma q_exec_ok: "no_faults s \<Longrightarrow> q (sql_exec f) s = (Inr (), s\<lparr>db := f (db s)\<rparr>)"
  by (simp add: map_err_def sql_exec_def fallible_def drop_fault_none)

lemma q_count_ok: "no_faults s \<Longrightarrow> q (sql_count n f) s = (Inr (n (db s)), s\<lparr>db := f (db s)\<rparr>)"
  by (simp add: map_err_def sql_count_def fallible_def drop_fault_none)

lemma q_read_ok: "no_faults s \<Longrightarrow> q (sql_read f) s = (Inr (f (db s)), s)"
  by (simp add: map_err_def sql_read_def fallible_def drop_fault_none)

lemma q_try_ok:
  "no_faults s \<Longrightarrow> q (sql_try f) s = (case f (db s) of
     None \<Rightarrow> (Inl (Database ''constraint failed''), s) | Some d \<Rightarrow> (Inr (), s\<lparr>db := d\<rparr>))"
  by (simp add: map_err_def sql_try_def fallible_def drop_fault_none split: option.split)

text \<open>What a statement that succeeded did, whatever calls fail elsewhere.\<close>

lemma q_read_Inr: "q (sql_read f) s = (Inr x, t) \<Longrightarrow> x = f (db s) \<and> db t = db s"
  by (auto simp: map_err_def sql_read_def fallible_def split: option.splits)

lemma q_exec_Inr: "q (sql_exec f) s = (Inr x, t) \<Longrightarrow> db t = f (db s)"
  by (auto simp: map_err_def sql_exec_def fallible_def split: option.splits)

lemma q_count_Inr: "q (sql_count n f) s = (Inr x, t) \<Longrightarrow> x = n (db s) \<and> db t = f (db s)"
  by (auto simp: map_err_def sql_count_def fallible_def split: option.splits)

lemma q_try_Inr: "q (sql_try f) s = (Inr x, t) \<Longrightarrow> f (db s) = Some (db t)"
  by (auto simp: map_err_def sql_try_def fallible_def split: option.splits)

lemmas q_dests = q_read_Inr q_exec_Inr q_count_Inr q_try_Inr

lemma no_faults_db [simp]: "no_faults (s\<lparr>db := d\<rparr>) = no_faults s"
  by (simp add: no_faults_def)

text \<open>\<open>smooth m\<close>: with no call failing \<open>m\<close> succeeds, and still no call fails after
  it. It is how a handler is shown to answer success.\<close>

named_theorems smooth_intros \<open>closure rules for programs that succeed when no call fails\<close>

definition smooth :: "(app, 'e, 'a) prog \<Rightarrow> bool" where
  "smooth m \<longleftrightarrow> (\<forall>s. no_faults s \<longrightarrow> (\<exists>a t. m s = (Inr a, t) \<and> no_faults t))"

lemma smoothD: "smooth m \<Longrightarrow> no_faults s \<Longrightarrow> \<exists>a. m s = (Inr a, snd (m s)) \<and> no_faults (snd (m s))"
  by (metis smooth_def snd_conv)

lemma smooth_pure [smooth_intros]: "smooth (ok a)" "smooth (gets f)"
  by (simp_all add: smooth_def)

lemma smooth_modify [smooth_intros]: "(\<And>s. faults (sys (g s)) = faults (sys s)) \<Longrightarrow> smooth (modify g)"
  by (simp add: smooth_def no_faults_def)

lemma smooth_andThen [smooth_intros]: "smooth m \<Longrightarrow> (\<And>a. smooth (k a)) \<Longrightarrow> smooth (andThen m k)"
  unfolding smooth_def by (metis andThen_Inr)

lemma smooth_wrap [smooth_intros]:
  assumes "smooth m"
  shows "smooth (ignore m)" "smooth (attempt m)" "smooth (map_err g m)" "smooth (or_else d m)"
  using assms by (force simp: smooth_def map_err_def or_else_def)+

lemma smooth_ok_flatten [smooth_intros]: "smooth m \<Longrightarrow> smooth (ok_flatten m)"
  by (force simp: smooth_def ok_flatten_def)

lemma smooth_cases [smooth_intros]:
  "smooth m \<Longrightarrow> smooth n \<Longrightarrow> smooth (if b then m else n)"
  "smooth m \<Longrightarrow> (\<And>x. smooth (h x)) \<Longrightarrow> smooth (case v of None \<Rightarrow> m | Some x \<Rightarrow> h x)"
  by (simp_all split: option.split)

lemma smooth_case_prod [smooth_intros]: "(\<And>x y. smooth (g x y)) \<Longrightarrow> smooth (case v of (x, y) \<Rightarrow> g x y)"
  by (simp split: prod.split)

lemma smooth_forM [smooth_intros]: "(\<And>x. smooth (f x)) \<Longrightarrow> smooth (forM f xs)"
  by (induction xs) (auto intro!: smooth_intros)

lemma smooth_mapM [smooth_intros]: "(\<And>x. smooth (f x)) \<Longrightarrow> smooth (mapM f xs)"
  by (induction xs) (auto intro!: smooth_intros)

lemma smooth_fallible [smooth_intros]: "smooth m \<Longrightarrow> smooth (fallible m)"
  by (simp add: smooth_def fallible_def drop_fault_none)

lemma smooth_os [smooth_intros]:
  "smooth now" "smooth (sleep d)" "smooth (spawn_task t)" "smooth (kill c)" "smooth (ws_send e)"
  "smooth (sql_read g)" "smooth (sql_exec h)" "smooth (write_file p content)" "smooth (create_dir_all p)"
  unfolding now_def sleep_def spawn_task_def kill_def ws_send_def sql_read_def sql_exec_def
    write_file_def create_dir_all_def
  by (intro smooth_intros; simp add: set_sys_def)+

lemma smooth_sql_count [smooth_intros]: "smooth (sql_count n f)"
  unfolding sql_count_def by (rule smooth_fallible) (simp add: smooth_def no_faults_def)

lemma smooth_kill_opt [smooth_intros]: "smooth (kill_opt c)"
  unfolding kill_opt_def by (intro smooth_intros)

lemma smooth_spawn_child [smooth_intros]: "smooth (spawn_child prg as)"
  unfolding spawn_child_def
  by (rule smooth_fallible) (simp add: smooth_def no_faults_def set_sys_def Let_def)

lemma smooth_bind_port [smooth_intros]: "smooth bind_port"
  unfolding bind_port_def
  by (rule smooth_fallible) (simp add: smooth_def no_faults_def set_sys_def Let_def)

lemma smooth_fresh_uuid [smooth_intros]: "smooth (fresh_uuid L)" "smooth (random_token L b n)"
  by (simp_all add: smooth_def fresh_uuid_def random_token_def no_faults_def set_sys_def)

lemma smooth_relay [smooth_intros]: "smooth (get_or_create_media_relay i)" "smooth new_channel"
  by (simp_all add: smooth_def get_or_create_media_relay_def new_channel_def no_faults_def split: option.split)

lemma smooth_settings [smooth_intros]:
  "smooth (read_setting k)" "smooth (load_setting dec dflt k)" "smooth (load_output_config L)"
  unfolding read_setting_def load_setting_def load_output_config_def by (intro smooth_intros)+

text \<open>A call that may fail of its own (the file is not there) is smooth once its
  failure is caught.\<close>

lemma smooth_caught:
  assumes "\<And>s. no_faults s \<Longrightarrow> no_faults (snd (m s))"
  shows "smooth (or_else d m)" "smooth (ignore m)" "smooth (attempt m)"
  using assms by (fastforce simp: smooth_def or_else_def split: prod.split sum.split)+

section \<open>Time passes, it does not run backwards\<close>

named_theorems later_intros \<open>closure rules for programs that do not turn the clock back\<close>

definition later :: "(app, 'e, 'a) prog \<Rightarrow> bool" where
  "later m \<longleftrightarrow> (\<forall>s. clock (sys s) \<le> clock (sys (snd (m s))))"

lemma laterD: "later m \<Longrightarrow> clock (sys s) \<le> clock (sys (snd (m s)))"
  by (simp add: later_def)

lemma later_pure [later_intros]:
  "later (ok a)" "later (throw e)" "later (gets f)" "later (check b e)" "later (need e v)"
  by (simp_all add: later_def need_def check_def split: option.split)

lemma later_modify [later_intros]: "(\<And>s. clock (sys s) \<le> clock (sys (g s))) \<Longrightarrow> later (modify g)"
  by (simp add: later_def)

lemma later_andThen [later_intros]:
  "later m \<Longrightarrow> (\<And>a. later (k a)) \<Longrightarrow> later (andThen m k)"
  unfolding later_def andThen_def
  by (auto split: prod.split sum.split) (metis snd_conv, metis order_trans snd_conv)

lemma later_wrap [later_intros]:
  assumes "later m"
  shows "later (ignore m)" "later (attempt m)" "later (map_err g m)" "later (or_else d m)"
  using assms
  by (auto simp: later_def map_err_def or_else_def split: prod.split sum.split) (metis snd_conv)+

lemma later_ok_flatten [later_intros]: "later m \<Longrightarrow> later (ok_flatten m)"
  by (auto simp: later_def ok_flatten_def split: prod.split sum.split) (metis snd_conv)+

lemma later_cases [later_intros]:
  "later m \<Longrightarrow> later n \<Longrightarrow> later (if b then m else n)"
  "later m \<Longrightarrow> (\<And>x. later (h x)) \<Longrightarrow> later (case v of None \<Rightarrow> m | Some x \<Rightarrow> h x)"
  by (simp_all split: option.split)

lemma later_case_prod [later_intros]: "(\<And>x y. later (h x y)) \<Longrightarrow> later (case v of (x, y) \<Rightarrow> h x y)"
  by (simp split: prod.split)

lemma later_forM [later_intros]: "(\<And>x. later (f x)) \<Longrightarrow> later (forM f xs)"
  by (induction xs) (auto intro!: later_intros)

lemma later_fallible [later_intros]: "later m \<Longrightarrow> later (fallible m)"
  by (auto simp: later_def fallible_def split: option.split) (metis os.select_convs(1) os.surjective os.update_convs(2) sys_drop_fault)

lemma later_set_sys [later_intros]: "(\<And>o1. clock o1 \<le> clock (f o1)) \<Longrightarrow> later (modify (set_sys f))"
  by (simp add: later_def set_sys_def)

lemma later_os [later_intros]:
  "later now" "later (sleep d)" "later (spawn_task t)" "later (kill c)" "later (kill_opt co)"
  "later (ws_send e)" "later (sql_read g)" "later (sql_exec h)" "later (write_file p content)"
  "later (create_dir_all p)"
  unfolding now_def sleep_def spawn_task_def kill_def kill_opt_def ws_send_def sql_read_def
    sql_exec_def write_file_def create_dir_all_def
  by (intro later_intros; simp)+

lemma later_sql_count [later_intros]: "later (sql_count n h)"
  unfolding sql_count_def by (rule later_fallible) (simp add: later_def)

lemma later_sql_try [later_intros]: "later (sql_try h)"
  unfolding sql_try_def by (rule later_fallible) (simp add: later_def split: option.split)

lemma later_spawn_child [later_intros]: "later (spawn_child prg as)"
  unfolding spawn_child_def by (rule later_fallible) (simp add: later_def Let_def set_sys_def)

lemma later_fresh_uuid [later_intros]: "later (fresh_uuid L)"
  by (simp add: later_def fresh_uuid_def set_sys_def)

lemma later_relay [later_intros]: "later (get_or_create_media_relay i)"
  by (simp add: later_def get_or_create_media_relay_def split: option.split)

lemma later_settings [later_intros]:
  "later (read_setting k)" "later (load_setting dec dflt k)" "later (load_output_config L)"
  unfolding read_setting_def load_setting_def load_output_config_def by (intro later_intros)+

section \<open>The relay registry and its contract\<close>

text \<open>Each reader publishes to the relay it got when it started, the router and
  the supervisor look it up again under the source: both rely on a relay
  staying the same until it is removed and on distinct sources not sharing
  one.\<close>

locale relay_registry =
  fixes create :: "uuid \<Rightarrow> 's \<Rightarrow> nat \<times> 's"
    and lookup :: "uuid \<Rightarrow> 's \<Rightarrow> nat option"
    and remove :: "uuid \<Rightarrow> 's \<Rightarrow> 's"
    and wf :: "'s \<Rightarrow> bool"
  assumes create_lookup: "create i s = (ch, t) \<Longrightarrow> lookup i t = Some ch"
    and create_other: "create i s = (ch, t) \<Longrightarrow> j \<noteq> i \<Longrightarrow> lookup j t = lookup j s"
    and create_known: "lookup i s = Some ch \<Longrightarrow> create i s = (ch, s)"
    and create_wf: "wf s \<Longrightarrow> create i s = (ch, t) \<Longrightarrow> wf t"
    and wf_distinct: "wf s \<Longrightarrow> lookup i s = Some ch \<Longrightarrow> lookup j s = Some ch \<Longrightarrow> i = j"
    and remove_lookup: "lookup j (remove i s) = (if j = i then None else lookup j s)"
    and remove_wf: "wf s \<Longrightarrow> wf (remove i s)"
begin

lemma create_twice: "create i s = (ch, t) \<Longrightarrow> create i t = (ch, t)"
  using create_lookup create_known by blast

lemma create_not_shared:
  assumes "wf s" "create i s = (ch, t)" "j \<noteq> i"
  shows "lookup j s \<noteq> Some ch"
  using assms create_lookup create_other create_wf wf_distinct by metis

lemma recreated_is_fresh:
  assumes "wf s" "j \<noteq> i" "lookup j s = Some ch"
  shows "\<exists>ch' t. create i (remove i s) = (ch', t) \<and> ch' \<noteq> ch"
  using assms by (metis create_not_shared remove_lookup remove_wf surj_pair)

end

definition relays_wf :: "app \<Rightarrow> bool" where
  "relays_wf s \<longleftrightarrow> inj_on (media_relays s) (dom (media_relays s)) \<and>
     (\<forall>ch \<in> ran (media_relays s). ch < next_chan s)"

definition create_relay :: "uuid \<Rightarrow> app \<Rightarrow> nat \<times> app" where
  "create_relay i s = (case get_or_create_media_relay i s of
     (Inr ch, t) \<Rightarrow> (ch, t) | (Inl (), t) \<Rightarrow> (0, t))"

lemma relays_wf_create:
  "relays_wf s \<Longrightarrow> create_relay i s = (ch, t) \<Longrightarrow> relays_wf t"
  by (force simp: relays_wf_def create_relay_def get_or_create_media_relay_def inj_on_def ran_def
      dom_def split: option.splits if_splits)

interpretation relays: relay_registry create_relay get_media_relay remove_media_relay relays_wf
proof unfold_locales
  fix s i j ch
  assume "relays_wf s" "get_media_relay i s = Some ch" "get_media_relay j s = Some ch"
  then show "i = j"
    unfolding relays_wf_def get_media_relay_def inj_on_def by (metis domI)
next
  fix s i ch t
  assume "relays_wf s" "create_relay i s = (ch, t)"
  then show "relays_wf t" by (rule relays_wf_create)
next
  fix s i
  assume "relays_wf s"
  then show "relays_wf (remove_media_relay i s)"
    by (force simp: relays_wf_def remove_media_relay_def inj_on_def ran_def dom_def split: if_splits)
qed (auto simp: create_relay_def get_or_create_media_relay_def get_media_relay_def
    remove_media_relay_def split: option.splits)

end
