(* ===== verification/Sample.thy ===== *)
theory Sample
  imports AppState "HOL-Library.List_Lexorder" "HOL-Library.Char_ord"
begin

text \<open>
  The state the server starts in (\<open>main.rs\<close>), and a concrete instance of the
  parameters: \<open>sample_lib\<close> implements every third-party function by something
  simple that has the documented behaviour the theorems ask for, so that the
  witnesses can evaluate the definitions.
\<close>

section \<open>The initial state\<close>

definition new_watch :: "'a \<Rightarrow> 'a watch" where
  "new_watch v = \<lparr>cur = v, version = 0\<rparr>"

text \<open>\<open>EgressManager::new\<close>.\<close>

definition egress_new :: egress_manager where
  "egress_new = \<lparr>processes = [], bytes_sent = 0, egress_started_at = None, restart_params = None\<rparr>"

text \<open>The \<open>AppState\<close> of \<open>main\<close>: every registry empty, the stub pipeline idle,
  the audio routing saved by an earlier run, the hash of the portal token.\<close>

definition initial_state ::
    "config \<Rightarrow> db \<Rightarrow> audio_routing \<Rightarrow> string option \<Rightarrow> os \<Rightarrow> app" where
  "initial_state c d saved_audio_routing token o1 =
    \<lparr>pipe_state = PIdle,
     rec_state = \<lparr>recording = False, rec_path = None, rec_started_at = None\<rparr>,
     cfg = c, db = d, ws_log = [],
     source_states = (\<lambda>_. None), media_relays = (\<lambda>_. None), sent = (\<lambda>_. []), next_chan = 0,
     sequence_headers = (\<lambda>_. None), source_media_info = (\<lambda>_. None),
     media_players = (\<lambda>_. None), source_normalizers = (\<lambda>_. None), srt_listeners = (\<lambda>_. None),
     guest_peers = (\<lambda>_. None), whip_sessions = (\<lambda>_. None), scene_compositors = (\<lambda>_. None),
     browser_sources = (\<lambda>_. None), egress = egress_new, hls = None, program_tx = [],
     program_source = new_watch None, program_intent = new_watch None,
     failover_active = new_watch False, active_schedule = new_watch None,
     schedule_nudge = new_watch 0, preview_source = None,
     routing = new_watch saved_audio_routing, system_token = token, sys = o1\<rparr>"

section \<open>A sample instance\<close>

definition empty_db :: db where
  "empty_db =
    \<lparr>sources = [], scenes = [], layers = [], stingers = [], destinations = [], api_keys = [],
     settings = (\<lambda>_. None), guests = [], users = [], sessions = [], assets = [], folders = [],
     channel = None, schedules = [], schedule_items = [], schedule_runs = []\<rparr>"

definition idle_os :: os where
  "idle_os =
    \<lparr>clock = 0, faults = [], files = (\<lambda>_. None), running = [], next_pid = 1, next_port = 40000,
     uuids = 0, rands = 0, tasks = [], exe_exists = (\<lambda>_. False), canonical = Some, environ = (\<lambda>_. None),
     next_peer = 1, peers = (\<lambda>_. None), modified = (\<lambda>_. None)\<rparr>"

definition sample_state :: app where
  "sample_state = initial_state (config_from_env (\<lambda>_. None)) empty_db default_audio_routing None idle_os"

text \<open>The JSON of the sample instance keeps the order and quoting of serde for
  the two kinds the statements of the program search in the text.\<close>

definition sample_kind_to_json :: "source_kind \<Rightarrow> string" where
  "sample_kind_to_json k = (case k of
      Rtmp key \<Rightarrow> ''{\"type\":\"rtmp\",\"stream_key\":\"'' @ key @ ''\"}''
    | Srt port _ \<Rightarrow> ''{\"type\":\"srt\",\"port\":'' @ show_word port @ ''}''
    | WebRtc token \<Rightarrow> ''webrtc:'' @ token
    | TestPattern \<Rightarrow> ''test''
    | MediaFile a p m \<Rightarrow> ''file:'' @ p
    | Browser u \<Rightarrow> ''browser:'' @ u)"

definition sample_kind_of_json :: "string \<Rightarrow> source_kind option" where
  "sample_kind_of_json j =
    (if take 31 j = ''{\"type\":\"rtmp\",\"stream_key\":\"'' then Some (Rtmp (butlast (butlast (drop 31 j))))
     else if take 21 j = ''{\"type\":\"srt\",\"port\":'' then map_option (\<lambda>p. Srt p None) (parse_u16 (butlast (drop 21 j)))
     else if take 7 j = ''webrtc:'' then Some (WebRtc (drop 7 j))
     else if j = ''test'' then Some TestPattern
     else if take 5 j = ''file:'' then Some (MediaFile 0 (drop 5 j) ''loop'')
     else if take 8 j = ''browser:'' then Some (Browser (drop 8 j))
     else None)"

definition sample_dest_of_json :: "string \<Rightarrow> destination_kind option" where
  "sample_dest_of_json j =
    (if take 5 j = ''rtmp:'' then Some (DRtmp (drop 5 j) ''key'')
     else if take 4 j = ''srt:'' then Some (DSrt (drop 4 j)) else None)"

text \<open>Lists of texts: each character after a dot, each text ended by a semicolon.\<close>

definition sample_text :: "string \<Rightarrow> string" where
  "sample_text t = concat (map (\<lambda>c. [CHR ''.'', c]) t) @ '';''"

fun sample_texts :: "string \<Rightarrow> string \<Rightarrow> string list option" where
  "sample_texts acc [] = (if acc = [] then Some [] else None)"
| "sample_texts acc (m # cs) =
    (if m = CHR '';'' then map_option ((#) acc) (sample_texts [] cs)
     else case cs of [] \<Rightarrow> None | c # ds \<Rightarrow> sample_texts (acc @ [c]) ds)"

definition sample_lib :: lib where
  "sample_lib =
    \<lparr>parse_uuid = (\<lambda>t. map_option of_nat (parse_unsigned (2 ^ 128) t)),
     show_uuid = show_word,
     new_v4 = (\<lambda>n. of_nat (1000 + n)),
     rand_index = (\<lambda>n. n),
     kind_to_json = sample_kind_to_json,
     kind_of_json = sample_kind_of_json,
     dest_to_json = (\<lambda>k. case k of DRtmp u _ \<Rightarrow> ''rtmp:'' @ u | _ \<Rightarrow> ''srt:''),
     dest_of_json = sample_dest_of_json,
     output_to_json = (\<lambda>c. show_word (width c)),
     output_of_json = (\<lambda>j. map_option (\<lambda>n. default_output_config\<lparr>width := of_nat n\<rparr>)
                                        (parse_unsigned 10000 j)),
     failover_to_json = (\<lambda>c. if fo_enabled c then ''on'' else ''off''),
     failover_of_json = (\<lambda>j. if j = ''off'' then Some default_failover_config
        else if j = ''on'' then Some (default_failover_config\<lparr>fo_enabled := True,
                                       fallback_source_id := Some 2\<rparr>) else None),
     routing_to_json = (\<lambda>_. ''routing''),
     routing_of_json = (\<lambda>j. if j = ''routing'' then Some default_audio_routing else None),
     broadcast_to_json = (\<lambda>_. ''broadcast''),
     broadcast_of_json = (\<lambda>j. if j = ''broadcast'' then Some default_broadcast_config else None),
     strings_to_json = concat \<circ> map sample_text,
     strings_of_json = sample_texts [],
     scopes_to_json = (\<lambda>ss. if ScopeAdmin \<in> set ss then ''admin'' else ''read''),
     scopes_of_json = (\<lambda>j. if j = ''admin'' then Some [ScopeAdmin] else Some [ScopeRead]),
     audio_to_json = (\<lambda>a. case a of Silent \<Rightarrow> ''silent'' | Overlay \<Rightarrow> ''overlay'' | _ \<Rightarrow> ''replace''),
     audio_of_json = (\<lambda>j. if j = ''silent'' then Some Silent else None),
     sha256_hex = (\<lambda>t. ''sha256:'' @ t),
     bcrypt_hash = (\<lambda>salt p. ''bcrypt:'' @ p),
     bcrypt_verify = (\<lambda>p h. Some (h = ''bcrypt:'' @ p)),
     rfc3339 = (\<lambda>t. replicate t CHR ''I''),
     parse_rfc3339 = (\<lambda>t. Some (length t)),
     webrtc_to_json = (\<lambda>_. ''webrtc''),
     webrtc_of_json = (\<lambda>j. if j = ''webrtc'' then Some [] else None),
     file_stamp = show_nat,
     sql_datetime = (\<lambda>t. replicate (t div 1000000000) CHR ''I''),
     parse_naive = (\<lambda>fmt t. if t = [] then None else Some (length t)),
     known_tz = (\<lambda>z. z = ''UTC''),
     local_to_utc = (\<lambda>tz t. Some t),
     cron_valid = (\<lambda>expr. expr \<noteq> []),
     cron_next = (\<lambda>expr tz t. if t + 60 < 10 ^ 20 then Some (t + 60) else None),
     f32_to_3dp = (\<lambda>_. ''0.500''),
     f32_below_0999 = (\<lambda>x. x = 0),
     json_of_text = (\<lambda>t. if t = ''null'' then Some JNull else Some (JStr t)),
     json_to_text = (\<lambda>v. case v of JStr t \<Rightarrow> t | _ \<Rightarrow> ''null''),
     f64_parse = (\<lambda>t. map_option of_nat (parse_unsigned (2 ^ 64) t)),
     f64_millis = (\<lambda>x. x * 1000),
     f64_div = (\<lambda>x y. x div y),
     f64_positive = (\<lambda>x. 0 < x),
     ice_error = (\<lambda>_. None),
     sdp_answer = (\<lambda>offer. ''answer to '' @ offer)\<rparr>"

section \<open>What the sample instance promises\<close>

lemma sample_texts_text:
  "sample_texts acc (concat (map (\<lambda>c. [CHR ''.'', c]) t) @ CHR '';'' # r) = map_option ((#) (acc @ t)) (sample_texts [] r)"
  by (induction t arbitrary: acc) auto

lemma sample_strings: "strings_of_json sample_lib (strings_to_json sample_lib ts) = Some ts"
  by (induction ts) (simp_all add: sample_lib_def sample_text_def sample_texts_text)

lemma sample_show_uuid: "show_uuid sample_lib i = show_nat (unat i)"
  by (simp add: sample_lib_def show_word_def)

lemma sample_uuid: "parse_uuid sample_lib (show_uuid sample_lib i) = Some i"
proof -
  have "unat i < 2 ^ 128" using unsigned_less [where 'a = nat, of i] by simp
  then have "parse_unsigned (2 ^ 128) (show_nat (unat i)) = Some (unat i)" by (rule parse_show_nat)
  then show ?thesis by (simp add: sample_lib_def show_word_def)
qed

lemma sample_ids:
  "show_uuid sample_lib 1 = ''1''" "show_uuid sample_lib 9 = ''9''" "show_uuid sample_lib 8 = ''8''"
  "parse_uuid sample_lib ''1'' = Some 1" "parse_uuid sample_lib ''9'' = Some 9" "parse_uuid sample_lib ''8'' = Some 8"
proof -
  have "show_nat 1 = ''1''" "show_nat 9 = ''9''" "show_nat 8 = ''8''"
    by code_simp+
  then show "show_uuid sample_lib 1 = ''1''" "show_uuid sample_lib 9 = ''9''" "show_uuid sample_lib 8 = ''8''"
    by (simp_all add: sample_show_uuid)
  then show "parse_uuid sample_lib ''1'' = Some 1" "parse_uuid sample_lib ''9'' = Some 9" "parse_uuid sample_lib ''8'' = Some 8"
    by (metis sample_uuid)+
qed

lemma replicate_less: "t < u \<Longrightarrow> replicate t c < (replicate u c :: string)"
proof (induction t arbitrary: u)
  case (Suc t)
  then obtain u' where "u = Suc u'" "t < u'" by (cases u) auto
  then show ?case using Suc.IH by simp
qed (auto simp: gr0_conv_Suc)

end
