(* ===== verification/Flv.thy ===== *)
theory Flv
  imports Sample
begin

text \<open>
  FLV tags. First \<open>rtmp/flv.rs\<close>: the file header, building a tag from a
  payload and a timestamp, reading and rewriting the timestamp of a finished
  tag. Then the loop every ingest shares to read an encoder's FLV output: take
  the 13 byte header, then tag after tag, cache the codec headers and the last
  keyframe of the source, publish the tag to the source's relay. The loop is
  written out in six modules; their own entry and exit actions are modelled
  with the module, over the loop defined here.
\<close>

section \<open>rtmp/flv.rs\<close>

definition FLV_TAG_AUDIO :: byte where "FLV_TAG_AUDIO = 8"
definition FLV_TAG_VIDEO :: byte where "FLV_TAG_VIDEO = 9"

definition put_u32 :: "u32 \<Rightarrow> bytes" where
  "put_u32 w = [ucast (drop_bit 24 w), ucast (drop_bit 16 w), ucast (drop_bit 8 w), ucast w]"

definition flv_header :: bytes where
  "flv_header = [0x46, 0x4C, 0x56] @ [1] @ [0x05] @ put_u32 9 @ put_u32 0"

definition flv_tag :: "byte \<Rightarrow> bytes \<Rightarrow> u32 \<Rightarrow> bytes" where
  "flv_tag tag_type data timestamp_ms =
    (let data_size = (of_nat (length data) :: u32);
         total_tag_size = 11 + data_size
     in [tag_type,
         ucast (drop_bit 16 data_size), ucast (drop_bit 8 data_size), ucast data_size,
         ucast (drop_bit 16 timestamp_ms), ucast (drop_bit 8 timestamp_ms), ucast timestamp_ms,
         ucast (drop_bit 24 timestamp_ms),
         0, 0, 0] @ data @ put_u32 total_tag_size)"

definition flv_audio_tag :: "bytes \<Rightarrow> u32 \<Rightarrow> bytes" where
  "flv_audio_tag data ts = flv_tag FLV_TAG_AUDIO data ts"

definition flv_video_tag :: "bytes \<Rightarrow> u32 \<Rightarrow> bytes" where
  "flv_video_tag data ts = flv_tag FLV_TAG_VIDEO data ts"

definition read_tag_timestamp :: "bytes \<Rightarrow> u32 option" where
  "read_tag_timestamp tag =
    (if length tag < 8 then None
     else let lower = (push_bit 16 (ucast (tag ! 4)) OR push_bit 8 (ucast (tag ! 5))
                       OR ucast (tag ! 6) :: u32);
              upper = (push_bit 24 (ucast (tag ! 7)) :: u32)
          in Some (upper OR lower))"

definition rewrite_tag_timestamp :: "bytes \<Rightarrow> u32 \<Rightarrow> bytes" where
  "rewrite_tag_timestamp tag new_ts =
    (if length tag \<ge> 8
     then tag[4 := ucast (drop_bit 16 new_ts),
              5 := ucast (drop_bit 8 new_ts),
              6 := ucast new_ts,
              7 := ucast (drop_bit 24 new_ts)]
     else tag)"

section \<open>Reading the output of an encoder\<close>

text \<open>\<open>read_exact\<close> on a pipe that holds these bytes and then ends.\<close>

definition read_exact :: "nat \<Rightarrow> bytes \<Rightarrow> (bytes \<times> bytes) option" where
  "read_exact n s = (if length s < n then None else Some (take n s, drop n s))"

definition data_size :: "bytes \<Rightarrow> u32" where
  "data_size h = push_bit 16 (ucast (h ! 1)) OR push_bit 8 (ucast (h ! 2)) OR ucast (h ! 3)"

text \<open>One round of the loop: the type, the payload and the whole tag.\<close>

definition next_tag :: "bytes \<Rightarrow> ((byte \<times> bytes \<times> bytes) \<times> bytes) option" where
  "next_tag s = (case read_exact 11 s of None \<Rightarrow> None | Some (tag_header, s1) \<Rightarrow>
     (case read_exact (unat (data_size tag_header)) s1 of None \<Rightarrow> None | Some (data, s2) \<Rightarrow>
     (case read_exact 4 s2 of None \<Rightarrow> None | Some (prev_size, s3) \<Rightarrow>
       Some ((tag_header ! 0, data, tag_header @ data @ prev_size), s3))))"

lemma next_tag_shorter: "next_tag s = Some (t, r) \<Longrightarrow> length r < length s"
  by (clarsimp simp: next_tag_def read_exact_def split: option.splits if_splits)
     (rule diff_less, auto)

function read_tags :: "bytes \<Rightarrow> (byte \<times> bytes \<times> bytes) list" where
  "read_tags s = (case next_tag s of None \<Rightarrow> [] | Some (t, r) \<Rightarrow> t # read_tags r)"
  by pat_completeness auto
termination
  by (relation "measure length") (auto dest: next_tag_shorter)

declare read_tags.simps [simp del]

text \<open>The second payload byte tells a codec header (0) from a frame; a payload
  of one byte counts as 255. A keyframe is kept only once the source has an
  entry, which its first codec header creates.\<close>

definition packet_type :: "bytes \<Rightarrow> byte" where
  "packet_type data = (if length data > 1 then data ! 1 else 255)"

definition cache_tag :: "uuid \<Rightarrow> byte \<times> bytes \<times> bytes \<Rightarrow> app \<Rightarrow> app" where
  "cache_tag i t s = (case t of (tag_type, data, tag) \<Rightarrow>
     (if tag_type = 9 \<and> data \<noteq> [] then
        (let frame_type = drop_bit 4 (data ! 0) AND 0x0F;
             entry = (case sequence_headers s i of None \<Rightarrow> default_seq_headers | Some e \<Rightarrow> e)
         in if packet_type data = 0
            then s\<lparr>sequence_headers := (sequence_headers s)(i \<mapsto> entry\<lparr>video := Some tag\<rparr>)\<rparr>
            else if frame_type = 1
            then (case sequence_headers s i of
                None \<Rightarrow> s
              | Some e \<Rightarrow>
                  s\<lparr>sequence_headers := (sequence_headers s)(i \<mapsto> e\<lparr>last_keyframe := Some tag\<rparr>)\<rparr>)
            else s)
      else if tag_type = 8 \<and> data \<noteq> [] then
        (let entry = (case sequence_headers s i of None \<Rightarrow> default_seq_headers | Some e \<Rightarrow> e)
         in if packet_type data = 0
            then s\<lparr>sequence_headers := (sequence_headers s)(i \<mapsto> entry\<lparr>audio := Some tag\<rparr>)\<rparr>
            else s)
      else s))"

text \<open>One round: cache, on the first round the module's own action, publish.\<close>

definition publish_tag ::
    "(app \<Rightarrow> app) \<Rightarrow> bool \<Rightarrow> uuid \<Rightarrow> nat \<Rightarrow> byte \<times> bytes \<times> bytes \<Rightarrow> app \<Rightarrow> app" where
  "publish_tag on_first first i ch t s =
    relay_send ch (snd (snd t)) ((if first then on_first else id) (cache_tag i t s))"

fun publish_tags ::
    "(app \<Rightarrow> app) \<Rightarrow> nat \<Rightarrow> uuid \<Rightarrow> nat \<Rightarrow> (byte \<times> bytes \<times> bytes) list \<Rightarrow> app \<Rightarrow> app" where
  "publish_tags on_first frame_count i ch [] s = s"
| "publish_tags on_first frame_count i ch (t # ts) s =
    publish_tags on_first (Suc frame_count) i ch ts
      (publish_tag on_first (frame_count = 0) i ch t s)"

text \<open>The reader: nothing when the file header does not arrive (the early
  return, which also skips the exit action), else the tags and the exit.\<close>

definition read_flv ::
    "(app \<Rightarrow> app) \<Rightarrow> (app \<Rightarrow> app) \<Rightarrow> uuid \<Rightarrow> nat \<Rightarrow> bytes \<Rightarrow> app \<Rightarrow> app" where
  "read_flv on_first on_end i ch stdout s = (case read_exact 13 stdout of
      None \<Rightarrow> s
    | Some (_, rest) \<Rightarrow> on_end (publish_tags on_first 0 i ch (read_tags rest) s))"

section \<open>The contract of the timestamp field\<close>

text \<open>What the router relies on when it restamps tags: a tag that has a
  timestamp still has one after the rewrite, namely the new one; the rewrite
  changes neither the length nor any byte outside the field; and the last
  rewrite wins.\<close>

locale tag_clock =
  fixes get_ts :: "bytes \<Rightarrow> u32 option"
    and set_ts :: "bytes \<Rightarrow> u32 \<Rightarrow> bytes"
    and in_field :: "nat \<Rightarrow> bool"
  assumes get_set: "get_ts t \<noteq> None \<Longrightarrow> get_ts (set_ts t v) = Some v"
    and set_none: "get_ts t = None \<Longrightarrow> set_ts t v = t"
    and set_length: "length (set_ts t v) = length t"
    and set_other: "\<not> in_field n \<Longrightarrow> set_ts t v ! n = t ! n"
    and set_set: "set_ts (set_ts t v) w = set_ts t w"
begin

lemma get_after_set: "get_ts (set_ts t v) = map_option (\<lambda>_. v) (get_ts t)"
  by (cases "get_ts t") (use get_set set_none in fastforce)+

text \<open>Restamping relative to a base keeps every distance, also across the
  wrap-around of the 32 bit counter.\<close>

lemma restamp_distance:
  assumes "get_ts a = Some ta" "get_ts b = Some tb"
    and "get_ts (set_ts a (base + (ta - first))) = Some va"
    and "get_ts (set_ts b (base + (tb - first))) = Some vb"
  shows "vb - va = tb - ta"
proof -
  have "va = base + (ta - first)" "vb = base + (tb - first)"
    using assms get_set by (metis option.distinct(1) option.inject)+
  then show ?thesis by simp
qed

lemma restamp_first:
  assumes "get_ts a = Some ta"
  shows "get_ts (set_ts a (base + (ta - ta))) = Some base"
  using get_set [of a] assms by simp

end

lemma rewrite_length [simp]: "length (rewrite_tag_timestamp t v) = length t"
  by (simp add: rewrite_tag_timestamp_def)

lemma rewrite_other:
  "n < 4 \<or> 7 < n \<Longrightarrow> rewrite_tag_timestamp t v ! n = t ! n"
  by (auto simp: rewrite_tag_timestamp_def)

lemma word_of_four_bytes:
  "(push_bit 24 (ucast (ucast (drop_bit 24 w) :: byte)) OR
   (push_bit 16 (ucast (ucast (drop_bit 16 w) :: byte)) OR
    push_bit 8 (ucast (ucast (drop_bit 8 w) :: byte)) OR ucast (ucast w :: byte))) = (w :: u32)"
  (is "?l = w")
proof (rule bit_word_eqI)
  fix n assume n: "n < LENGTH(32)"
  consider "n < 8" | "8 \<le> n" "n < 16" | "16 \<le> n" "n < 24" | "24 \<le> n" by linarith
  then show "bit ?l n = bit w n"
    using n by cases (auto simp: bit_simps)
qed

lemma read_rewrite:
  "length t \<ge> 8 \<Longrightarrow> read_tag_timestamp (rewrite_tag_timestamp t v) = Some v"
  by (simp add: read_tag_timestamp_def rewrite_tag_timestamp_def Let_def word_of_four_bytes)

lemma rewrite_rewrite:
  "rewrite_tag_timestamp (rewrite_tag_timestamp t v) w = rewrite_tag_timestamp t w"
  by (rule nth_equalityI)
     (auto simp: rewrite_tag_timestamp_def nth_list_update)

interpretation flv_clock: tag_clock read_tag_timestamp rewrite_tag_timestamp "\<lambda>n. 4 \<le> n \<and> n \<le> 7"
proof unfold_locales
  fix t v assume "read_tag_timestamp t \<noteq> None"
  then show "read_tag_timestamp (rewrite_tag_timestamp t v) = Some v"
    by (intro read_rewrite) (auto simp: read_tag_timestamp_def split: if_splits)
next
  fix t v assume "read_tag_timestamp t = None"
  then show "rewrite_tag_timestamp t v = t"
    by (auto simp: read_tag_timestamp_def rewrite_tag_timestamp_def Let_def split: if_splits)
next
  fix n :: nat and t v assume "\<not> (4 \<le> n \<and> n \<le> 7)"
  then show "rewrite_tag_timestamp t v ! n = t ! n"
    by (intro rewrite_other) auto
qed (simp_all add: rewrite_rewrite)


section \<open>Tags that were built are the tags that are read\<close>

lemma unat_24_bits:
  assumes "n < 2 ^ 24"
  shows "unat (push_bit 16 (ucast (ucast (drop_bit 16 (of_nat n :: u32)) :: byte)) OR
      push_bit 8 (ucast (ucast (drop_bit 8 (of_nat n :: u32)) :: byte)) OR
      ucast (ucast (of_nat n :: u32) :: byte) :: u32) = n"
proof -
  let ?w = "of_nat n :: u32"
  have "\<not> bit ?w k" if "24 \<le> k" for k
  proof -
    have "take_bit 24 n = n" using assms by (simp add: take_bit_nat_eq_self)
    then have "\<not> bit n k" using that by (metis bit_take_bit_iff not_le)
    then show ?thesis by (simp add: bit_simps)
  qed
  then have "(push_bit 24 (ucast (ucast (drop_bit 24 ?w) :: byte)) :: u32) = 0"
    by (intro bit_word_eqI) (auto simp: bit_simps)
  then have "(push_bit 16 (ucast (ucast (drop_bit 16 ?w) :: byte)) OR
      push_bit 8 (ucast (ucast (drop_bit 8 ?w) :: byte)) OR ucast (ucast ?w :: byte) :: u32) = ?w"
    using word_of_four_bytes [of ?w] by (simp add: ac_simps)
  then show ?thesis using assms by (simp add: unat_of_nat_small)
qed

lemma length_put_u32 [simp]: "length (put_u32 w) = 4"
  by (simp add: put_u32_def)

lemma length_flv_tag [simp]: "length (flv_tag tt d ts) = 15 + length d"
  by (simp add: flv_tag_def Let_def)

lemma length_flv_header [simp]: "length flv_header = 13"
  by (simp add: flv_header_def)

lemma next_tag_flv_tag:
  assumes "length d < 2 ^ 24"
  shows "next_tag (flv_tag tt d ts @ r) = Some ((tt, d, flv_tag tt d ts), r)"
proof -
  let ?n = "of_nat (length d) :: u32"
  define h where "h = [tt, ucast (drop_bit 16 ?n), ucast (drop_bit 8 ?n), ucast ?n,
         ucast (drop_bit 16 ts), ucast (drop_bit 8 ts), ucast ts, ucast (drop_bit 24 ts), 0, 0, 0 :: byte]"
  have tag: "flv_tag tt d ts = h @ d @ put_u32 (11 + ?n)"
    by (simp add: flv_tag_def h_def Let_def)
  have h: "length h = 11" "h ! 0 = tt" "unat (data_size h) = length d"
    using unat_24_bits [OF assms] by (simp_all add: h_def data_size_def)
  then show ?thesis
    by (simp add: next_tag_def read_exact_def tag)
qed

lemma read_tags_built:
  assumes "\<forall>(tt, d, ts) \<in> set fs. length d < 2 ^ 24" and "next_tag partial = None"
  shows "read_tags (concat (map (\<lambda>(tt, d, ts). flv_tag tt d ts) fs) @ partial) =
    map (\<lambda>(tt, d, ts). (tt, d, flv_tag tt d ts)) fs"
  using assms
proof (induction fs)
  case Nil
  then show ?case by (simp add: read_tags.simps [of partial])
next
  case (Cons f fs)
  obtain tt d ts where f: "f = (tt, d, ts)" by (cases f)
  then show ?case
    using Cons by (simp add: read_tags.simps [of "flv_tag tt d ts @ _"] next_tag_flv_tag)
qed

lemma read_timestamp_flv_tag: "read_tag_timestamp (flv_tag tt d ts) = Some ts"
  using word_of_four_bytes [of ts]
  by (simp add: read_tag_timestamp_def flv_tag_def Let_def nth_Cons' numeral_eq_Suc ac_simps)

section \<open>Nothing is invented, nothing before the end is lost\<close>

lemma next_tag_split: "next_tag s = Some ((tt, d, tag), r) \<Longrightarrow> s = tag @ r"
  by (auto simp: next_tag_def read_exact_def simp del: drop_drop split: option.splits if_splits)

lemma read_tags_prefix:
  "\<exists>r. s = concat (map (\<lambda>t. snd (snd t)) (read_tags s)) @ r \<and> next_tag r = None"
proof (induction s rule: read_tags.induct)
  case (1 s)
  show ?case
  proof (cases "next_tag s")
    case None
    then show ?thesis by (simp add: read_tags.simps [of s])
  next
    case (Some p)
    obtain tt d tag r where p: "p = ((tt, d, tag), r)" by (metis prod.exhaust)
    from "1.IH" [OF Some p [symmetric]] obtain r' where
      r': "concat (map (\<lambda>t. snd (snd t)) (read_tags r)) @ r' = r" "next_tag r' = None" by metis
    have tags: "read_tags s = (tt, d, tag) # read_tags r"
      using Some p by (simp add: read_tags.simps [of s])
    have "tag @ r = concat (map (\<lambda>t. snd (snd t)) (read_tags s)) @ r'"
      using r'(1) by (simp add: tags)
    moreover have "s = tag @ r" using Some p next_tag_split by simp
    ultimately have "s = concat (map (\<lambda>t. snd (snd t)) (read_tags s)) @ r'" by simp
    then show ?thesis using r'(2) by blast
  qed
qed

section \<open>What a reader changes\<close>

lemma cache_tag_frame:
  "cache_tag i t s = s\<lparr>sequence_headers := sequence_headers (cache_tag i t s)\<rparr>"
  by (simp add: cache_tag_def Let_def split: prod.split option.split)

lemma cache_tag_other: "j \<noteq> i \<Longrightarrow> sequence_headers (cache_tag i t s) j = sequence_headers s j"
  by (simp add: cache_tag_def Let_def split: prod.split option.split)

lemma sent_cache_tag [simp]: "sent (cache_tag i t s) = sent s"
  by (subst cache_tag_frame) simp

text \<open>\<open>quiet f\<close>: an entry or exit action that publishes nothing and leaves the
  cache alone, as those of all six readers do.\<close>

definition quiet :: "(app \<Rightarrow> app) \<Rightarrow> bool" where
  "quiet f \<longleftrightarrow> (\<forall>s. sent (f s) = sent s \<and> sequence_headers (f s) = sequence_headers s)"

lemma sent_publish_tags:
  assumes "quiet f"
  shows "sent (publish_tags f n i ch ts s) =
    (sent s)(ch := sent s ch @ map (\<lambda>t. snd (snd t)) ts)"
  using assms
  by (induction ts arbitrary: n s) (auto simp: publish_tag_def relay_send_def quiet_def)

lemma sent_read_flv:
  assumes "quiet f" "quiet g"
  shows "sent (read_flv f g i ch out s) ch =
    sent s ch @ (if length out < 13 then [] else map (\<lambda>t. snd (snd t)) (read_tags (drop 13 out)))"
  using assms
  by (auto simp: read_flv_def read_exact_def sent_publish_tags quiet_def split: option.split)

text \<open>The invariant of the cache: every kept tag has the type and the packet
  type it is kept for, so the router may send it as it is.\<close>

definition tag_of :: "byte \<Rightarrow> bytes \<Rightarrow> bool" where
  "tag_of tt t \<longleftrightarrow> length t \<ge> 16 \<and> t ! 0 = tt"

definition entry_ok :: "seq_headers \<Rightarrow> bool" where
  "entry_ok e \<longleftrightarrow>
    (\<forall>t. video e = Some t \<longrightarrow> tag_of 9 t \<and> length t \<ge> 17 \<and> t ! 12 = 0) \<and>
    (\<forall>t. audio e = Some t \<longrightarrow> tag_of 8 t \<and> length t \<ge> 17 \<and> t ! 12 = 0) \<and>
    (\<forall>t. last_keyframe e = Some t \<longrightarrow> tag_of 9 t \<and> t ! 11 AND 0xF0 = 0x10 \<and>
       (length t \<ge> 17 \<longrightarrow> t ! 12 \<noteq> 0))"

definition headers_ok :: "app \<Rightarrow> bool" where
  "headers_ok s \<longleftrightarrow> (\<forall>i e. sequence_headers s i = Some e \<longrightarrow> entry_ok e)"

lemma entry_ok_default [simp]: "entry_ok default_seq_headers"
  by (simp add: entry_ok_def default_seq_headers_def)

definition real_tag :: "byte \<times> bytes \<times> bytes \<Rightarrow> bool" where
  "real_tag t \<longleftrightarrow> (\<exists>h p. length h = 11 \<and> length p = 4 \<and> fst t = h ! 0 \<and>
     snd (snd t) = h @ fst (snd t) @ p)"

lemma next_tag_real: "next_tag s = Some (t, r) \<Longrightarrow> real_tag t"
  by (clarsimp simp: next_tag_def read_exact_def real_tag_def split: option.splits if_splits)
     (rule exI [of _ "take 11 s"], auto)

lemma read_tags_real: "t \<in> set (read_tags s) \<Longrightarrow> real_tag t"
proof (induction s rule: read_tags.induct)
  case (1 s)
  show ?case
  proof (cases "next_tag s")
    case None
    then show ?thesis using 1 by (simp add: read_tags.simps [of s])
  next
    case (Some p)
    obtain u r where p: "p = (u, r)" by (cases p)
    then show ?thesis
      using "1.prems" "1.IH" [OF Some p [symmetric]] Some next_tag_real [of s u r]
      by (auto simp: read_tags.simps [of s])
  qed
qed

lemma frame_type_mask: "drop_bit 4 (b :: byte) AND 0x0F = 1 \<longleftrightarrow> b AND 0xF0 = 0x10"
proof -
  have mask: "(0x0F :: byte) = mask 4" "(0xF0 :: byte) = push_bit 4 (mask 4)"
    by (simp_all add: mask_eq_exp_minus_1 push_bit_eq_mult)
  have "drop_bit 4 b AND 0x0F = drop_bit 4 b"
    by (rule bit_word_eqI) (auto simp: mask bit_simps dest: bit_imp_le_length)
  moreover have "drop_bit 4 (b AND 0xF0) = drop_bit 4 b"
    by (rule bit_word_eqI) (auto simp: mask bit_simps dest: bit_imp_le_length)
  moreover have "b AND 0xF0 = push_bit 4 (drop_bit 4 b)"
    by (rule bit_word_eqI) (auto simp: mask bit_simps)
  moreover have "push_bit 4 1 = (0x10 :: byte)" "drop_bit 4 (0x10 :: byte) = 1"
    by simp_all
  ultimately show ?thesis by metis
qed

lemma cache_tag_ok:
  assumes "headers_ok s" and "real_tag t"
  shows "headers_ok (cache_tag i t s)"
proof -
  obtain h p d where t: "length h = 11" "length p = 4" "t = (h ! 0, d, h @ d @ p)"
    using assms(2) by (cases t) (auto simp: real_tag_def)
  have entry: "entry_ok (case sequence_headers s i of None \<Rightarrow> default_seq_headers | Some e \<Rightarrow> e)"
    using assms(1) by (auto simp: headers_ok_def split: option.split)
  have long: "packet_type d = 0 \<Longrightarrow> length d > 1 \<and> (h @ d @ p) ! 12 = 0"
    using t(1) by (auto simp: packet_type_def nth_append split: if_splits)
  have short: "packet_type d \<noteq> 0 \<Longrightarrow> length d > 1 \<Longrightarrow> (h @ d @ p) ! 12 \<noteq> 0"
    using t(1) by (auto simp: packet_type_def nth_append)
  have first: "d \<noteq> [] \<Longrightarrow> (h @ d @ p) ! 11 = d ! 0 \<and> (h @ d @ p) ! 0 = h ! 0"
    using t(1) by (auto simp: nth_append)
  have size: "d \<noteq> [] \<Longrightarrow> 1 \<le> length d" by (cases d) auto
  show ?thesis
    using assms(1) entry long short first size t
    unfolding headers_ok_def cache_tag_def
    by (auto simp: Let_def entry_ok_def tag_of_def frame_type_mask split: if_splits option.splits)
qed

lemma publish_tags_ok:
  assumes "quiet f"
  shows "headers_ok s \<Longrightarrow> \<forall>t \<in> set ts. real_tag t \<Longrightarrow> headers_ok (publish_tags f n i ch ts s)"
proof (induction ts arbitrary: n s)
  case (Cons t ts)
  have "headers_ok (publish_tag f (n = 0) i ch t s)"
    using cache_tag_ok [of s t i] Cons.prems assms
    by (simp add: publish_tag_def relay_send_def headers_ok_def quiet_def)
  then show ?case using Cons by simp
qed simp

lemma read_flv_headers_ok:
  assumes "quiet f" "quiet g" "headers_ok s"
  shows "headers_ok (read_flv f g i ch out s)"
proof -
  have "headers_ok (publish_tags f 0 i ch (read_tags r) s)" for r
    using assms publish_tags_ok read_tags_real by blast
  then show ?thesis
    using assms(2,3) by (auto simp: read_flv_def headers_ok_def quiet_def split: option.split)
qed

end
