(* ===== verification/Procs.thy ===== *)
theory Procs
  imports Flv
begin

text \<open>
  The child processes of the ingests and the compositors: the five registries
  of \<open>AppState\<close> that own them, what taking a child out, putting one in and
  dropping one does to the running processes, and the invariant that no
  process runs that no registry owns. The settings that become encoder
  arguments are here as well, since every encoder is started with them.
\<close>

section \<open>Registries\<close>

datatype registry = Players | Normalizers | SrtListeners | Compositors | Browsers

fun reg :: "registry \<Rightarrow> app \<Rightarrow> uuid \<Rightarrow> child option" where
  "reg Players s = media_players s"
| "reg Normalizers s = source_normalizers s"
| "reg SrtListeners s = srt_listeners s"
| "reg Compositors s = scene_compositors s"
| "reg Browsers s = browser_sources s"

fun set_reg :: "registry \<Rightarrow> (uuid \<Rightarrow> child option) \<Rightarrow> app \<Rightarrow> app" where
  "set_reg Players m s = s\<lparr>media_players := m\<rparr>"
| "set_reg Normalizers m s = s\<lparr>source_normalizers := m\<rparr>"
| "set_reg SrtListeners m s = s\<lparr>srt_listeners := m\<rparr>"
| "set_reg Compositors m s = s\<lparr>scene_compositors := m\<rparr>"
| "set_reg Browsers m s = s\<lparr>browser_sources := m\<rparr>"

text \<open>\<open>map.remove(&id)\<close>; \<open>if let Some(mut old) = map.remove(&id) { old.kill() }\<close>,
  which is also what dropping the removed child does; \<open>map.insert(id, child)\<close>,
  whose old value is killed or dropped.\<close>

definition reg_take :: "registry \<Rightarrow> uuid \<Rightarrow> (app, 'e, child option) prog" where
  "reg_take k i = (\<lambda>s. (Inr (reg k s i), set_reg k ((reg k s)(i := None)) s))"

definition reg_stop :: "registry \<Rightarrow> uuid \<Rightarrow> (app, 'e, unit) prog" where
  "reg_stop k i = andThen (reg_take k i) kill_opt"

definition reg_put :: "registry \<Rightarrow> uuid \<Rightarrow> child \<Rightarrow> (app, 'e, unit) prog" where
  "reg_put k i c = andThen (gets (\<lambda>s. reg k s i)) (\<lambda>old.
     then_do (modify (\<lambda>s. set_reg k ((reg k s)(i \<mapsto> c)) s)) (kill_opt old))"

text \<open>The form most starts use: take the old child out and kill it, then insert.\<close>

definition reg_replace :: "registry \<Rightarrow> uuid \<Rightarrow> child \<Rightarrow> (app, 'e, unit) prog" where
  "reg_replace k i c = then_do (reg_stop k i) (modify (\<lambda>s. set_reg k ((reg k s)(i \<mapsto> c)) s))"

section \<open>The contract of a registry\<close>

text \<open>What a start and a stop rely on: an entry is what was put there last, and
  writing one registry changes nothing else.\<close>

locale child_registry =
  fixes get :: "'s \<Rightarrow> uuid \<Rightarrow> child option"
    and put :: "(uuid \<Rightarrow> child option) \<Rightarrow> 's \<Rightarrow> 's"
    and alive :: "'s \<Rightarrow> nat list"
    and set_alive :: "nat list \<Rightarrow> 's \<Rightarrow> 's"
  assumes get_put: "get (put m s) = m"
    and put_put: "put m (put n s) = put m s"
    and alive_put: "alive (put m s) = alive s"
    and get_alive: "get (set_alive ps s) = get s"
    and alive_alive: "alive (set_alive ps s) = ps"
begin

text \<open>Replacing the child of an entry leaves exactly the new child running of
  the two, and no other entry changed.\<close>

lemma replace_entry:
  assumes "get s i = Some old" "pid c \<noteq> pid old" "pid c \<in> set (alive s)"
    and "t = set_alive (removeAll (pid old) (alive s)) (put ((get s)(i \<mapsto> c)) s)"
  shows "get t i = Some c" "pid c \<in> set (alive t)" "pid old \<notin> set (alive t)"
    "j \<noteq> i \<Longrightarrow> get t j = get s j"
  using assms by (simp_all add: get_put get_alive alive_alive alive_put)

text \<open>A process that every entry and only entries own keeps an owner when an
  entry is taken out and its child is ended.\<close>

lemma take_keeps_owners:
  assumes "\<forall>p \<in> set (alive s). (\<exists>j c. get s j = Some c \<and> pid c = p) \<or> other p"
    and "get s i = Some old"
    and "t = set_alive (removeAll (pid old) (alive s)) (put ((get s)(i := None)) s)"
  shows "\<forall>p \<in> set (alive t). (\<exists>j c. get t j = Some c \<and> pid c = p) \<or> other p"
proof
  fix p assume "p \<in> set (alive t)"
  then have "p \<in> set (alive s)" "p \<noteq> pid old" using assms(3) by (auto simp: alive_alive)
  then consider j c where "get s j = Some c" "pid c = p" | "other p" using assms(1) by blast
  then show "(\<exists>j c. get t j = Some c \<and> pid c = p) \<or> other p"
  proof cases
    case (1 j c)
    then have "j \<noteq> i" using \<open>p \<noteq> pid old\<close> assms(2) by auto
    then have "get t j = Some c" using 1 assms(3) by (simp add: get_put get_alive)
    then show ?thesis using 1 by blast
  qed simp
qed

end

definition set_running :: "nat list \<Rightarrow> app \<Rightarrow> app" where
  "set_running ps = set_sys (\<lambda>o1. o1\<lparr>running := ps\<rparr>)"

lemma reg_set_reg: "reg k (set_reg k' m s) = (if k' = k then m else reg k s)"
  by (cases k; cases k') auto

lemma sys_set_reg [simp]: "sys (set_reg k m s) = sys s"
  by (cases k) auto

lemma reg_set_sys [simp]: "reg k (set_sys f s) = reg k s"
  by (cases k) (auto simp: set_sys_def)

lemma reg_drop_fault [simp]: "reg k (drop_fault s) = reg k s"
  by (simp add: drop_fault_def)

interpretation registries: child_registry "reg k" "set_reg k" "\<lambda>s. running (sys s)" set_running for k
proof unfold_locales
  show "set_reg k m (set_reg k n s) = set_reg k m s" for m n s
    by (cases k) auto
qed (simp_all add: reg_set_reg set_running_def, simp_all add: set_sys_def)

section \<open>No orphans\<close>

definition other_owned :: "app \<Rightarrow> nat set" where
  "other_owned s = {pid (ep_child p) | p i. (i, p) \<in> set (processes (egress s))} \<union>
     {pid c | c. hls s = Some c}"

definition owned :: "app \<Rightarrow> nat set" where
  "owned s = {p. \<exists>k i c. reg k s i = Some c \<and> pid c = p} \<union> other_owned s"

lemma ownedI: "reg k s i = Some c \<Longrightarrow> pid c \<in> owned s"
  by (auto simp: owned_def)

lemma ownedE:
  assumes "p \<in> owned s"
  obtains k i c where "reg k s i = Some c" "pid c = p" | "p \<in> other_owned s"
  using assms by (auto simp: owned_def)

text \<open>Every running child is owned by a registry, so a stop or the drop of the
  registry ends it.\<close>

definition no_orphans :: "app \<Rightarrow> bool" where
  "no_orphans s \<longleftrightarrow> set (running (sys s)) \<subseteq> owned s"

text \<open>The handlers own a child between spawning and registering it; \<open>orphans_only\<close>
  says that no other child is without an owner.\<close>

definition orphans_only :: "nat set \<Rightarrow> app \<Rightarrow> bool" where
  "orphans_only P s \<longleftrightarrow> set (running (sys s)) \<subseteq> owned s \<union> P"

lemma no_orphans_only: "no_orphans s \<longleftrightarrow> orphans_only {} s"
  by (simp add: no_orphans_def orphans_only_def)

lemma owned_cong:
  assumes "\<And>k. reg k t = reg k s" "egress t = egress s" "hls t = hls s"
  shows "owned t = owned s"
  using assms by (simp add: owned_def other_owned_def)

lemma orphans_cong:
  assumes "\<And>k. reg k t = reg k s" "egress t = egress s" "hls t = hls s"
    and "set (running (sys t)) \<subseteq> set (running (sys s))" "orphans_only P s"
  shows "orphans_only P t"
  using assms(4,5) owned_cong [OF assms(1-3)] by (auto simp: orphans_only_def)

lemma egress_set_reg [simp]: "egress (set_reg k m s) = egress s" "hls (set_reg k m s) = hls s"
  by (cases k; simp)+

lemma other_owned_set_reg [simp]: "other_owned (set_reg k m s) = other_owned s"
  by (simp add: other_owned_def)

lemma owned_take:
  assumes "p \<in> owned s" "\<And>c. reg k s i = Some c \<Longrightarrow> p \<noteq> pid c"
  shows "p \<in> owned (set_reg k ((reg k s)(i := None)) s)"
  using assms(1)
proof (cases rule: ownedE)
  case (1 k' j c)
  then have "\<not> (k' = k \<and> j = i)" using assms(2) by auto
  then have "reg k' (set_reg k ((reg k s)(i := None)) s) j = Some c"
    using 1 by (auto simp: reg_set_reg)
  then show ?thesis using 1 ownedI by blast
qed (simp add: owned_def)

lemma owned_put:
  assumes "p \<in> owned s \<or> p = pid c" "\<And>o1. reg k s i = Some o1 \<Longrightarrow> p \<noteq> pid o1 \<or> p = pid c"
  shows "p \<in> owned (set_reg k ((reg k s)(i \<mapsto> c)) s)"
proof (cases "p = pid c")
  case True
  have "reg k (set_reg k ((reg k s)(i \<mapsto> c)) s) i = Some c" by (simp add: reg_set_reg)
  then show ?thesis using True ownedI by blast
next
  case False
  then have "p \<in> owned s" using assms(1) by simp
  then show ?thesis
  proof (cases rule: ownedE)
    case (1 k' j d)
    then have "\<not> (k' = k \<and> j = i)" using assms(2) False by auto
    then have "reg k' (set_reg k ((reg k s)(i \<mapsto> c)) s) j = Some d"
      using 1 by (auto simp: reg_set_reg)
    then show ?thesis using 1 ownedI by blast
  qed (simp add: owned_def)
qed

subsection \<open>Preservation, in the form the operations need\<close>

definition proc_view :: "app \<Rightarrow> (registry \<Rightarrow> uuid \<Rightarrow> child option) \<times> egress_manager \<times> child option" where
  "proc_view s = (\<lambda>k. reg k s, egress s, hls s)"

text \<open>An operation that leaves the owners alone and ends processes at most.\<close>

lemma orphans_frame:
  assumes "keeps proc_view m" and "\<And>s. set (running (sys (snd (m s)))) \<subseteq> set (running (sys s))"
  shows "preserves (orphans_only P) m"
proof (rule preservesI)
  fix s assume "orphans_only P s"
  moreover have "proc_view (snd (m s)) = proc_view s" using keepsD [OF assms(1)] .
  ultimately show "orphans_only P (snd (m s))"
    using assms(2) by (intro orphans_cong [of "snd (m s)" s]) (auto simp: proc_view_def dest: fun_cong)
qed

lemma wp_reg_take [wp_simps]:
  "wp (reg_take k i) Q E s = Q (reg k s i) (set_reg k ((reg k s)(i := None)) s)"
  by (simp add: wp_def reg_take_def)

lemma wp_kill [wp_simps]:
  "wp (kill c) Q E s = Q () (set_running (removeAll (pid c) (running (sys s))) s)"
  by (simp add: kill_def wp_basic set_running_def set_sys_def)

lemma wp_kill_opt [wp_simps]:
  "wp (kill_opt co) Q E s = (case co of None \<Rightarrow> Q () s
     | Some c \<Rightarrow> Q () (set_running (removeAll (pid c) (running (sys s))) s))"
  by (simp add: kill_opt_def wp_simps split: option.split)

lemma running_set_running [simp]: "running (sys (set_running ps s)) = ps"
  by (simp add: set_running_def set_sys_def)

lemma owned_set_running [simp]: "owned (set_running ps s) = owned s"
  by (rule owned_cong) (simp_all add: set_running_def, simp_all add: set_sys_def)

lemma orphans_set_running:
  "orphans_only P s \<Longrightarrow> set ps \<subseteq> set (running (sys s)) \<Longrightarrow> orphans_only P (set_running ps s)"
  by (auto simp: orphans_only_def)

lemma preserves_kill [preserves_intros]: "preserves (orphans_only P) (kill c)"
  by (auto simp: preserves_def orphans_only_def kill_def owned_def other_owned_def set_sys_def
      reg_set_sys [unfolded set_sys_def])

lemma snd_reg_stop:
  "snd (reg_stop k i s) = (case reg k s i of None \<Rightarrow> set_reg k ((reg k s)(i := None)) s
    | Some c \<Rightarrow> set_running (removeAll (pid c) (running (sys s))) (set_reg k ((reg k s)(i := None)) s))"
  by (simp add: reg_stop_def reg_take_def andThen_def kill_opt_def kill_def set_running_def
      set_sys_def split: option.split)

lemma snd_reg_put:
  "snd (reg_put k i c s) = (case reg k s i of None \<Rightarrow> set_reg k ((reg k s)(i \<mapsto> c)) s
    | Some o1 \<Rightarrow> set_running (removeAll (pid o1) (running (sys s))) (set_reg k ((reg k s)(i \<mapsto> c)) s))"
  by (simp add: reg_put_def andThen_def kill_opt_def kill_def set_running_def
      set_sys_def split: option.split)

lemma reg_stop_orphans [preserves_intros]: "preserves (orphans_only P) (reg_stop k i)"
proof (rule preservesI)
  fix s assume s: "orphans_only P s"
  let ?t = "set_reg k ((reg k s)(i := None)) s"
  have "p \<in> owned ?t \<union> P"
    if "p \<in> set (running (sys s))" "\<And>c. reg k s i = Some c \<Longrightarrow> p \<noteq> pid c" for p
    using that s owned_take [of p s k i] by (auto simp: orphans_only_def)
  then show "orphans_only P (snd (reg_stop k i s))"
    by (cases "reg k s i") (auto simp: orphans_only_def snd_reg_stop)
qed

lemma reg_put_orphans:
  assumes "orphans_only {pid c} s"
  shows "no_orphans (snd (reg_put k i c s))"
proof -
  let ?t = "set_reg k ((reg k s)(i \<mapsto> c)) s"
  have "p \<in> owned ?t"
    if "p \<in> set (running (sys s))" "\<And>o1. reg k s i = Some o1 \<Longrightarrow> p \<noteq> pid o1" for p
    using that assms owned_put [of p s c k i] by (auto simp: orphans_only_def)
  then show ?thesis
    by (cases "reg k s i") (auto simp: no_orphans_def snd_reg_put)
qed

lemma snd_reg_replace:
  "snd (reg_replace k i c s) =
    (let t = (case reg k s i of None \<Rightarrow> set_reg k ((reg k s)(i := None)) s
       | Some c \<Rightarrow> set_running (removeAll (pid c) (running (sys s))) (set_reg k ((reg k s)(i := None)) s))
     in set_reg k ((reg k t)(i \<mapsto> c)) t)"
  by (simp add: reg_replace_def andThen_def Let_def reg_stop_def reg_take_def kill_opt_def
      kill_def set_running_def set_sys_def split: option.split)

lemma reg_replace_orphans:
  assumes "orphans_only {pid c} s"
  shows "no_orphans (snd (reg_replace k i c s))"
proof -
  define t where "t = (case reg k s i of None \<Rightarrow> set_reg k ((reg k s)(i := None)) s
    | Some c \<Rightarrow> set_running (removeAll (pid c) (running (sys s))) (set_reg k ((reg k s)(i := None)) s))"
  have none: "reg k t i = None"
    by (auto simp: t_def reg_set_reg set_running_def split: option.split)
  have "orphans_only {pid c} t"
    using preservesD [OF reg_stop_orphans assms] unfolding snd_reg_stop t_def .
  then have "no_orphans (set_reg k ((reg k t)(i \<mapsto> c)) t)"
    using owned_put [of _ t c k i] none by (auto simp: orphans_only_def no_orphans_def)
  then show ?thesis unfolding snd_reg_replace Let_def t_def .
qed

lemma reg_sys [simp]: "reg k (s\<lparr>sys := o1\<rparr>) = reg k s"
  by (cases k) auto

lemma owned_sys [simp]: "owned (s\<lparr>sys := o1\<rparr>) = owned s"
  by (rule owned_cong) simp_all

lemma owned_set_sys [simp]: "owned (set_sys f s) = owned s"
  by (simp add: set_sys_def)

lemma owned_drop_fault [simp]: "owned (drop_fault s) = owned s"
  by (simp add: drop_fault_def)

lemma wp_spawn_orphans:
  assumes "orphans_only P s"
  shows "wp (spawn_child prg as) (\<lambda>c. orphans_only (insert (pid c) P)) (\<lambda>_. orphans_only P) s"
proof -
  have "orphans_only P (drop_fault s)" using assms by (simp add: orphans_only_def)
  then have "orphans_only (insert (next_pid (sys s)) P)
      (set_sys (\<lambda>o1. o1\<lparr>next_pid := Suc (next_pid (sys s)), running := next_pid (sys s) # running o1\<rparr>)
        (drop_fault s))"
    by (auto simp: orphans_only_def set_sys_def)
  moreover note \<open>orphans_only P (drop_fault s)\<close>
  ultimately show ?thesis
    by (auto simp: wp_def spawn_child_def fallible_def Let_def split: option.split)
qed

subsection \<open>Calls that touch neither the owners nor the running processes\<close>

definition proc_part :: "app \<Rightarrow> ((registry \<Rightarrow> uuid \<Rightarrow> child option) \<times> egress_manager \<times> child option) \<times> nat list" where
  "proc_part s = (proc_view s, running (sys s))"

lemma proc_view_eqI:
  assumes "media_players t = media_players s" "source_normalizers t = source_normalizers s"
    "srt_listeners t = srt_listeners s" "scene_compositors t = scene_compositors s"
    "browser_sources t = browser_sources s" "egress t = egress s" "hls t = hls s"
  shows "proc_view t = proc_view s"
proof -
  have "reg k t = reg k s" for k by (cases k) (use assms in auto)
  then show ?thesis using assms by (auto simp: proc_view_def)
qed

lemma proc_view_set_sys [simp]: "proc_view (set_sys f s) = proc_view s"
  by (rule proc_view_eqI) (simp_all add: set_sys_def)

lemma proc_part_drop_fault [simp]: "proc_part (drop_fault s) = proc_part s"
  by (simp add: proc_part_def) (simp add: drop_fault_def)

lemma orphans_calm: "keeps proc_part m \<Longrightarrow> preserves (orphans_only P) m"
  by (rule orphans_frame) (auto simp: keeps_def proc_part_def)

lemma calm_fallible [calm_intros]: "keeps proc_part m \<Longrightarrow> keeps proc_part (fallible m)"
  by (auto simp: keeps_def fallible_def split: option.split)

lemma calm_set_sys [calm_intros]:
  "(\<And>o1. running (f o1) = running o1) \<Longrightarrow> keeps proc_part (modify (set_sys f))"
  by (simp add: keeps_def proc_part_def) (simp add: set_sys_def)

lemma calm_modify:
  assumes "\<And>s. proc_view (g s) = proc_view s" "\<And>s. sys (g s) = sys s"
  shows "keeps proc_part (modify g)"
  using assms by (simp add: keeps_def proc_part_def)

lemma calm_sql_read [calm_intros]: "keeps proc_part (sql_read g)"
  unfolding sql_read_def by (intro calm_intros)

lemma calm_sql_exec [calm_intros]: "keeps proc_part (sql_exec f)"
  unfolding sql_exec_def by (intro calm_fallible calm_modify) (auto intro!: proc_view_eqI)

lemma calm_sql_try [calm_intros]: "keeps proc_part (sql_try h)"
  unfolding sql_try_def
  by (rule calm_fallible) (auto simp: keeps_def proc_part_def intro!: proc_view_eqI split: option.split)

lemma calm_io [calm_intros]:
  "keeps proc_part now" "keeps proc_part (sleep d)" "keeps proc_part (spawn_task t)"
  "keeps proc_part (write_file p content)" "keeps proc_part (create_dir_all p)"
  unfolding now_def sleep_def spawn_task_def write_file_def create_dir_all_def
  by (intro calm_intros; simp)+

lemma proc_part_set_sys:
  "(\<And>o1. running (f o1) = running o1) \<Longrightarrow> proc_part (set_sys f s) = proc_part s"
  by (simp add: proc_part_def) (simp add: set_sys_def)

lemma calm_fresh_uuid [calm_intros]: "keeps proc_part (fresh_uuid L)"
  by (simp add: fresh_uuid_def keeps_def proc_part_set_sys)

lemma calm_remove_file [calm_intros]: "keeps proc_part (remove_file p)"
  unfolding remove_file_def
  by (rule calm_fallible) (simp add: keeps_def proc_part_set_sys split: option.split)

lemma calm_canonicalize [calm_intros]: "keeps proc_part (canonicalize p)"
  unfolding canonicalize_def by (rule calm_fallible) (simp add: keeps_def split: option.split)

lemma calm_bind_port [calm_intros]: "keeps proc_part bind_port"
  unfolding bind_port_def by (rule calm_fallible) (simp add: keeps_def proc_part_set_sys)

lemma calm_settings [calm_intros]:
  "keeps proc_part (read_setting k)" "keeps proc_part (load_setting dec dflt k)"
  "keeps proc_part (load_output_config L)"
  unfolding read_setting_def load_setting_def load_output_config_def by (intro calm_intros)+

lemma calm_ws_send [calm_intros]: "keeps proc_part (ws_send e)"
  unfolding ws_send_def by (intro calm_modify) (auto intro!: proc_view_eqI)

lemma calm_relay [calm_intros]: "keeps proc_part (get_or_create_media_relay i)"
  by (auto simp: keeps_def get_or_create_media_relay_def proc_part_def intro!: proc_view_eqI
      split: option.split)

lemma calm_new_channel [calm_intros]: "keeps proc_part new_channel"
  by (auto simp: keeps_def new_channel_def proc_part_def intro!: proc_view_eqI)

lemma later_registry [later_intros]:
  "later (reg_take k i)" "later (reg_stop k i)" "later (reg_put k i c)" "later (reg_replace k i c)"
proof -
  show take: "later (reg_take k i)" by (simp add: later_def reg_take_def)
  have take': "later (reg_take k i)" by (simp add: later_def reg_take_def)
  show "later (reg_stop k i)" unfolding reg_stop_def by (intro later_intros take')
  have stop: "later (reg_stop k i)" unfolding reg_stop_def by (intro later_intros take')
  show "later (reg_put k i c)" "later (reg_replace k i c)"
    unfolding reg_put_def reg_replace_def by (intro later_intros stop; simp)+
qed

section \<open>Success without failing calls\<close>

lemma faults_set_reg [simp]: "faults (sys (set_reg k m s)) = faults (sys s)"
  by (cases k) simp_all

lemma smooth_registry [smooth_intros]:
  "smooth (reg_take k i)" "smooth (reg_stop k i)" "smooth (reg_put k i c)" "smooth (reg_replace k i c)"
proof -
  show take: "smooth (reg_take k i)"
    by (simp add: smooth_def reg_take_def no_faults_def)
  show stop: "smooth (reg_stop k i)"
    unfolding reg_stop_def by (intro smooth_intros take)
  show "smooth (reg_put k i c)" "smooth (reg_replace k i c)"
    unfolding reg_put_def reg_replace_def by (intro smooth_intros stop; simp)+
qed

end
