(* ===== verification/Ingest.thy ===== *)
theory Ingest
  imports Procs
begin

text \<open>
  The ingests that run an encoder per source: media files and playlists
  (\<open>media_player.rs\<close>), the RTMP normalizer (\<open>source_normalizer.rs\<close>), the SRT
  listener (\<open>srt.rs\<close>) and the browser source (\<open>browser_source.rs\<close>). Each has a
  start, which registers the child and spawns the reader of its output, the
  reader, and a stop. The standard error readers only log, apart from the SRT
  one, which keeps the source's state. The pipes of a child that was spawned
  with piped stdio are there, so the \<open>take().ok_or(..)\<close> branches have no case.
\<close>

section \<open>media_player.rs\<close>

definition is_image_path :: "string \<Rightarrow> bool" where
  "is_image_path p \<longleftrightarrow> (case path_extension p of None \<Rightarrow> '''' | Some e \<Rightarrow> e)
     \<in> set [''png'', ''jpg'', ''jpeg'', ''gif'', ''webp'', ''bmp'', ''svg'']"

definition media_args :: "string \<Rightarrow> string \<Rightarrow> string list" where
  "media_args file_path loop_mode =
    (let is_image = is_image_path file_path;
         should_loop = (is_image \<or> loop_mode = ''loop'')
     in [''-hide_banner'', ''-loglevel'', ''warning''] @
        (if should_loop \<and> \<not> is_image then [''-stream_loop'', ''-1''] else []) @
        (if is_image then [''-loop'', ''1'', ''-framerate'', ''30''] else []) @
        [''-re'', ''-i'', file_path] @
        [''-c:v'', ''libx264'', ''-preset'', ''veryfast'', ''-tune'', ''zerolatency'',
         ''-pix_fmt'', ''yuv420p'', ''-g'', ''60'', ''-r'', ''30'', ''-b:v'', ''2000k''] @
        (if is_image then [''-t'', ''86400''] @ [''-an'']
         else [''-c:a'', ''aac'', ''-b:a'', ''128k'', ''-ar'', ''48000'', ''-ac'', ''2'']) @
        [''-f'', ''flv'', ''pipe:1''])"

definition start_media_playback :: "uuid \<Rightarrow> string \<Rightarrow> string \<Rightarrow> unit io" where
  "start_media_playback source_id file_path loop_mode =
    andThen (get_or_create_media_relay source_id) (\<lambda>relay_tx.
    andThen (map_err (\<lambda>e. ''failed to start ffmpeg: '' @ e)
              (spawn_child ''ffmpeg'' (media_args file_path loop_mode))) (\<lambda>child.
    then_do (reg_replace Players source_id child)
            (spawn_task (TFeedRelay source_id relay_tx))))"

text \<open>A single quote inside a quoted path of the concat list.\<close>

definition escape_quotes :: "string \<Rightarrow> string" where
  "escape_quotes p = concat (map (\<lambda>c. if c = CHR 0x27 then [CHR 0x27, CHR 0x5C, CHR 0x27, CHR 0x27] else [c]) p)"

definition concat_line :: "string \<Rightarrow> string" where
  "concat_line p = ''file '' @ [CHR 0x27] @ escape_quotes p @ [CHR 0x27] @ [CHR 0x0A]"

definition text_bytes :: "string \<Rightarrow> bytes" where
  "text_bytes t = map (\<lambda>c. of_nat (of_char c)) t"

definition concat_list :: "string list \<Rightarrow> (app, 'e, string) prog" where
  "concat_list fs =
    andThen (mapM (\<lambda>f. andThen (or_else f (canonicalize f)) (\<lambda>abs. ok (concat_line abs))) fs)
      (\<lambda>lines. ok (''ffconcat version 1.0'' @ [CHR 0x0A] @ concat lines))"

definition concat_args :: "string \<Rightarrow> bool \<Rightarrow> u32 \<Rightarrow> u32 \<Rightarrow> u32 \<Rightarrow> string list" where
  "concat_args list_path loop_forever w h r =
    (let vf = ''scale='' @ show_word w @ '':'' @ show_word h @
           '':force_original_aspect_ratio=decrease,pad='' @ show_word w @ '':'' @ show_word h @
           '':(ow-iw)/2:(oh-ih)/2:black,setsar=1''
     in [''-hide_banner'', ''-loglevel'', ''warning''] @
        (if loop_forever then [''-stream_loop'', ''-1''] else []) @
        [''-re'', ''-f'', ''concat'', ''-safe'', ''0'',
         ''-i'', list_path,
         ''-vf'', vf,
         ''-c:v'', ''libx264'', ''-preset'', ''veryfast'',
         ''-tune'', ''zerolatency'', ''-pix_fmt'', ''yuv420p'',
         ''-g'', show_word (r * 2), ''-r'', show_word r, ''-b:v'', ''3000k'',
         ''-c:a'', ''aac'', ''-b:a'', ''128k'', ''-ar'', ''48000'',
         ''-ac'', ''2'',
         ''-f'', ''flv'', ''pipe:1''])"

definition start_concat_playback ::
    "lib \<Rightarrow> uuid \<Rightarrow> string list \<Rightarrow> bool \<Rightarrow> u32 \<Rightarrow> u32 \<Rightarrow> u32 \<Rightarrow> unit io" where
  "start_concat_playback L source_id fs loop_forever w h r =
    then_do (check (fs \<noteq> []) ''empty playlist'')
    (andThen (get_or_create_media_relay source_id) (\<lambda>relay_tx.
     andThen (gets (\<lambda>s. data_dir (cfg s))) (\<lambda>dir.
     then_do (ignore (create_dir_all dir))
    (let list_path = path_join dir (''playlist_'' @ show_uuid L source_id @ ''.txt'') in
     andThen (concat_list fs) (\<lambda>list.
     then_do (map_err (\<lambda>e. ''write playlist: '' @ e) (write_file list_path (text_bytes list)))
    (andThen (map_err (\<lambda>e. ''failed to start ffmpeg: '' @ e)
               (spawn_child ''ffmpeg'' (concat_args list_path loop_forever w h r))) (\<lambda>child.
     then_do (reg_replace Players source_id child)
             (spawn_task (TFeedRelay source_id relay_tx)))))))))"

text \<open>The reader of a player; at the end of its output the entry of the source
  is removed, whoever put it there, and the removed child dropped.\<close>

definition feed_relay :: "uuid \<Rightarrow> nat \<Rightarrow> bytes \<Rightarrow> app \<Rightarrow> app" where
  "feed_relay source_id relay_tx stdout s =
    read_flv id (\<lambda>s. snd ((reg_stop Players source_id :: unit io) s)) source_id relay_tx stdout s"

definition stop_media_playback :: "uuid \<Rightarrow> (app, 'e, unit) prog" where
  "stop_media_playback source_id =
    then_do (reg_stop Players source_id)
   (then_do (modify (remove_media_relay source_id))
            (modify (forget_headers source_id)))"

section \<open>source_normalizer.rs\<close>

definition canvas_filter :: "output_config \<Rightarrow> string" where
  "canvas_filter c = ''scale='' @ show_word (width c) @ '':'' @ show_word (height c) @
     '':force_original_aspect_ratio=decrease,pad='' @ show_word (width c) @ '':'' @
     show_word (height c) @ '':(ow-iw)/2:(oh-ih)/2:black''"

definition kbps :: "u32 \<Rightarrow> string" where
  "kbps n = show_word n @ ''k''"

definition encoder_args :: "output_config \<Rightarrow> string list" where
  "encoder_args c =
    [''-vf'', canvas_filter c,
     ''-c:v'', ''libx264'', ''-preset'', ''veryfast'', ''-tune'', ''zerolatency'',
     ''-b:v'', kbps (video_bitrate_kbps c), ''-maxrate'', kbps (video_bitrate_kbps c),
     ''-bufsize'', kbps (video_bitrate_kbps c * 2), ''-g'', show_word (fps c * 2),
     ''-r'', show_word (fps c), ''-pix_fmt'', ''yuv420p'',
     ''-c:a'', ''aac'', ''-b:a'', kbps (audio_bitrate_kbps c), ''-ar'', ''48000'',
     ''-f'', ''flv'', ''-flvflags'', ''no_duration_filesize'', ''pipe:1'']"

definition start_normalizer :: "lib \<Rightarrow> uuid \<Rightarrow> nat io" where
  "start_normalizer L source_id =
    andThen (load_output_config L) (\<lambda>c.
    andThen new_channel (\<lambda>raw_tx.
    andThen (get_or_create_media_relay source_id) (\<lambda>public_tx.
    andThen (map_err (\<lambda>e. ''failed to start normalizer ffmpeg: '' @ e)
              (spawn_child ''ffmpeg''
                 ([''-hide_banner'', ''-loglevel'', ''warning'', ''-f'', ''flv'', ''-i'', ''pipe:0''] @
                  encoder_args c))) (\<lambda>child.
    then_do (reg_replace Normalizers source_id child)
   (then_do (spawn_task (TPipeRaw raw_tx (pid child)))
   (then_do (spawn_task (TReadNormalized source_id public_tx))
            (ok raw_tx)))))))"

definition read_normalized_output :: "uuid \<Rightarrow> nat \<Rightarrow> bytes \<Rightarrow> app \<Rightarrow> app" where
  "read_normalized_output source_id public_tx stdout s =
    read_flv id (\<lambda>s. snd ((reg_stop Normalizers source_id :: unit io) s)) source_id public_tx stdout s"

definition stop_normalizer :: "uuid \<Rightarrow> (app, 'e, unit) prog" where
  "stop_normalizer source_id = reg_stop Normalizers source_id"

section \<open>srt.rs\<close>

definition announce :: "uuid \<Rightarrow> source_state \<Rightarrow> (app, 'e, unit) prog" where
  "announce i st = then_do (modify (set_source_state i st)) (ws_send (EvSourceState i st))"

definition srt_url :: "u16 \<Rightarrow> string option \<Rightarrow> string" where
  "srt_url port passphrase =
    ''srt://0.0.0.0:'' @ show_word port @ ''?mode=listener'' @
    (case passphrase of None \<Rightarrow> '''' | Some pw \<Rightarrow>
       if pw \<noteq> [] then ''&passphrase='' @ pw else '''')"

definition start_srt_listener :: "lib \<Rightarrow> uuid \<Rightarrow> u16 \<Rightarrow> string option \<Rightarrow> unit io" where
  "start_srt_listener L source_id port passphrase =
    andThen (load_output_config L) (\<lambda>c.
    andThen (get_or_create_media_relay source_id) (\<lambda>public_tx.
    andThen (map_err (\<lambda>e. ''failed to start SRT listener ffmpeg: '' @ e)
              (spawn_child ''ffmpeg''
                 ([''-hide_banner'', ''-loglevel'', ''warning'', ''-i'', srt_url port passphrase] @
                  encoder_args c))) (\<lambda>child.
    then_do (spawn_task (TSrtStderr source_id (pid child)))
   (then_do (reg_replace SrtListeners source_id child)
   (then_do (announce source_id Connecting)
            (spawn_task (TReadSrt source_id public_tx)))))))"

text \<open>The task on ffmpeg's standard error: the first line that shows output
  marks the source live, the end of the stream marks it disconnected.\<close>

definition is_infix :: "string \<Rightarrow> string \<Rightarrow> bool" where
  "is_infix p t \<longleftrightarrow> (\<exists>n \<in> set [0..<Suc (length t)]. take (length p) (drop n t) = p)"

fun srt_stderr :: "uuid \<Rightarrow> bool \<Rightarrow> string list \<Rightarrow> (app, 'e, unit) prog" where
  "srt_stderr sid marked_live [] = announce sid Disconnected"
| "srt_stderr sid marked_live (l # ls) =
    (if \<not> marked_live \<and> (is_infix ''Output #0'' l \<or> is_infix ''frame='' l)
     then then_do (announce sid Live) (srt_stderr sid True ls)
     else srt_stderr sid marked_live ls)"

definition read_srt_output :: "uuid \<Rightarrow> nat \<Rightarrow> bytes \<Rightarrow> app \<Rightarrow> app" where
  "read_srt_output source_id public_tx stdout s =
    read_flv (\<lambda>s. snd ((announce source_id Live :: unit io) s)) id source_id public_tx stdout s"

definition stop_srt_listener :: "uuid \<Rightarrow> (app, 'e, unit) prog" where
  "stop_srt_listener source_id =
    then_do (reg_stop SrtListeners source_id)
   (then_do (modify (remove_media_relay source_id))
            (modify (forget_headers source_id)))"

text \<open>The port of a new SRT source: the listeners contribute only the port 0
  (\<open>keys().map(|_| 0u16)\<close>), the sources the port of their kind.\<close>

definition srt_ports :: "lib \<Rightarrow> db \<Rightarrow> u16 list" where
  "srt_ports L d = concat (map (\<lambda>r. case kind_of_json L (sr_kind r) of
       Some (Srt port _) \<Rightarrow> [port] | _ \<Rightarrow> [])
     (filter (\<lambda>r. sql_like (''%'' @ [CHR 0x22] @ ''srt'' @ [CHR 0x22] @ ''%'') (sr_kind r)) (sources d)))"

text \<open>\<open>start..start + 100\<close>, whose end wraps in a release build.\<close>

definition port_range :: "u16 \<Rightarrow> u16 list" where
  "port_range start = (if start < start + 100 then map (\<lambda>n. start + of_nat n) [0..<100] else [])"

definition assign_srt_port :: "lib \<Rightarrow> (app, 'e, u16) prog" where
  "assign_srt_port L =
    andThen (gets (\<lambda>s. srt_port_range_start (cfg s))) (\<lambda>start.
    andThen (gets (\<lambda>s. if srt_listeners s = (\<lambda>_. None) then [] else [0])) (\<lambda>used_ports.
    andThen (or_else [] (sql_read (srt_ports L))) (\<lambda>ports.
    ok (case find (\<lambda>p. p \<notin> set (used_ports @ ports)) (port_range start) of
          Some p \<Rightarrow> p
        | None \<Rightarrow> start + 100))))"

section \<open>browser_source.rs\<close>

definition chrome_path :: "os \<Rightarrow> string" where
  "chrome_path o1 = (case environ o1 ''MUXSHED_CHROME_PATH'' of
      Some p \<Rightarrow> p
    | None \<Rightarrow> (case find (exe_exists o1)
        [''/Applications/Google Chrome.app/Contents/MacOS/Google Chrome'',
         ''/Applications/Chromium.app/Contents/MacOS/Chromium'',
         ''/usr/bin/chromium'', ''/usr/bin/chromium-browser'', ''/usr/bin/google-chrome'',
         ''/usr/bin/google-chrome-stable''] of
          Some c \<Rightarrow> c
        | None \<Rightarrow> ''chromium''))"

text \<open>The DevTools endpoint is Chrome's: whether and with which address it
  comes up is the argument \<open>devtools\<close>; fifty attempts without it are an error.\<close>

definition wait_for_page_ws :: "(u16 \<Rightarrow> string option) \<Rightarrow> u16 \<Rightarrow> string io" where
  "wait_for_page_ws devtools port =
    (case devtools port of
       Some u \<Rightarrow> ok u
     | None \<Rightarrow> then_do (sleep (50 * from_millis 100)) (throw ''chrome devtools did not come up''))"

definition browser_args :: "output_config \<Rightarrow> string list" where
  "browser_args c =
    [''-hide_banner'', ''-loglevel'', ''warning'',
     ''-f'', ''image2pipe'', ''-use_wallclock_as_timestamps'', ''1'', ''-i'', ''pipe:0'',
     ''-f'', ''lavfi'', ''-i'', ''anullsrc=r=48000:cl=stereo'',
     ''-vf'', canvas_filter c @ '',fps='' @ show_word (fps c) @ '',format=yuv420p'',
     ''-c:v'', ''libx264'', ''-preset'', ''veryfast'', ''-tune'', ''zerolatency'',
     ''-b:v'', kbps (video_bitrate_kbps c), ''-maxrate'', kbps (video_bitrate_kbps c),
     ''-bufsize'', kbps (video_bitrate_kbps c * 2),
     ''-g'', show_word (fps c * 2), ''-pix_fmt'', ''yuv420p'',
     ''-c:a'', ''aac'', ''-b:a'', ''128k'', ''-ar'', ''48000'',
     ''-shortest'', ''-f'', ''flv'', ''-flvflags'', ''no_duration_filesize'', ''pipe:1'']"

text \<open>Each error after Chrome was launched ends it: killed by hand when the
  endpoint does not come up, dropped when ffmpeg does not start.\<close>

definition start_browser_source ::
    "lib \<Rightarrow> (u16 \<Rightarrow> string option) \<Rightarrow> uuid \<Rightarrow> string \<Rightarrow> unit io" where
  "start_browser_source L devtools source_id url =
    andThen (load_output_config L) (\<lambda>c.
    andThen bind_port (\<lambda>port.
    andThen (gets (\<lambda>s. chrome_path (sys s))) (\<lambda>chrome_bin.
    andThen (map_err (\<lambda>e. ''failed to launch chrome: '' @ e)
      (spawn_child chrome_bin
        [''--headless=new'', ''--disable-gpu'', ''--hide-scrollbars'', ''--no-sandbox'', ''--mute-audio'',
         ''--autoplay-policy=no-user-gesture-required'', ''--disable-dev-shm-usage'',
         ''--remote-debugging-port='' @ show_word port,
         ''--window-size='' @ show_word (width c) @ '','' @ show_word (height c),
         url])) (\<lambda>chrome.
    andThen (attempt (wait_for_page_ws devtools port)) (\<lambda>r. case r of
      Inl e \<Rightarrow> then_do (kill chrome) (throw e)
    | Inr ws_url \<Rightarrow>
        andThen (get_or_create_media_relay source_id) (\<lambda>public_tx.
        andThen (attempt (spawn_child ''ffmpeg'' (browser_args c))) (\<lambda>r. case r of
          Inl e \<Rightarrow> then_do (kill chrome) (throw (''failed to start browser ffmpeg: '' @ e))
        | Inr ff \<Rightarrow>
            then_do (reg_put Browsers source_id chrome)
           (then_do (reg_put Normalizers source_id ff)
           (then_do (spawn_task (TBrowserShots source_id ws_url (fps c)))
                    (spawn_task (TReadBrowser source_id public_tx)))))))))))"

definition frame_interval_ms :: "u32 \<Rightarrow> nat" where
  "frame_interval_ms f = max (1000 div max (unat f) 1) 20"

definition read_browser_output :: "uuid \<Rightarrow> nat \<Rightarrow> bytes \<Rightarrow> app \<Rightarrow> app" where
  "read_browser_output source_id public_tx stdout s =
    read_flv (\<lambda>s. snd ((announce source_id Live :: unit io) s)) id source_id public_tx stdout s"

definition stop_browser_source :: "uuid \<Rightarrow> (app, 'e, unit) prog" where
  "stop_browser_source source_id =
    then_do (reg_stop Browsers source_id)
   (then_do (reg_stop Normalizers source_id)
   (then_do (modify (remove_media_relay source_id))
   (then_do (modify (forget_headers source_id))
            (modify (set_source_state source_id Disconnected)))))"

section \<open>The readers\<close>

lemma quiet_id [simp]: "quiet id"
  by (simp add: quiet_def)

lemma quiet_announce [simp]: "quiet (\<lambda>s. snd (announce i st s))"
  by (simp add: quiet_def announce_def set_source_state_def ws_send_def)

lemma quiet_reg_stop [simp]: "quiet (\<lambda>s. snd (reg_stop k i s))"
  by (cases k) (simp_all add: quiet_def snd_reg_stop set_running_def set_sys_def split: option.split)

lemmas reader_defs = feed_relay_def read_normalized_output_def read_srt_output_def read_browser_output_def

lemma readers_send:
  assumes "reader \<in> {feed_relay, read_normalized_output, read_srt_output, read_browser_output}"
  shows "sent (reader i ch out s) ch = sent s ch @
    (if length out < 13 then [] else map (\<lambda>t. snd (snd t)) (read_tags (drop 13 out)))"
  using assms by (auto simp: reader_defs sent_read_flv)


text \<open>The reader is the inverse of the tag builder: from a stream that starts
  with the file header and continues with built tags it publishes these tags,
  one by one and in order, for payloads below 16 MiB; a cut off last tag is
  not published.\<close>
theorem reader_inverts_builder:
  assumes "\<forall>(tt, d, ts) \<in> set fs. length d < 2 ^ 24" and "next_tag partial = None"
  shows "sent (feed_relay i ch
      (flv_header @ concat (map (\<lambda>(tt, d, ts). flv_tag tt d ts) fs) @ partial) s) ch =
    sent s ch @ map (\<lambda>(tt, d, ts). flv_tag tt d ts) fs"
  using read_tags_built [OF assms]
  by (simp add: readers_send case_prod_beta')

text \<open>The header cache is sound whatever the encoders write: every reader
  keeps \<open>headers_ok\<close>, that is a cached video header is a video tag with packet
  type 0, a cached audio header an audio tag with packet type 0, and a cached
  keyframe a video tag with frame type 1.\<close>
theorem readers_keep_headers_ok:
  assumes "headers_ok s"
    and "reader \<in> {feed_relay, read_normalized_output, read_srt_output, read_browser_output}"
  shows "headers_ok (reader i ch out s)"
  using assms by (auto simp: reader_defs intro!: read_flv_headers_ok)

lemma publish_tags_players:
  "media_players (publish_tags id n i ch ts u) = media_players u \<and>
   running (sys (publish_tags id n i ch ts u)) = running (sys u)"
proof (induction ts arbitrary: n u)
  case (Cons x ts)
  have "media_players (cache_tag i x u) = media_players u" "sys (cache_tag i x u) = sys u"
    by (subst cache_tag_frame, simp)+
  then show ?case using Cons by (simp add: publish_tag_def relay_send_def)
qed simp

lemma start_media_registers:
  assumes "start_media_playback i p m s = (Inr (), t)"
    and "\<forall>c. media_players s i = Some c \<longrightarrow> pid c < next_pid (sys s)"
  shows "\<exists>c. media_players t i = Some c \<and> pid c \<in> set (running (sys t))"
proof -
  obtain ch s1 where s1: "(get_or_create_media_relay i :: nat io) s = (Inr ch, s1)"
      "media_players s1 = media_players s" "sys s1 = sys s"
    by (cases "media_relays s i") (auto simp: get_or_create_media_relay_def)
  have "next_fault s1 = None"
    using assms(1) s1 by (auto simp: start_media_playback_def map_err_def spawn_child_def
        fallible_def andThen_def split: option.splits)
  then obtain c s2 where s2: "spawn_child ''ffmpeg'' (media_args p m) s1 = (Inr c, s2)"
      "media_players s2 = media_players s" "pid c = next_pid (sys s)"
      "running (sys s2) = pid c # running (sys s)"
    using s1 by (auto simp: spawn_child_def fallible_def Let_def drop_fault_def set_sys_def)
  have "snd ((reg_replace Players i c :: unit io) s2) =
      set_running (case media_players s i of None \<Rightarrow> pid c # running (sys s)
        | Some o1 \<Rightarrow> removeAll (pid o1) (pid c # running (sys s)))
      (s2\<lparr>media_players := (media_players s)(i \<mapsto> c)\<rparr>)"
    using s2 by (auto simp: snd_reg_replace Let_def set_running_def set_sys_def split: option.split)
  moreover have "t = snd ((spawn_task (TFeedRelay i ch) :: unit io)
      (snd ((reg_replace Players i c :: unit io) s2)))"
    using assms(1) s1(1) s2(1)
    by (simp add: start_media_playback_def map_err_def reg_replace_def andThen_def reg_stop_def
        reg_take_def kill_opt_def kill_def split: option.splits)
  ultimately have "media_players t i = Some c"
      "running (sys t) = (case media_players s i of None \<Rightarrow> pid c # running (sys s)
        | Some o1 \<Rightarrow> removeAll (pid o1) (pid c # running (sys s)))"
    by (simp_all add: spawn_task_def set_running_def set_sys_def)
  moreover have "\<forall>o1. media_players s i = Some o1 \<longrightarrow> pid o1 \<noteq> pid c"
    using assms(2) s2(3) by auto
  ultimately show ?thesis by (auto split: option.splits)
qed

text \<open>A media player that is restarted does not survive its predecessor: the
  reader of the killed player reaches the end of its pipe, removes the entry
  of the source, which by then holds the new player, and the drop of the
  removed child kills it. (The hypothesis says that process numbers are not
  reused.)\<close>
theorem old_reader_kills_restarted_player:
  assumes "start_media_playback i p m s = (Inr (), t)" and "13 \<le> length out"
    and "\<forall>c. media_players s i = Some c \<longrightarrow> pid c < next_pid (sys s)"
  shows "\<exists>c. media_players t i = Some c \<and> pid c \<in> set (running (sys t)) \<and>
    media_players (feed_relay i ch out t) i = None \<and>
    pid c \<notin> set (running (sys (feed_relay i ch out t)))"
proof -
  obtain c where c: "media_players t i = Some c" "pid c \<in> set (running (sys t))"
    using start_media_registers [OF assms(1,3)] by blast
  have "media_players (feed_relay i ch out t) i = None"
    "pid c \<notin> set (running (sys (feed_relay i ch out t)))"
    using assms(2) c publish_tags_players [of 0 i ch "read_tags (drop 13 out)" t]
    by (auto simp: feed_relay_def read_flv_def read_exact_def snd_reg_stop set_running_def set_sys_def)
  then show ?thesis using c by blast
qed

section \<open>No orphaned encoders\<close>

lemma map_err_spawn_orphans:
  "orphans_only P s \<Longrightarrow>
    wp (map_err g (spawn_child prg as)) (\<lambda>c. orphans_only (insert (pid c) P)) (\<lambda>_. orphans_only P) s"
  by (simp add: wp_map_err wp_spawn_orphans)

lemma wp_reg_replace_orphans:
  "orphans_only {pid c} s \<Longrightarrow> wp (reg_replace k i c) (\<lambda>_. orphans_only {}) (\<lambda>_. orphans_only {}) s"
  using reg_replace_orphans by (auto simp: wp_any no_orphans_only)

lemma calm_announce [calm_intros]: "keeps proc_part (announce i st)"
  unfolding announce_def set_source_state_def
  by (intro calm_intros calm_modify) (auto intro!: proc_view_eqI)

lemma calm_wp:
  "keeps proc_part m \<Longrightarrow> orphans_only P s \<Longrightarrow> wp m (\<lambda>_. orphans_only P) (\<lambda>_. orphans_only P) s"
  by (intro wp_preserves orphans_calm)

lemma no_orphans_start_media: "preserves no_orphans (start_media_playback i p m)"
  unfolding no_orphans_only [abs_def] start_media_playback_def
  by (rule preserves_wp)
     (rule wp_seq map_err_spawn_orphans wp_reg_replace_orphans calm_wp calm_intros | assumption)+

lemma keeps_concat_list [calm_intros]: "keeps proc_part (concat_list fs)"
  unfolding concat_list_def by (intro calm_intros)

lemma no_orphans_start_concat: "preserves no_orphans (start_concat_playback L i fs lp w h r)"
  unfolding no_orphans_only [abs_def] start_concat_playback_def Let_def
  by (rule preserves_wp) (rule wp_seq map_err_spawn_orphans wp_reg_replace_orphans calm_wp calm_intros | assumption)+

lemma no_orphans_start_normalizer: "preserves no_orphans (start_normalizer L i)"
  unfolding no_orphans_only [abs_def] start_normalizer_def
  by (rule preserves_wp) (rule wp_seq map_err_spawn_orphans wp_reg_replace_orphans calm_wp calm_intros | assumption)+

lemma wp_spawn_task_then:
  assumes "orphans_only P s" "\<And>t. orphans_only P t \<Longrightarrow> wp m Q E t"
  shows "wp (then_do (spawn_task x) m) Q E s"
proof -
  have "orphans_only P (snd ((spawn_task x :: unit io) s))"
    by (rule preservesD [OF orphans_calm assms(1)]) (intro calm_intros)
  then show ?thesis using assms(2) by (simp add: wp_andThen spawn_task_def wp_modify)
qed

lemma no_orphans_start_srt: "preserves no_orphans (start_srt_listener L i port pw)"
  unfolding no_orphans_only [abs_def] start_srt_listener_def
  by (rule preserves_wp) (rule wp_spawn_task_then wp_seq map_err_spawn_orphans wp_reg_replace_orphans calm_wp calm_intros | assumption)+

lemma calm_unset [calm_intros]:
  "keeps proc_part (modify (remove_media_relay i))" "keeps proc_part (modify (forget_headers i))"
  "keeps proc_part (modify (set_source_state i st))"
  unfolding remove_media_relay_def forget_headers_def set_source_state_def
  by (intro calm_modify; auto intro!: proc_view_eqI)+

lemma no_orphans_stops:
  "preserves (orphans_only P) (stop_media_playback i)" "preserves (orphans_only P) (stop_normalizer i)"
  "preserves (orphans_only P) (stop_srt_listener i)" "preserves (orphans_only P) (stop_browser_source i)"
  unfolding stop_media_playback_def stop_normalizer_def stop_srt_listener_def stop_browser_source_def
  by (intro preserves_intros orphans_calm calm_intros)+

lemma wp_kill_two:
  "orphans_only {pid c} s \<Longrightarrow> wp (then_do (kill c) (throw e)) Q (\<lambda>_. orphans_only {}) s"
  by (rule wp_seq [where R = "\<lambda>_. orphans_only {}"]) (auto simp: wp_kill wp_basic orphans_only_def)

lemma wp_reg_put_orphans:
  assumes "orphans_only (insert (pid c) P) s"
  shows "wp (reg_put k i c) (\<lambda>_. orphans_only P) (\<lambda>_. orphans_only P) s"
proof -
  let ?t = "set_reg k ((reg k s)(i \<mapsto> c)) s"
  have "p \<in> owned ?t \<union> P"
    if "p \<in> set (running (sys s))" "\<And>o1. reg k s i = Some o1 \<Longrightarrow> p \<noteq> pid o1" for p
    using that assms owned_put [of p s c k i] by (auto simp: orphans_only_def)
  then show ?thesis
    unfolding wp_any snd_reg_put by (cases "reg k s i") (auto simp: orphans_only_def)
qed

lemma wp_attempt_spawn_orphans:
  assumes "orphans_only P s"
    and "\<And>c t. orphans_only (insert (pid c) P) t \<Longrightarrow> wp (k (Inr c)) Q E t"
    and "\<And>e t. orphans_only P t \<Longrightarrow> wp (k (Inl e)) Q E t"
  shows "wp (andThen (attempt (spawn_child prg as)) k) Q E s"
  unfolding wp_andThen wp_attempt
  by (rule wp_mono [OF wp_spawn_orphans [OF assms(1)]]) (use assms(2,3) in auto)

lemma no_orphans_start_browser: "preserves no_orphans (start_browser_source L dt i url)"
proof -
  have put2: "wp (reg_put k i c) (\<lambda>_. orphans_only P) E s"
    if "orphans_only (insert (pid c) P) s" for k c P E s
    using wp_reg_put_orphans [OF that, of k i]
    by (auto simp: wp_def reg_put_def andThen_def kill_opt_def kill_def split: prod.splits option.splits)
  have after: "wp (then_do (reg_put Browsers i chrome)
           (then_do (reg_put Normalizers i ff)
           (then_do (spawn_task t1) (spawn_task t2)))) (\<lambda>_. orphans_only {}) (\<lambda>_. orphans_only {}) s"
    if "orphans_only (insert (pid ff) {pid chrome}) s" for chrome ff t1 t2 s
    by (rule wp_seq [OF put2 [of chrome "{pid ff}"]],
        use that in \<open>simp add: insert_commute\<close>,
        rule wp_seq [OF put2], assumption, (rule wp_seq map_err_spawn_orphans wp_reg_replace_orphans calm_wp calm_intros | assumption)+)
  have ws: "wp (attempt (wait_for_page_ws dt port)) (\<lambda>_. orphans_only P) (\<lambda>_. orphans_only P) s"
    if "orphans_only P s" for P port s
    unfolding wait_for_page_ws_def
    by (rule wp_preserves [OF orphans_calm that], intro calm_intros)
  have body: "wp (andThen (attempt (wait_for_page_ws dt port)) (\<lambda>r. case r of
      Inl e \<Rightarrow> then_do (kill chrome) (throw e)
    | Inr ws_url \<Rightarrow>
        andThen (get_or_create_media_relay i) (\<lambda>public_tx.
        andThen (attempt (spawn_child ''ffmpeg'' (browser_args c))) (\<lambda>r. case r of
          Inl e \<Rightarrow> then_do (kill chrome) (throw (''failed to start browser ffmpeg: '' @ e))
        | Inr ff \<Rightarrow>
            then_do (reg_put Browsers i chrome)
           (then_do (reg_put Normalizers i ff)
           (then_do (spawn_task (TBrowserShots i ws_url (fps c)))
                    (spawn_task (TReadBrowser i public_tx))))))))
      (\<lambda>_. orphans_only {}) (\<lambda>_. orphans_only {}) s"
    if s: "orphans_only {pid chrome} s" for port chrome c s
  proof -
    have R: "wp (attempt (wait_for_page_ws dt port)) (\<lambda>_. orphans_only {pid chrome}) (\<lambda>_. orphans_only {}) s"
      using ws [OF s] by (simp add: wp_attempt)
    show ?thesis
    proof (rule wp_seq [OF R], split sum.split, intro conjI allI impI)
      show "wp (then_do (kill chrome) (throw e)) (\<lambda>_. orphans_only {}) (\<lambda>_. orphans_only {}) t"
        if "orphans_only {pid chrome} t" for e t
        using wp_kill_two [OF that] .
    next
      fix a t w assume t: "orphans_only {pid chrome} t"
      have R2: "wp (get_or_create_media_relay i) (\<lambda>_. orphans_only {pid chrome}) (\<lambda>_. orphans_only {}) t"
        using calm_wp [OF calm_relay [of i] t] by (auto simp: wp_def get_or_create_media_relay_def split: option.splits)
      show "wp (andThen (get_or_create_media_relay i) (\<lambda>public_tx.
        andThen (attempt (spawn_child ''ffmpeg'' (browser_args c))) (\<lambda>r. case r of
          Inl e \<Rightarrow> then_do (kill chrome) (throw (''failed to start browser ffmpeg: '' @ e))
        | Inr ff \<Rightarrow>
            then_do (reg_put Browsers i chrome)
           (then_do (reg_put Normalizers i ff)
           (then_do (spawn_task (TBrowserShots i w (fps c)))
                    (spawn_task (TReadBrowser i public_tx)))))))
        (\<lambda>_. orphans_only {}) (\<lambda>_. orphans_only {}) t"
        by (rule wp_seq [OF R2], rule wp_attempt_spawn_orphans, assumption)
           (auto intro: after wp_kill_two)
    qed
  qed
  show ?thesis
    unfolding no_orphans_only [abs_def] start_browser_source_def
    by (rule preserves_wp) (rule body wp_seq map_err_spawn_orphans wp_reg_replace_orphans calm_wp calm_intros | assumption)+
qed

text \<open>C17: no operation of the ingests leaves an encoder running that nobody owns,
  on no path: a start that fails after it launched a process ends it, a
  restart ends the old one, a stop ends what it takes out.\<close>
theorem ingest_no_orphans:
  "preserves no_orphans (start_media_playback i p m) \<and>
   preserves no_orphans (start_concat_playback L i fs lp w h r) \<and>
   preserves no_orphans (start_normalizer L i) \<and>
   preserves no_orphans (start_srt_listener L i port pw) \<and>
   preserves no_orphans (start_browser_source L dt i url) \<and>
   preserves no_orphans (stop_media_playback i :: unit io) \<and>
   preserves no_orphans (stop_normalizer i :: unit io) \<and>
   preserves no_orphans (stop_srt_listener i :: unit io) \<and>
   preserves no_orphans (stop_browser_source i :: unit io)"
  by (intro conjI no_orphans_start_media no_orphans_start_concat no_orphans_start_normalizer
        no_orphans_start_srt no_orphans_start_browser)
     (simp_all add: no_orphans_only [abs_def] no_orphans_stops)

section \<open>SRT ports\<close>

text \<open>The port given to a new SRT source is one of the hundred of the range
  that no stored SRT source uses, when there is one; otherwise it is the port
  after the range, whether or not a source uses that one already.\<close>
theorem assigned_srt_port:
  assumes "next_fault s = None" and "srt_listeners s = (\<lambda>_. None)"
  shows "\<exists>p t. assign_srt_port L s = (Inr p, t) \<and>
    (let ports = set (srt_ports L (db s)); start = srt_port_range_start (cfg s)
     in (set (port_range start) \<subseteq> ports \<longrightarrow> p = start + 100) \<and>
        (\<not> set (port_range start) \<subseteq> ports \<longrightarrow> p \<in> set (port_range start) - ports))"
proof -
  let ?ports = "srt_ports L (db s)" and ?start = "srt_port_range_start (cfg s)"
  have "assign_srt_port L s = (Inr (case find (\<lambda>p. p \<notin> set ?ports) (port_range ?start) of
      Some p \<Rightarrow> p | None \<Rightarrow> ?start + 100), drop_fault s)"
    using assms by (simp add: assign_srt_port_def or_else_def sql_read_def fallible_def)
  then show ?thesis
    by (auto simp: find_None_iff Let_def dest: find_key_Some_in split: option.splits)
qed

lemma later_start_media [later_intros]: "later (start_media_playback i p m)"
  unfolding start_media_playback_def by (intro later_intros)

section \<open>Concrete runs\<close>

definition sample_stream :: bytes where
  "sample_stream = flv_header @ flv_video_tag [0x17, 0] 0 @ flv_video_tag [0x17, 1] 40 @ [9, 0]"


theorem reader_inverts_builder_witness:
  "sent (feed_relay 1 0 (flv_header @ flv_tag 9 [0x17, 0] 0 @ flv_tag 8 [0xAF] 3 @ [9, 0]) sample_state) 0 =
    [flv_tag 9 [0x17, 0] 0, flv_tag 8 [0xAF] 3]"
  using reader_inverts_builder [of "[(9, [0x17, 0], 0), (8, [0xAF], 3)]" "[9, 0]" 1 0 sample_state]
  by (simp add: next_tag_def read_exact_def sample_state_def initial_state_def)

theorem readers_keep_headers_ok_witness:
  "headers_ok (read_normalized_output 1 0 sample_stream sample_state)"
proof -
  have "headers_ok sample_state" by (simp add: headers_ok_def sample_state_def initial_state_def)
  then show ?thesis
    using readers_keep_headers_ok [of sample_state read_normalized_output 1 0 sample_stream] by simp
qed

theorem old_reader_kills_restarted_player_witness:
  "\<exists>c. media_players (snd (start_media_playback 1 ''brb.mp4'' ''loop'' sample_state)) 1 = Some c \<and>
    pid c \<notin> set (running (sys (feed_relay 1 0 sample_stream
      (snd (start_media_playback 1 ''brb.mp4'' ''loop'' sample_state)))))"
proof -
  have "start_media_playback 1 ''brb.mp4'' ''loop'' sample_state =
      (Inr (), snd (start_media_playback 1 ''brb.mp4'' ''loop'' sample_state))"
    by (simp add: start_media_playback_def get_or_create_media_relay_def map_err_def spawn_child_def
        fallible_def next_fault_def drop_fault_def set_sys_def sample_state_def initial_state_def
        idle_os_def Let_def reg_replace_def reg_stop_def reg_take_def kill_opt_def spawn_task_def)
  then show ?thesis
    using old_reader_kills_restarted_player [of 1 "''brb.mp4''" "''loop''" sample_state
        "snd (start_media_playback 1 ''brb.mp4'' ''loop'' sample_state)" sample_stream 0]
    by (auto simp: sample_stream_def flv_video_tag_def sample_state_def initial_state_def)
qed

definition srt_state :: app where
  "srt_state = sample_state\<lparr>cfg := (cfg sample_state)\<lparr>srt_port_range_start := 5\<rparr>,
     db := empty_db\<lparr>sources := [\<lparr>sr_id = ''1'', sr_name = ''cam'',
       sr_kind = sample_kind_to_json (Srt 5 None), sr_created_at = []\<rparr>]\<rparr>\<rparr>"

theorem assigned_srt_port_witness:
  "\<exists>p t. assign_srt_port sample_lib srt_state = (Inr p, t) \<and> p \<noteq> 5 \<and> p \<in> set (port_range 5)"
proof -
  have kind: "sample_kind_to_json (Srt 5 None) =
      ''{\"type\":'' @ ([CHR 0x22] @ ''srt'' @ [CHR 0x22]) @ '',\"port\":5}''"
    by code_simp
  have like: "sql_like (''%'' @ ([CHR 0x22] @ ''srt'' @ [CHR 0x22]) @ ''%'')
      (''{\"type\":'' @ ([CHR 0x22] @ ''srt'' @ [CHR 0x22]) @ '',\"port\":5}'')"
    by (rule sql_like_contains) simp
  have dec: "sample_kind_of_json ''{\"type\":\"srt\",\"port\":5}'' = Some (Srt 5 None)"
    by (simp add: sample_kind_of_json_def parse_u16_def parse_unsigned_def digit_val_def less_eq_char_def)
  have ports: "srt_ports sample_lib (db srt_state) = [5]"
    using like dec by (simp add: srt_ports_def srt_state_def sample_lib_def kind)
  have start: "srt_port_range_start (cfg srt_state) = 5"
    by (simp add: srt_state_def)
  have "6 \<in> set (port_range 5)"
    by (auto simp: port_range_def image_iff intro!: bexI [of _ 1])
  then have "\<not> set (port_range 5) \<subseteq> {5}" by auto
  moreover have "next_fault srt_state = None" "srt_listeners srt_state = (\<lambda>_. None)"
    by (simp_all add: srt_state_def sample_state_def initial_state_def next_fault_def idle_os_def)
  ultimately show ?thesis
    using assigned_srt_port [of srt_state sample_lib] by (auto simp: ports start Let_def)
qed

section \<open>Success without failing calls\<close>

lemma smooth_media [smooth_intros]:
  "smooth (start_media_playback i p m)" "smooth (stop_media_playback i)"
  unfolding start_media_playback_def stop_media_playback_def
  by (intro smooth_intros; simp add: remove_media_relay_def forget_headers_def)+

lemma smooth_concat_list [smooth_intros]: "smooth (concat_list fs)"
proof -
  have "smooth (or_else f (canonicalize f))" for f
    by (rule smooth_caught) (simp add: canonicalize_def fallible_def drop_fault_none split: option.split)
  then show ?thesis
    unfolding concat_list_def by (intro smooth_andThen smooth_mapM smooth_pure)
qed

lemma smooth_concat:
  "no_faults s \<Longrightarrow> fs \<noteq> [] \<Longrightarrow> \<exists>t. start_concat_playback L i fs lp w h r s = (Inr (), t) \<and> no_faults t"
proof -
  assume "no_faults s" "fs \<noteq> []"
  have "smooth (start_concat_playback L i fs lp w h r)"
    using \<open>fs \<noteq> []\<close> unfolding start_concat_playback_def Let_def check_def
    by simp (intro smooth_intros)
  then show ?thesis using \<open>no_faults s\<close> by (auto simp: smooth_def)
qed

end
