(* ===== verification/Pipeline.thy ===== *)
theory Pipeline
  imports Sample
begin

text \<open>
  The pipeline controller. \<open>controller.rs\<close> is the interface the handlers call;
  the server runs \<open>StubPipelineController\<close> (\<open>stub.rs\<close>), whose state is the
  pipeline state and the recording state. Start, stop and a stinger spawn a
  task that acts after a delay; the task is in \<open>tasks\<close>, and what it does when
  its timer fires is \<open>fire\<close>. (\<open>gst\_pipeline.rs\<close> is behind a feature that no
  build of the server enables.)
\<close>

section \<open>stub.rs\<close>

definition pipeline_start :: "destination list \<Rightarrow> (app, 'e, unit) prog" where
  "pipeline_start ds =
    then_do (modify (\<lambda>s. s\<lparr>pipe_state := PStarting\<rparr>))
   (then_do (ws_send (EvPipelineState PStarting))
            (spawn_task TPipelineLive))"

definition pipeline_stop :: "(app, 'e, unit) prog" where
  "pipeline_stop =
    then_do (modify (\<lambda>s. s\<lparr>pipe_state := PStopping\<rparr>))
   (then_do (ws_send (EvPipelineState PStopping))
            (spawn_task TPipelineIdle))"

definition pipeline_state_now :: "(app, 'e, pipeline_state) prog" where
  "pipeline_state_now = gets pipe_state"

definition add_destination :: "destination \<Rightarrow> (app, 'e, unit) prog" where
  "add_destination d = ok ()"

definition remove_destination :: "uuid \<Rightarrow> (app, 'e, unit) prog" where
  "remove_destination i = ok ()"

definition pipeline_activate_scene :: "uuid \<Rightarrow> (app, 'e, unit) prog" where
  "pipeline_activate_scene target = andThen (gets pipe_state) (\<lambda>st. case st of
      PLive started _ \<Rightarrow>
        then_do (modify (\<lambda>s. s\<lparr>pipe_state := PLive started target\<rparr>))
                (ws_send (EvPipelineState (PLive started target)))
    | _ \<Rightarrow> ok ())"

definition start_recording :: "string \<Rightarrow> (app, 'e, unit) prog" where
  "start_recording path = andThen now (\<lambda>t.
    then_do (modify (\<lambda>s. s\<lparr>rec_state :=
               \<lparr>recording = True, rec_path = Some path, rec_started_at = Some t\<rparr>\<rparr>))
            (ws_send (EvRecordingState True (Some path))))"

definition stop_recording :: "(app, 'e, unit) prog" where
  "stop_recording =
    then_do (modify (\<lambda>s. s\<lparr>rec_state :=
               \<lparr>recording = False, rec_path = None, rec_started_at = None\<rparr>\<rparr>))
            (ws_send (EvRecordingState False None))"

definition recording_state_now :: "(app, 'e, recording_state) prog" where
  "recording_state_now = gets rec_state"

definition trigger_stinger_transition :: "uuid \<Rightarrow> uuid \<Rightarrow> (app, 'e, unit) prog" where
  "trigger_stinger_transition stinger target =
    then_do (ws_send (EvTransitionStarted stinger target))
            (spawn_task (TPipelineStinger target))"

text \<open>The spawned tasks when their sleep is over: 500 ms after a start or a stop,
  1000 ms after a stinger.\<close>

definition timer_ms :: "task \<Rightarrow> nat" where
  "timer_ms t = (case t of TPipelineStinger _ \<Rightarrow> 1000 | _ \<Rightarrow> 500)"

definition fire :: "task \<Rightarrow> (app, 'e, unit) prog" where
  "fire t = (case t of
      TPipelineLive \<Rightarrow> andThen now (\<lambda>n.
        (let live_state = PLive n 0
         in then_do (modify (\<lambda>s. s\<lparr>pipe_state := live_state\<rparr>))
                    (ws_send (EvPipelineState live_state))))
    | TPipelineIdle \<Rightarrow>
        then_do (modify (\<lambda>s. s\<lparr>pipe_state := PIdle\<rparr>))
                (ws_send (EvPipelineState PIdle))
    | TPipelineStinger target \<Rightarrow> andThen (gets pipe_state) (\<lambda>st.
        then_do (case st of
            PLive started _ \<Rightarrow>
              then_do (modify (\<lambda>s. s\<lparr>pipe_state := PLive started target\<rparr>))
                      (ws_send (EvPipelineState (PLive started target)))
          | _ \<Rightarrow> ok ())
        (ws_send (EvTransitionComplete target)))
    | _ \<Rightarrow> ok ())"

section \<open>The interface the handlers rely on\<close>

text \<open>What go-live, stop and the scheduler read off the controller: a start
  leaves Idle at once, so a second start is refused; a stop leads to Idle once
  its timer fired; only a live pipeline changes its scene.\<close>

locale pipeline_controller =
  fixes begin_start :: "'s \<Rightarrow> 's"
    and begin_stop :: "'s \<Rightarrow> 's"
    and started :: "'s \<Rightarrow> 's"
    and stopped :: "'s \<Rightarrow> 's"
    and switch_scene :: "uuid \<Rightarrow> 's \<Rightarrow> 's"
    and state_of :: "'s \<Rightarrow> pipeline_state"
  assumes start_state: "state_of (begin_start s) = PStarting"
    and stop_state: "state_of (begin_stop s) = PStopping"
    and started_state: "\<exists>n. state_of (started s) = PLive n 0"
    and stopped_state: "state_of (stopped s) = PIdle"
    and scene_live: "state_of s = PLive n sc \<Longrightarrow> state_of (switch_scene i s) = PLive n i"
    and scene_other: "(\<forall>n sc. state_of s \<noteq> PLive n sc) \<Longrightarrow> state_of (switch_scene i s) = state_of s"
begin

definition settled :: "bool \<Rightarrow> 's \<Rightarrow> bool" where
  "settled on s \<longleftrightarrow> (if on then \<exists>n. state_of s = PLive n 0 else state_of s = PIdle)"

text \<open>Commands and timers in the order of time. Both delays are the same, so the
  timers fire in the order of the commands, and the last command decides.\<close>

fun command :: "bool \<Rightarrow> 's \<Rightarrow> 's" where
  "command True s = begin_start s"
| "command False s = begin_stop s"

fun timer :: "bool \<Rightarrow> 's \<Rightarrow> 's" where
  "timer True s = started s"
| "timer False s = stopped s"

lemma last_timer_settles:
  "cs \<noteq> [] \<Longrightarrow> settled (last cs) (fold timer cs s)"
proof (induction cs arbitrary: s)
  case (Cons c cs)
  then show ?case
    by (cases "cs = []"; cases c) (auto simp: settled_def started_state stopped_state)
qed simp

lemma second_start_refused: "state_of (begin_start s) \<noteq> PIdle"
  by (simp add: start_state)

lemma scene_keeps_live: "state_of s = PLive n sc \<Longrightarrow> \<exists>sc'. state_of (switch_scene i s) = PLive n sc'"
  using scene_live by blast

lemma scene_never_starts: "state_of s = PIdle \<Longrightarrow> state_of (switch_scene i s) = PIdle"
  using scene_other by simp

end

abbreviation run :: "(app, unit, unit) prog \<Rightarrow> app \<Rightarrow> app" where
  "run m s \<equiv> snd (m s)"

interpretation stub: pipeline_controller "run (pipeline_start ds)" "run pipeline_stop"
  "run (fire TPipelineLive)" "run (fire TPipelineIdle)" "\<lambda>i. run (pipeline_activate_scene i)" pipe_state
  for ds
  by unfold_locales
     (auto simp: pipeline_start_def pipeline_stop_def fire_def pipeline_activate_scene_def ws_send_def
       spawn_task_def set_sys_def now_def Let_def andThen_def split: pipeline_state.split)

section \<open>The last command wins\<close>

definition commands :: "bool list \<Rightarrow> app \<Rightarrow> app" where
  "commands cs s = fold (\<lambda>on. run (if on then pipeline_start [] else pipeline_stop)) cs s"

definition pipeline_timers :: "task list \<Rightarrow> task list" where
  "pipeline_timers ts = filter (\<lambda>t. t = TPipelineLive \<or> t = TPipelineIdle) ts"

lemma commands_tasks:
  "tasks (sys (commands cs s)) = tasks (sys s) @ map (\<lambda>on. if on then TPipelineLive else TPipelineIdle) cs"
  unfolding commands_def
proof (induction cs arbitrary: s)
  case (Cons c cs)
  then show ?case
    by (cases c) (auto simp: pipeline_start_def pipeline_stop_def ws_send_def spawn_task_def set_sys_def
        andThen_def)
qed simp

lemma fire_timers:
  "fold (\<lambda>t. run (fire t)) (map (\<lambda>on. if on then TPipelineLive else TPipelineIdle) cs) s =
   fold stub.timer cs s"
proof (induction cs arbitrary: s)
  case (Cons c cs)
  then show ?case by (cases c) simp_all
qed simp



section \<open>Frames\<close>

lemma pipeline_keeps [keeps_intros]:
  assumes "\<And>s x. f (s\<lparr>pipe_state := x\<rparr>) = f s" "\<And>s x. f (s\<lparr>ws_log := x\<rparr>) = f s" "frame f"
  shows "keeps f (pipeline_start ds)" "keeps f pipeline_stop" "keeps f (pipeline_activate_scene i)"
    "keeps f (fire t)"
  using assms
  by (auto simp: keeps_def pipeline_start_def pipeline_stop_def pipeline_activate_scene_def fire_def
      ws_send_def spawn_task_def frame_set_sys now_def Let_def andThen_def
      split: pipeline_state.split task.split)

lemma recording_keeps [keeps_intros]:
  assumes "\<And>s x. f (s\<lparr>rec_state := x\<rparr>) = f s" "\<And>s x. f (s\<lparr>ws_log := x\<rparr>) = f s" "frame f"
  shows "keeps f (start_recording p)" "keeps f stop_recording"
  using assms
  by (auto simp: keeps_def start_recording_def stop_recording_def ws_send_def now_def andThen_def)

section \<open>Success without failing calls\<close>

lemma smooth_pipeline [smooth_intros]:
  "smooth (pipeline_start ds)" "smooth pipeline_stop" "smooth (start_recording p)" "smooth stop_recording"
  "smooth (trigger_stinger_transition i j)"
  unfolding pipeline_start_def pipeline_stop_def start_recording_def stop_recording_def
    trigger_stinger_transition_def
  by (intro smooth_intros; simp)+

lemma smooth_activate [smooth_intros]: "smooth (pipeline_activate_scene i)"
  by (auto simp: smooth_def pipeline_activate_scene_def ws_send_def no_faults_def andThen_def split: pipeline_state.split)

end
