(* ===== verification/Egress.thy ===== *)
theory Egress
  imports Ingest Pipeline
begin

text \<open>
  The outputs: the RTMP egress (\<open>egress.rs\<close>), one ffmpeg per destination fed
  from \<open>program_tx\<close>; the HLS rendition for the watch page (\<open>channel_hls.rs\<close>); the
  restart the failover supervisor and the playout share (\<open>lib.rs\<close>); and the
  output settings with the restart that applies them
  (\<open>routes/output.rs\<close>, \<open>ensure_channel_hls\<close> of \<open>routes/stream.rs\<close>).
\<close>

section \<open>egress.rs\<close>

definition set_egress :: "(egress_manager \<Rightarrow> egress_manager) \<Rightarrow> app \<Rightarrow> app" where
  "set_egress f s = s\<lparr>egress := f (egress s)\<rparr>"

definition rtmp_url :: "destination_kind \<Rightarrow> string option" where
  "rtmp_url k = (case k of
      DRtmp url key \<Rightarrow> Some (url @ ''/'' @ key)
    | DRtmps url key \<Rightarrow> Some (url @ ''/'' @ key)
    | _ \<Rightarrow> None)"

definition egress_args :: "output_config option \<Rightarrow> string \<Rightarrow> string list" where
  "egress_args oc url =
    (let c = (case oc of None \<Rightarrow> default_output_config | Some c \<Rightarrow> c)
     in [''-hide_banner'', ''-loglevel'', ''info'', ''-f'', ''flv'', ''-i'', ''pipe:0''] @
        [''-vf'', canvas_filter c,
         ''-c:v'', ''libx264'', ''-preset'', ''medium'', ''-tune'', ''zerolatency'',
         ''-b:v'', kbps (video_bitrate_kbps c),
         ''-maxrate'', kbps (video_bitrate_kbps c),
         ''-bufsize'', kbps (video_bitrate_kbps c * 2),
         ''-g'', show_word (fps c * 2),
         ''-r'', show_word (fps c),
         ''-pix_fmt'', ''yuv420p'',
         ''-c:a'', ''aac'', ''-b:a'', kbps (audio_bitrate_kbps c), ''-ar'', ''48000'', ''-ac'', ''2''] @
        [''-f'', ''flv'', ''-flvflags'', ''no_duration_filesize'', url])"

text \<open>\<open>procs.insert(dest.id, ..)\<close>: a process already kept under the id is
  replaced, and dropped.\<close>

definition insert_process :: "uuid \<Rightarrow> egress_process \<Rightarrow> (app, 'e, unit) prog" where
  "insert_process i p = andThen (gets (\<lambda>s. map_of (processes (egress s)) i)) (\<lambda>old.
     then_do (modify (set_egress (\<lambda>g. g\<lparr>processes :=
       (if old = None then processes g @ [(i, p)]
        else map (\<lambda>(j, r). if j = i then (j, p) else (j, r)) (processes g))\<rparr>)))
     (kill_opt (map_option ep_child old)))"

definition egress_one :: "output_config option \<Rightarrow> seq_headers option \<Rightarrow> destination \<Rightarrow> unit io" where
  "egress_one oc seq d =
    (if \<not> dest_enabled d then ok ()
     else case rtmp_url (dest_kind d) of
       None \<Rightarrow> ok ()
     | Some url \<Rightarrow>
         andThen (map_err (\<lambda>e. ''failed to start ffmpeg for '' @ dest_name d @ '': '' @ e)
                   (spawn_child ''ffmpeg'' (egress_args oc url))) (\<lambda>child.
         then_do (spawn_task (TFeedEgress (dest_id d) (pid child) seq))
        (then_do (ws_send (EvDestinationState (dest_id d) ''connected''))
                 (insert_process (dest_id d) \<lparr>ep_child = child, ep_name = dest_name d\<rparr>))))"

definition egress_start ::
    "destination list \<Rightarrow> output_config option \<Rightarrow> seq_headers option \<Rightarrow> unit io" where
  "egress_start ds oc seq =
    then_do (modify (set_egress (\<lambda>g. g\<lparr>bytes_sent := 0\<rparr>)))
   (andThen now (\<lambda>t.
    then_do (modify (set_egress (\<lambda>g. g\<lparr>egress_started_at := Some t\<rparr>)))
   (then_do (modify (set_egress (\<lambda>g. g\<lparr>restart_params := Some (ds, oc)\<rparr>)))
            (forM (egress_one oc seq) ds))))"

definition egress_stop :: "(app, 'e, unit) prog" where
  "egress_stop = andThen (gets (\<lambda>s. processes (egress s))) (\<lambda>ps.
    then_do (modify (set_egress (\<lambda>g. g\<lparr>processes := []\<rparr>)))
            (forM (\<lambda>(i, p). then_do (kill (ep_child p))
                                    (ws_send (EvDestinationState i ''disconnected''))) ps))"

definition egress_is_running :: "app \<Rightarrow> bool" where
  "egress_is_running s \<longleftrightarrow> processes (egress s) \<noteq> []"

definition egress_restart :: "seq_headers option \<Rightarrow> (app, 'e, unit) prog" where
  "egress_restart seq = andThen (gets (\<lambda>s. restart_params (egress s))) (\<lambda>params. case params of
      None \<Rightarrow> ok ()
    | Some (ds, oc) \<Rightarrow>
        then_do egress_stop
       (then_do (sleep (from_millis 600))
                (ignore (egress_start ds oc seq))))"

definition set_output_config :: "output_config option \<Rightarrow> app \<Rightarrow> app" where
  "set_output_config oc = set_egress (\<lambda>g. g\<lparr>restart_params :=
     (case restart_params g of None \<Rightarrow> None | Some (ds, _) \<Rightarrow> Some (ds, oc))\<rparr>)"

text \<open>The task that feeds one encoder: the file header, the cached headers and
  the last keyframe, then every tag of the program until the pipe breaks or
  the channel closes. Each input is what the receiver returns and whether the
  write succeeds.\<close>

definition egress_prime :: "seq_headers option \<Rightarrow> bytes list" where
  "egress_prime seq = (case seq of None \<Rightarrow> [] | Some e \<Rightarrow>
     (case video e of None \<Rightarrow> [] | Some v \<Rightarrow> [v]) @
     (case audio e of None \<Rightarrow> [] | Some a \<Rightarrow> [a]) @
     (case last_keyframe e of None \<Rightarrow> [] | Some k \<Rightarrow> [k]))"

fun egress_feed :: "uuid \<Rightarrow> (recv \<times> bool) list \<Rightarrow> bytes list \<times> ws_event list" where
  "egress_feed i [] = ([], [])"
| "egress_feed i ((Got data, written) # ms) =
    (if written then (data # fst (egress_feed i ms), snd (egress_feed i ms))
     else ([], [EvDestinationState i ''error'']))"
| "egress_feed i ((Lagged n, w) # ms) = egress_feed i ms"
| "egress_feed i ((Closed, w) # ms) = ([], [])"

definition egress_input :: "uuid \<Rightarrow> seq_headers option \<Rightarrow> (recv \<times> bool) list \<Rightarrow> bytes list" where
  "egress_input i seq ms = flv_header # egress_prime seq @ fst (egress_feed i ms)"

section \<open>lib.rs\<close>

definition egress_restart_for :: "uuid \<Rightarrow> (app, 'e, unit) prog" where
  "egress_restart_for source = andThen (gets egress_is_running) (\<lambda>running.
     if running then andThen (gets (\<lambda>s. sequence_headers s source)) egress_restart else ok ())"

section \<open>channel_hls.rs\<close>

definition hls_args :: "output_config option \<Rightarrow> string \<Rightarrow> string list" where
  "hls_args oc hls_dir =
    (let c = (case oc of None \<Rightarrow> default_output_config | Some c \<Rightarrow> c)
     in [''-hide_banner'', ''-loglevel'', ''warning'', ''-f'', ''flv'', ''-i'', ''pipe:0'',
         ''-vf'', canvas_filter c,
         ''-c:v'', ''libx264'', ''-preset'', ''veryfast'', ''-tune'', ''zerolatency'',
         ''-b:v'', kbps (video_bitrate_kbps c),
         ''-maxrate'', kbps (video_bitrate_kbps c),
         ''-bufsize'', kbps (video_bitrate_kbps c * 2),
         ''-g'', show_word (fps c * 2),
         ''-r'', show_word (fps c),
         ''-force_key_frames'', ''expr:gte(t,n_forced*2)'',
         ''-pix_fmt'', ''yuv420p'',
         ''-c:a'', ''aac'', ''-b:a'', kbps (audio_bitrate_kbps c), ''-ar'', ''48000'', ''-ac'', ''2'',
         ''-f'', ''hls'', ''-hls_time'', ''2'', ''-hls_list_size'', ''6'',
         ''-hls_flags'', ''delete_segments+independent_segments'',
         ''-hls_segment_type'', ''mpegts'',
         ''-hls_segment_filename'', path_join hls_dir ''seg%05d.ts'',
         path_join hls_dir ''index.m3u8''])"

text \<open>The feeder of the watch page primes with the codec headers only.\<close>

definition hls_input :: "seq_headers option \<Rightarrow> (recv \<times> bool) list \<Rightarrow> bytes list" where
  "hls_input seq ms = flv_header #
     (case seq of None \<Rightarrow> [] | Some e \<Rightarrow>
       (case video e of None \<Rightarrow> [] | Some v \<Rightarrow> [v]) @ (case audio e of None \<Rightarrow> [] | Some a \<Rightarrow> [a])) @
     fst (egress_feed 0 ms)"

definition hls_is_running :: "app \<Rightarrow> bool" where
  "hls_is_running s \<longleftrightarrow> hls s \<noteq> None"

definition hls_stop :: "(app, 'e, unit) prog" where
  "hls_stop = andThen (gets hls) (\<lambda>old.
     then_do (modify (\<lambda>s. s\<lparr>hls := None\<rparr>)) (kill_opt old))"

text \<open>The stale files of the directory are removed as far as the system lets
  it; a failure to list it leaves all of them.\<close>

definition clear_dir :: "string \<Rightarrow> unit io" where
  "clear_dir dir = fallible (modify (set_sys (\<lambda>o1. o1\<lparr>files :=
     (\<lambda>p. if path_join dir (file_name p) = p then None else files o1 p)\<rparr>)))"

definition hls_start ::
    "string \<Rightarrow> string \<Rightarrow> output_config option \<Rightarrow> seq_headers option \<Rightarrow> unit io" where
  "hls_start token data oc seq =
    then_do hls_stop
   (let hls_dir = path_join (path_join data ''hls'') token in
    then_do (map_err (\<lambda>e. ''cannot create hls dir: '' @ e) (create_dir_all hls_dir))
   (then_do (ignore (clear_dir hls_dir))
   (andThen (map_err (\<lambda>e. ''failed to start ffmpeg for channel HLS: '' @ e)
              (spawn_child ''ffmpeg'' (hls_args oc hls_dir))) (\<lambda>child.
    then_do (spawn_task (TFeedChannel (pid child) seq))
   (andThen (gets hls) (\<lambda>old.
    then_do (modify (\<lambda>s. s\<lparr>hls := Some child\<rparr>)) (kill_opt old)))))))"

section \<open>ensure_channel_hls\<close>

definition is_broadcasting :: "pipeline_state \<Rightarrow> bool" where
  "is_broadcasting st \<longleftrightarrow> st \<noteq> PIdle \<and> st \<noteq> PStopping"

definition ensure_channel_hls :: "lib \<Rightarrow> (app, 'e, unit) prog" where
  "ensure_channel_hls L =
    andThen (ok_flatten (sql_read (\<lambda>d. map_option (\<lambda>r. (cr_enabled r, cr_token r)) (channel d)))) (\<lambda>row.
    andThen (gets (\<lambda>s. is_broadcasting (pipe_state s))) (\<lambda>broadcasting.
    case row of
      Some (enabled, token) \<Rightarrow>
        if enabled \<noteq> 0 \<and> broadcasting then
          andThen (gets (\<lambda>s. data_dir (cfg s))) (\<lambda>data.
          andThen (read_setting ''output_config'') (\<lambda>v.
          andThen (gets (\<lambda>s. Option.bind (cur (program_source s)) (sequence_headers s))) (\<lambda>seq.
          ignore (hls_start token data (Option.bind v (output_of_json L)) seq))))
        else hls_stop
    | None \<Rightarrow> hls_stop))"

section \<open>routes/output.rs\<close>

definition clamp :: "u32 \<Rightarrow> u32 \<Rightarrow> u32 \<Rightarrow> u32" where
  "clamp lo hi x = (if x < lo then lo else if x > hi then hi else x)"

definition clamp_config :: "output_config \<Rightarrow> output_config" where
  "clamp_config c = c\<lparr>width := clamp 160 3840 (width c),
     height := clamp 120 2160 (height c),
     fps := clamp 1 60 (fps c),
     video_bitrate_kbps := clamp 500 20000 (video_bitrate_kbps c),
     audio_bitrate_kbps := clamp 32 320 (audio_bitrate_kbps c)\<rparr>"

definition get_output_config :: "lib \<Rightarrow> output_config handler" where
  "get_output_config L = andThen (q (sql_read (\<lambda>d. settings d ''output_config''))) (\<lambda>row.
     ok (case row of
           Some json \<Rightarrow> (case output_of_json L json of Some c \<Rightarrow> c | None \<Rightarrow> default_output_config)
         | None \<Rightarrow> default_output_config))"

definition put_output_config :: "lib \<Rightarrow> output_config \<Rightarrow> output_config handler" where
  "put_output_config L c0 =
    (let c = clamp_config c0 in
     then_do (q (sql_exec (put_setting ''output_config'' (output_to_json L c))))
    (andThen (gets (\<lambda>s. is_broadcasting (pipe_state s))) (\<lambda>live.
     then_do
      (if live then
         then_do (modify (set_output_config (Some c)))
        (andThen (gets (\<lambda>s. cur (program_source s))) (\<lambda>src.
         then_do (case src of None \<Rightarrow> ok () | Some i \<Rightarrow> egress_restart_for i)
                 (ensure_channel_hls L)))
       else ok ())
      (ok c))))"

section \<open>Which destinations are on air\<close>

definition on_air :: "destination list \<Rightarrow> destination list" where
  "on_air ds = filter (\<lambda>d. dest_enabled d \<and> rtmp_url (dest_kind d) \<noteq> None) ds"

text \<open>The effect of one destination on the table of processes, without failures.\<close>

lemma egress_one_ok:
  assumes "no_faults s" "dest_id d \<notin> fst ` set (processes (egress s))"
  shows "\<exists>t. egress_one oc seq d s = (Inr (), t) \<and> no_faults t \<and>
    (if dest_enabled d \<and> rtmp_url (dest_kind d) \<noteq> None
     then \<exists>p. processes (egress t) = processes (egress s) @ [(dest_id d, p)] \<and>
        last (cargs (ep_child p)) = the (rtmp_url (dest_kind d)) \<and>
        pid (ep_child p) \<in> set (running (sys t)) \<and> set (running (sys s)) \<subseteq> set (running (sys t))
     else t = s)"
proof (cases "dest_enabled d \<and> rtmp_url (dest_kind d) \<noteq> None")
  case False
  then have "egress_one oc seq d s = (Inr (), s)"
    by (auto simp: egress_one_def split: option.split)
  then show ?thesis using assms(1) False by auto
next
  case True
  then obtain url where url: "dest_enabled d" "rtmp_url (dest_kind d) = Some url" by auto
  let ?c = "\<lparr>pid = next_pid (sys s), program = ''ffmpeg'', cargs = egress_args oc url\<rparr>"
  let ?p = "\<lparr>ep_child = ?c, ep_name = dest_name d\<rparr>"
  let ?s1 = "set_sys (\<lambda>o1. o1\<lparr>next_pid := Suc (next_pid (sys s)), running := next_pid (sys s) # running o1\<rparr>) s"
  let ?s2 = "set_sys (\<lambda>o1. o1\<lparr>tasks := tasks o1 @ [TFeedEgress (dest_id d) (next_pid (sys s)) seq]\<rparr>) ?s1"
  let ?s3 = "?s2\<lparr>ws_log := ws_log ?s2 @ [EvDestinationState (dest_id d) ''connected'']\<rparr>"
  let ?t = "set_egress (\<lambda>g. g\<lparr>processes := processes g @ [(dest_id d, ?p)]\<rparr>) ?s3"
  have none: "map_of (processes (egress s)) (dest_id d) = None"
    using assms(2) by (simp add: map_of_eq_None_iff)
  have eg: "egress ?s3 = egress s" by (simp add: set_sys_def)
  have "insert_process (dest_id d) ?p ?s3 = (Inr (), ?t)"
    by (simp add: insert_process_def eg none kill_opt_def)
  then have "egress_one oc seq d s = (Inr (), ?t)"
    by (simp add: egress_one_def url spawn_child_ok [OF assms(1)] map_err_def spawn_task_def ws_send_def)
  moreover have "no_faults ?t" "processes (egress ?t) = processes (egress s) @ [(dest_id d, ?p)]"
    "set (running (sys ?t)) = insert (pid ?c) (set (running (sys s)))"
    using assms(1) by (simp_all add: no_faults_def set_egress_def set_sys_def)
  moreover have "last (cargs ?c) = url" by (simp add: egress_args_def Let_def)
  ultimately show ?thesis using url by auto
qed

lemma egress_loop_ok:
  assumes "no_faults s" "distinct (map dest_id ds)"
    and "\<forall>d \<in> set ds. dest_id d \<notin> fst ` set (processes (egress s))"
  shows "\<exists>t ps. forM (egress_one oc seq) ds s = (Inr (), t) \<and>
    processes (egress t) = processes (egress s) @ ps \<and> map fst ps = map dest_id (on_air ds) \<and>
    map (last \<circ> cargs \<circ> ep_child \<circ> snd) ps = map (the \<circ> rtmp_url \<circ> dest_kind) (on_air ds) \<and>
    set (map (pid \<circ> ep_child \<circ> snd) ps) \<union> set (running (sys s)) \<subseteq> set (running (sys t))"
  using assms
proof (induction ds arbitrary: s)
  case Nil
  then show ?case by (auto simp: on_air_def)
next
  case (Cons d ds)
  obtain u where u: "egress_one oc seq d s = (Inr (), u)" "no_faults u"
    "(if dest_enabled d \<and> rtmp_url (dest_kind d) \<noteq> None
     then \<exists>p. processes (egress u) = processes (egress s) @ [(dest_id d, p)] \<and>
        last (cargs (ep_child p)) = the (rtmp_url (dest_kind d)) \<and>
        pid (ep_child p) \<in> set (running (sys u)) \<and> set (running (sys s)) \<subseteq> set (running (sys u))
     else u = s)"
    using egress_one_ok [of s d oc seq] Cons.prems by auto
  have "\<forall>e \<in> set ds. dest_id e \<notin> fst ` set (processes (egress u))"
  proof
    fix e assume e: "e \<in> set ds"
    have "fst ` set (processes (egress u)) \<subseteq> insert (dest_id d) (fst ` set (processes (egress s)))"
      using u(3) by (auto split: if_splits)
    moreover have "dest_id e \<noteq> dest_id d" using e Cons.prems(2) by (metis distinct.simps(2) image_eqI list.map(2) set_map)
    ultimately show "dest_id e \<notin> fst ` set (processes (egress u))" using e Cons.prems(3) by auto
  qed
  from Cons.IH [OF u(2) _ this] Cons.prems(2) obtain t ps where t:
    "forM (egress_one oc seq) ds u = (Inr (), t)"
    "processes (egress t) = processes (egress u) @ ps" "map fst ps = map dest_id (on_air ds)"
    "map (last \<circ> cargs \<circ> ep_child \<circ> snd) ps = map (the \<circ> rtmp_url \<circ> dest_kind) (on_air ds)"
    "set (map (pid \<circ> ep_child \<circ> snd) ps) \<union> set (running (sys u)) \<subseteq> set (running (sys t))"
    by (auto simp: comp_def)
  have run: "forM (egress_one oc seq) (d # ds) s = (Inr (), t)" using u(1) t(1) by simp
  show ?case
  proof (cases "dest_enabled d \<and> rtmp_url (dest_kind d) \<noteq> None")
    case True
    then obtain p where p: "processes (egress u) = processes (egress s) @ [(dest_id d, p)]"
      "last (cargs (ep_child p)) = the (rtmp_url (dest_kind d))"
      "pid (ep_child p) \<in> set (running (sys u))" "set (running (sys s)) \<subseteq> set (running (sys u))"
      using u(3) by auto
    have "on_air (d # ds) = d # on_air ds" using True by (simp add: on_air_def)
    then show ?thesis
      using run t p by (intro exI [of _ t] exI [of _ "(dest_id d, p) # ps"]) (auto simp: comp_def)
  next
    case False
    then have "u = s" "on_air (d # ds) = on_air ds" using u(3) by (auto simp: on_air_def)
    then show ?thesis using run t by (auto simp: comp_def)
  qed
qed

lemma egress_one_params: "keeps (\<lambda>s. restart_params (egress s)) (egress_one oc seq d)"
proof -
  have f: "frame (\<lambda>s. restart_params (egress s))" by (simp add: frame_def)
  show ?thesis
    unfolding egress_one_def insert_process_def ws_send_def
    by (intro keeps_intros f) (simp_all add: set_egress_def)
qed

lemma egress_loop_params: "keeps (\<lambda>s. restart_params (egress s)) (forM (egress_one oc seq) ds)"
  by (intro keeps_forM egress_one_params)

text \<open>With no egress running and no call failing, a start runs one encoder
  for exactly the enabled RTMP and RTMPS destinations, in their order, each
  with the destination's url and key as its output, and answers success.\<close>
theorem egress_start_exact:
  assumes "no_faults s" "processes (egress s) = []" "distinct (map dest_id ds)"
  shows "\<exists>t. egress_start ds oc seq s = (Inr (), t) \<and>
    map fst (processes (egress t)) = map dest_id (on_air ds) \<and>
    map (last \<circ> cargs \<circ> ep_child \<circ> snd) (processes (egress t)) =
      map (the \<circ> rtmp_url \<circ> dest_kind) (on_air ds) \<and>
    (\<forall>(i, p) \<in> set (processes (egress t)). pid (ep_child p) \<in> set (running (sys t))) \<and>
    restart_params (egress t) = Some (ds, oc)"
proof -
  let ?f = "\<lambda>g. g\<lparr>bytes_sent := 0, egress_started_at := Some (clock (sys s)),
    restart_params := Some (ds, oc)\<rparr>"
  let ?s = "set_egress ?f s"
  have start: "egress_start ds oc seq s = forM (egress_one oc seq) ds ?s"
    by (simp add: egress_start_def now_def set_egress_def)
  have "no_faults ?s" "processes (egress ?s) = []"
    using assms by (simp_all add: no_faults_def set_egress_def)
  then obtain t ps where
    t: "forM (egress_one oc seq) ds ?s = (Inr (), t)" "processes (egress t) = ps"
    "map fst ps = map dest_id (on_air ds)"
    "map (last \<circ> cargs \<circ> ep_child \<circ> snd) ps = map (the \<circ> rtmp_url \<circ> dest_kind) (on_air ds)"
    "set (map (pid \<circ> ep_child \<circ> snd) ps) \<subseteq> set (running (sys t))"
    using egress_loop_ok [OF _ assms(3), of ?s oc seq] by auto
  have "restart_params (egress t) = Some (ds, oc)"
    using keeps_run [OF egress_loop_params t(1)] by (simp add: set_egress_def)
  then show ?thesis using start t by fastforce
qed

theorem egress_start_exact_witness:
  "\<exists>t. egress_start
      [\<lparr>dest_id = 1, dest_name = ''a'', dest_kind = DRtmp ''rtmp://x'' ''k'', dest_enabled = True\<rparr>,
       \<lparr>dest_id = 2, dest_name = ''b'', dest_kind = DSrt ''srt://y'', dest_enabled = True\<rparr>,
       \<lparr>dest_id = 3, dest_name = ''c'', dest_kind = DRtmps ''rtmps://z'' ''k'', dest_enabled = False\<rparr>]
      None None sample_state = (Inr (), t) \<and>
    map fst (processes (egress t)) = [1] \<and>
    map (last \<circ> cargs \<circ> ep_child \<circ> snd) (processes (egress t)) = [''rtmp://x/k'']"
  using egress_start_exact [of sample_state
      "[\<lparr>dest_id = 1, dest_name = ''a'', dest_kind = DRtmp ''rtmp://x'' ''k'', dest_enabled = True\<rparr>,
       \<lparr>dest_id = 2, dest_name = ''b'', dest_kind = DSrt ''srt://y'', dest_enabled = True\<rparr>,
       \<lparr>dest_id = 3, dest_name = ''c'', dest_kind = DRtmps ''rtmps://z'' ''k'', dest_enabled = False\<rparr>]"
      None None]
  by (auto simp: no_faults_def sample_state_def initial_state_def idle_os_def egress_new_def
      on_air_def rtmp_url_def)

section \<open>Stopping and restarting\<close>

lemma stop_loop:
  "\<exists>t. forM (\<lambda>(i, p). then_do (kill (ep_child p)) (ws_send (EvDestinationState i ''disconnected''))) ps s =
     (Inr (), t) \<and> egress t = egress s \<and> faults (sys t) = faults (sys s) \<and>
   clock (sys t) = clock (sys s) \<and>
   set (running (sys t)) = set (running (sys s)) - set (map (pid \<circ> ep_child \<circ> snd) ps) \<and>
   ws_log t = ws_log s @ map (\<lambda>(i, p). EvDestinationState i ''disconnected'') ps"
proof (induction ps arbitrary: s)
  case (Cons x ps)
  obtain i p where x: "x = (i, p)" by (cases x)
  let ?u = "(set_sys (\<lambda>o1. o1\<lparr>running := removeAll (pid (ep_child p)) (running o1)\<rparr>) s)"
  let ?v = "?u\<lparr>ws_log := ws_log ?u @ [EvDestinationState i ''disconnected'']\<rparr>"
  show ?case
    using Cons.IH [of ?v] by (auto simp: x kill_def ws_send_def) (auto simp: set_sys_def)
qed simp

lemma egress_stop_effect:
  "\<exists>t. egress_stop s = (Inr (), t) \<and> processes (egress t) = [] \<and>
    restart_params (egress t) = restart_params (egress s) \<and> faults (sys t) = faults (sys s) \<and>
    set (running (sys t)) =
      set (running (sys s)) - set (map (pid \<circ> ep_child \<circ> snd) (processes (egress s))) \<and>
    ws_log t = ws_log s @ map (\<lambda>(i, p). EvDestinationState i ''disconnected'') (processes (egress s))"
  using stop_loop [of "processes (egress s)" "set_egress (\<lambda>g. g\<lparr>processes := []\<rparr>) s"]
  by (auto simp: egress_stop_def set_egress_def)

text \<open>A restart brings back the destinations of the last start: all old
  encoders are ended, and with no call failing the new ones are those of the
  enabled RTMP and RTMPS destinations of the remembered list, started with the
  remembered settings and primed with the given headers.\<close>
theorem egress_restart_same_destinations:
  assumes "no_faults s" "restart_params (egress s) = Some (ds, oc)" "distinct (map dest_id ds)"
  shows "\<exists>t. (egress_restart seq :: unit io) s = (Inr (), t) \<and>
    map fst (processes (egress t)) = map dest_id (on_air ds) \<and>
    restart_params (egress t) = Some (ds, oc)"
proof -
  obtain u where u: "(egress_stop :: unit io) s = (Inr (), u)" "processes (egress u) = []"
    "restart_params (egress u) = restart_params (egress s)" "faults (sys u) = faults (sys s)"
    using egress_stop_effect [of s] by auto
  let ?v = "set_sys (\<lambda>o1. o1\<lparr>clock := clock o1 + from_millis 600\<rparr>) u"
  have "no_faults ?v" "processes (egress ?v) = []"
    using assms(1) u by (simp_all add: no_faults_def set_sys_def)
  from egress_start_exact [OF this assms(3), of oc seq] obtain t where
    t: "egress_start ds oc seq ?v = (Inr (), t)" "map fst (processes (egress t)) = map dest_id (on_air ds)"
    "restart_params (egress t) = Some (ds, oc)" by auto
  then show ?thesis
    using u assms(2) by (simp add: egress_restart_def sleep_def)
qed

theorem egress_restart_same_destinations_witness:
  "\<exists>t. (egress_restart None :: unit io) (set_egress (\<lambda>g. g\<lparr>restart_params :=
      Some ([\<lparr>dest_id = 1, dest_name = ''a'', dest_kind = DRtmp ''rtmp://x'' ''k'', dest_enabled = True\<rparr>],
            None)\<rparr>) sample_state) = (Inr (), t) \<and>
    map fst (processes (egress t)) = [1]"
  using egress_restart_same_destinations [of "set_egress (\<lambda>g. g\<lparr>restart_params :=
      Some ([\<lparr>dest_id = 1, dest_name = ''a'', dest_kind = DRtmp ''rtmp://x'' ''k'', dest_enabled = True\<rparr>],
            None)\<rparr>) sample_state"
      "[\<lparr>dest_id = 1, dest_name = ''a'', dest_kind = DRtmp ''rtmp://x'' ''k'', dest_enabled = True\<rparr>]" None None]
  by (auto simp: no_faults_def sample_state_def initial_state_def idle_os_def egress_new_def
      set_egress_def on_air_def rtmp_url_def)

section \<open>Settings\<close>

text \<open>Whatever settings a client sends, the encoders are started with a
  canvas of 160x120 to 3840x2160, 1 to 60 frames per second and 500 to 20000
  kbit/s of video; for these the 32 bit products in the encoder arguments
  (twice the bitrate, twice the frame rate) do not wrap; and clamping twice
  changes nothing.\<close>
theorem clamped_output_config:
  "let d = clamp_config c
   in 160 \<le> width d \<and> width d \<le> 3840 \<and> 120 \<le> height d \<and> height d \<le> 2160 \<and>
      1 \<le> fps d \<and> fps d \<le> 60 \<and> 500 \<le> video_bitrate_kbps d \<and> video_bitrate_kbps d \<le> 20000 \<and>
      32 \<le> audio_bitrate_kbps d \<and> audio_bitrate_kbps d \<le> 320 \<and>
      unat (video_bitrate_kbps d * 2) = 2 * unat (video_bitrate_kbps d) \<and>
      unat (fps d * 2) = 2 * unat (fps d) \<and> clamp_config d = d"
proof -
  have range: "lo \<le> clamp lo hi x \<and> clamp lo hi x \<le> hi \<and> clamp lo hi (clamp lo hi x) = clamp lo hi x"
    if "lo \<le> hi" for lo hi x :: u32
    using that by (auto simp: clamp_def not_less)
  have double: "unat (x * 2) = 2 * unat x" if "x \<le> 20000" for x :: u32
  proof -
    have "unat x \<le> 20000" using that by (simp add: word_le_nat_alt)
    then have "unat x * 2 < 2 ^ 32" by simp
    then show ?thesis by (simp add: unat_word_ariths(2))
  qed
  note r = range [of 160 3840 "width c"] range [of 120 2160 "height c"] range [of 1 60 "fps c"]
      range [of 500 20000 "video_bitrate_kbps c"] range [of 32 320 "audio_bitrate_kbps c"]
  have "clamp 1 60 (fps c) \<le> 20000"
    using r(3) order_trans [of "clamp 1 60 (fps c)" 60 "20000 :: u32"] by simp
  note d = double [OF this] double [of "clamp 500 20000 (video_bitrate_kbps c)"]
  show ?thesis
    unfolding Let_def clamp_config_def using r d by simp
qed

lemma egress_keeps [keeps_intros]:
  assumes "\<And>s g. f (set_egress g s) = f s" "\<And>s x. f (s\<lparr>ws_log := x\<rparr>) = f s" "frame f"
  shows "keeps f (egress_start ds oc seq)" "keeps f egress_stop" "keeps f (egress_restart seq)"
    "keeps f (egress_restart_for i)"
proof -
  have one: "keeps f (egress_one oc seq d)" for oc seq d
    unfolding egress_one_def insert_process_def by (intro keeps_intros) (simp_all add: assms)
  have start: "keeps f (egress_start ds oc seq)" for ds oc seq
    unfolding egress_start_def by (intro keeps_intros one) (simp_all add: assms)
  have stop: "keeps f egress_stop"
    unfolding egress_stop_def by (intro keeps_intros) (simp_all add: assms)
  have restart: "keeps f (egress_restart seq)" for seq
    unfolding egress_restart_def by (intro keeps_intros start stop) (simp_all add: assms)
  show "keeps f (egress_start ds oc seq)" "keeps f egress_stop" "keeps f (egress_restart seq)"
    "keeps f (egress_restart_for i)"
    unfolding egress_restart_for_def by (intro keeps_intros start stop restart)+
qed

lemma hls_keeps [keeps_intros]:
  assumes "\<And>s x. f (s\<lparr>hls := x\<rparr>) = f s" "frame f"
  shows "keeps f hls_stop" "keeps f (hls_start tok dir oc seq)" "keeps f (ensure_channel_hls L)"
proof -
  have stop: "keeps f hls_stop"
    unfolding hls_stop_def by (intro keeps_intros) (simp_all add: assms)
  have start: "keeps f (hls_start tok dir oc seq)" for tok dir oc seq
    unfolding hls_start_def clear_dir_def Let_def
    by (intro keeps_intros stop) (simp_all add: assms frame_set_sys)
  show "keeps f hls_stop" "keeps f (hls_start tok dir oc seq)" "keeps f (ensure_channel_hls L)"
    unfolding ensure_channel_hls_def by (intro keeps_intros stop start assms(2))+
qed

lemma later_insert_process [later_intros]: "later (insert_process i p)"
  unfolding insert_process_def by (intro later_intros) (simp add: set_egress_def)

lemma later_egress [later_intros]:
  "later (egress_start ds oc seq)" "later egress_stop" "later (egress_restart seq)"
  "later (egress_restart_for i)"
proof -
  have one: "later (egress_one oc seq d)" for oc seq d
    unfolding egress_one_def by (intro later_intros)
  have start: "later (egress_start ds oc seq)" for ds oc seq
    unfolding egress_start_def by (intro later_intros one) (simp_all add: set_egress_def)
  have stop: "later egress_stop"
    unfolding egress_stop_def by (intro later_intros) (simp add: set_egress_def)
  have restart: "later (egress_restart seq)" for seq
    unfolding egress_restart_def by (intro later_intros start stop)
  show "later (egress_start ds oc seq)" "later (egress_restart seq)" "later (egress_restart_for i)"
    unfolding egress_restart_for_def by (intro later_intros start restart)+
  show "later egress_stop"
    unfolding egress_stop_def by (intro later_intros) (simp add: set_egress_def)
qed

lemma output_total [total_intros]:
  "never_fails egress_stop" "never_fails (egress_restart seq)" "never_fails (egress_restart_for i)"
  "never_fails hls_stop" "never_fails (ensure_channel_hls L)"
  unfolding egress_stop_def egress_restart_def egress_restart_for_def hls_stop_def ensure_channel_hls_def
  by (intro total_intros)+

text \<open>Putting the output settings, with no call failing, stores and answers
  exactly the clamped settings, whatever is on air and has to be restarted.\<close>
theorem put_output_config_stores:
  assumes "no_faults s"
  shows "\<exists>t. put_output_config L c s = (Inr (clamp_config c), t) \<and>
    settings (db t) ''output_config'' = Some (output_to_json L (clamp_config c))"
proof -
  let ?d = "clamp_config c"
  define rest :: "unit handler" where "rest =
    andThen (gets (\<lambda>s. is_broadcasting (pipe_state s))) (\<lambda>live.
      if live then
         then_do (modify (set_output_config (Some ?d)))
        (andThen (gets (\<lambda>s. cur (program_source s))) (\<lambda>src.
         then_do (case src of None \<Rightarrow> ok () | Some i \<Rightarrow> egress_restart_for i)
                 (ensure_channel_hls L)))
       else ok ())"
  let ?s = "s\<lparr>db := put_setting ''output_config'' (output_to_json L ?d) (db s)\<rparr>"
  have tot: "never_fails rest"
    unfolding rest_def by (intro total_intros)
  have db: "keeps db rest"
    unfolding rest_def by (intro keeps_intros frames) (simp_all add: set_output_config_def set_egress_def)
  have "put_output_config L c = then_do (q (sql_exec (put_setting ''output_config'' (output_to_json L ?d))))
      (andThen rest (\<lambda>_. ok ?d))"
    by (simp add: put_output_config_def rest_def andThen_assoc Let_def)
  then have "put_output_config L c s = andThen rest (\<lambda>_. ok ?d) ?s"
    using assms by (simp add: q_exec_ok)
  moreover obtain a where "rest ?s = (Inr a, snd (rest ?s))"
    using never_fails_run [OF tot] by blast
  moreover have "db (snd (rest ?s)) = db ?s" using keepsD [OF db] .
  ultimately show ?thesis by (simp add: put_setting_def)
qed

theorem put_output_config_stores_witness:
  "\<exists>t. put_output_config sample_lib (default_output_config\<lparr>width := 9999\<rparr>) sample_state =
      (Inr (default_output_config\<lparr>width := 3840\<rparr>), t)"
proof -
  have "clamp_config (default_output_config\<lparr>width := 9999\<rparr>) = default_output_config\<lparr>width := 3840\<rparr>"
    by (simp add: clamp_config_def clamp_def default_output_config_def)
  moreover have "no_faults sample_state"
    by (simp add: no_faults_def sample_state_def initial_state_def idle_os_def)
  ultimately show ?thesis
    using put_output_config_stores [of sample_state sample_lib "default_output_config\<lparr>width := 9999\<rparr>"] by auto
qed

section \<open>Success without failing calls\<close>

lemma smooth_outputs [smooth_intros]:
  "smooth (egress_start ds oc seq)" "smooth egress_stop" "smooth (egress_restart seq)"
  "smooth (egress_restart_for i)" "smooth hls_stop" "smooth (hls_start tok dir oc seq)"
  "smooth (ensure_channel_hls L)"
proof -
  have f [simp]: "faults (sys (set_egress g s)) = faults (sys s)" for g s
    by (simp add: set_egress_def)
  have one: "smooth (egress_one oc seq d)" for oc seq d
    unfolding egress_one_def insert_process_def by (intro smooth_intros; simp)
  have start: "smooth (egress_start ds oc seq)" for ds oc seq
    unfolding egress_start_def by (intro smooth_intros one; simp)
  have stop: "smooth egress_stop"
    unfolding egress_stop_def by (intro smooth_intros; simp)
  have restart: "smooth (egress_restart seq)" for seq
    unfolding egress_restart_def by (intro smooth_intros start stop)
  have hstop: "smooth hls_stop"
    unfolding hls_stop_def by (intro smooth_intros; simp)
  have hstart: "smooth (hls_start tok dir oc seq)" for tok dir oc seq
    unfolding hls_start_def clear_dir_def Let_def by (intro smooth_intros hstop; simp add: set_sys_def)
  show "smooth (egress_start ds oc seq)" "smooth egress_stop" "smooth (egress_restart seq)"
    "smooth (egress_restart_for i)" "smooth hls_stop" "smooth (hls_start tok dir oc seq)"
    "smooth (ensure_channel_hls L)"
    unfolding egress_restart_for_def ensure_channel_hls_def
    by (intro smooth_intros start stop restart hstop hstart)+
qed

end
