(* ===== verification/Failover.thy ===== *)
theory Failover
  imports Egress
begin

text \<open>
  The failover supervisor (\<open>failover.rs\<close>) and its settings
  (\<open>routes/failover.rs\<close>). The task either mirrors the operator's intent to the
  routed source or monitors the intended source and substitutes the fallback.
  \<open>sup\_step\<close> has one case per branch of its loops: the evaluation at the top,
  a change of the intent, a message of the intended source, a tick of the
  250 ms timer. Time is the clock of the server; \<open>sup\_trans\<close> lets it pass, and
  the rest of the server act, between two steps.
\<close>

section \<open>Helpers\<close>

definition is_video_tag :: "bytes \<Rightarrow> bool" where
  "is_video_tag data \<longleftrightarrow> data \<noteq> [] \<and> data ! 0 = FLV_TAG_VIDEO"

definition load_config :: "lib \<Rightarrow> (app, 'e, failover_config) prog" where
  "load_config L = load_setting (failover_of_json L) default_failover_config ''failover_config''"

definition route :: "uuid option \<Rightarrow> (app, 'e, unit) prog" where
  "route source = modify (set_program_source source)"

definition set_failover :: "bool \<Rightarrow> uuid option \<Rightarrow> uuid option \<Rightarrow> (app, 'e, unit) prog" where
  "set_failover active fallback intent =
    andThen (gets (\<lambda>s. cur (failover_active s) \<noteq> active)) (\<lambda>changed.
    then_do (modify (set_failover_active active))
            (if changed then ws_send (EvFailoverState active fallback intent) else ok ()))"

definition ensure_fallback_running :: "lib \<Rightarrow> uuid \<Rightarrow> (app, 'e, unit) prog" where
  "ensure_fallback_running L fallback =
    andThen (gets (get_media_relay fallback)) (\<lambda>relay. case relay of
      Some _ \<Rightarrow> ok ()
    | None \<Rightarrow>
        andThen (ok_flatten (sql_read (\<lambda>d. map_option sr_kind
          (find (\<lambda>r. sr_id r = show_uuid L fallback) (sources d))))) (\<lambda>row.
        case Option.bind row (kind_of_json L) of
          Some (MediaFile _ file_path loop_mode) \<Rightarrow>
            ignore (start_media_playback fallback file_path loop_mode)
        | _ \<Rightarrow> ok ()))"

section \<open>The supervisor\<close>

datatype sup_phase = Evaluating | Mirroring | Monitoring

record sup =
  sphase :: sup_phase
  seen_intent :: nat
  intended :: uuid
  fallback :: uuid
  grace :: failover_config
  watching :: "nat option"
  last_video :: instant
  recovering_since :: "instant option"
  showing_fallback :: bool
  ever_live :: bool

definition sup_init :: "nat \<Rightarrow> sup" where
  "sup_init v =
    \<lparr>sphase = Evaluating, seen_intent = v, intended = 0, fallback = 0, grace = default_failover_config,
     watching = None, last_video = 0, recovering_since = None, showing_fallback = False,
     ever_live = False\<rparr>"

definition offline_ns :: "failover_config \<Rightarrow> nat" where
  "offline_ns c = from_millis (unat (max (offline_grace_ms c) 250))"

definition recovery_ns :: "failover_config \<Rightarrow> nat" where
  "recovery_ns c = from_millis (unat (max (recovery_grace_ms c) 250))"

definition startup_ns :: "failover_config \<Rightarrow> nat" where
  "startup_ns c = max (offline_ns c) (from_secs 5)"

definition passthrough :: "failover_config \<Rightarrow> uuid option \<Rightarrow> bool" where
  "passthrough c intent \<longleftrightarrow> \<not> fo_enabled c \<or> fallback_source_id c = None \<or> intent = None \<or>
     fallback_source_id c = intent"

text \<open>The top of \<open>run_failover_supervisor\<close> and the start of \<open>monitor\<close>.\<close>

definition evaluate :: "lib \<Rightarrow> app \<times> sup \<Rightarrow> app \<times> sup" where
  "evaluate L = (\<lambda>(s, m).
    (let intent = cur (program_intent s);
         seen = version (program_intent s)
     in case (load_config L :: (app, unit, failover_config) prog) s of
          (Inl _, s1) \<Rightarrow> (s1, m)
        | (Inr c, s1) \<Rightarrow>
            if passthrough c intent then
              (run (then_do (set_failover False (fallback_source_id c) intent) (route intent)) s1,
               m\<lparr>sphase := Mirroring, seen_intent := seen\<rparr>)
            else
              (let main = the intent; fb = the (fallback_source_id c);
                   s2 = run (ensure_fallback_running L fb) s1;
                   s3 = run (then_do (route (Some main))
                              (set_failover False (Some fb) (Some main))) s2
               in (s3, \<lparr>sphase = Monitoring, seen_intent = seen, intended = main, fallback = fb,
                        grace = c, watching = get_media_relay main s2, last_video = clock (sys s2),
                        recovering_since = None, showing_fallback = False, ever_live = False\<rparr>))))"

definition on_frame :: "recv \<Rightarrow> app \<times> sup \<Rightarrow> app \<times> sup" where
  "on_frame msg = (\<lambda>(s, m). case msg of
      Got data \<Rightarrow>
        if is_video_tag data then
          (s, m\<lparr>last_video := clock (sys s), ever_live := True,
                recovering_since := (if showing_fallback m then
                    (case recovering_since m of None \<Rightarrow> Some (clock (sys s)) | Some t \<Rightarrow> Some t)
                  else recovering_since m)\<rparr>)
        else (s, m)
    | Lagged _ \<Rightarrow> (s, m)
    | Closed \<Rightarrow> (s, m\<lparr>watching := None\<rparr>))"

definition dark_for :: "app \<Rightarrow> sup \<Rightarrow> nat" where
  "dark_for s m = clock (sys s) - last_video m"

definition threshold :: "sup \<Rightarrow> nat" where
  "threshold m = (if ever_live m then offline_ns (grace m) else startup_ns (grace m))"

definition recovered :: "app \<Rightarrow> sup \<Rightarrow> bool" where
  "recovered s m \<longleftrightarrow> (case recovering_since m of None \<Rightarrow> False
     | Some since \<Rightarrow> clock (sys s) - since > recovery_ns (grace m))"

definition on_tick :: "lib \<Rightarrow> app \<times> sup \<Rightarrow> app \<times> sup" where
  "on_tick L = (\<lambda>(s, m0).
    (let m = (if watching m0 = None then m0\<lparr>watching := get_media_relay (intended m0) s\<rparr> else m0)
     in if \<not> showing_fallback m \<and> dark_for s m > threshold m then
          (run (then_do (ensure_fallback_running L (fallback m))
               (then_do (route (Some (fallback m)))
               (then_do (egress_restart_for (fallback m))
                        (set_failover True (Some (fallback m)) (Some (intended m)))))) s,
           m\<lparr>showing_fallback := True, recovering_since := None\<rparr>)
        else if showing_fallback m then
          (if dark_for s m > from_millis 750 then (s, m\<lparr>recovering_since := None\<rparr>)
           else if recovered s m then
             (run (then_do (route (Some (intended m)))
                  (then_do (egress_restart_for (intended m))
                           (set_failover False (Some (fallback m)) (Some (intended m))))) s,
              m\<lparr>showing_fallback := False, recovering_since := None\<rparr>)
           else (s, m))
        else (s, m)))"

datatype sup_event = Evaluate | IntentChanged | Frame recv | Tick

fun sup_step :: "lib \<Rightarrow> sup_event \<Rightarrow> app \<times> sup \<Rightarrow> app \<times> sup" where
  "sup_step L Evaluate c = evaluate L c"
| "sup_step L IntentChanged (s, m) =
    (s, m\<lparr>sphase := Evaluating, seen_intent := version (program_intent s)\<rparr>)"
| "sup_step L (Frame msg) c = on_frame msg c"
| "sup_step L Tick c = on_tick L c"

fun sup_ready :: "sup_event \<Rightarrow> app \<times> sup \<Rightarrow> bool" where
  "sup_ready Evaluate (s, m) = (sphase m = Evaluating)"
| "sup_ready IntentChanged (s, m) =
    (sphase m \<noteq> Evaluating \<and> changed_since (seen_intent m) (program_intent s))"
| "sup_ready (Frame msg) (s, m) = (sphase m = Monitoring \<and> watching m \<noteq> None)"
| "sup_ready Tick (s, m) = (sphase m = Monitoring)"

text \<open>Only the supervisor writes \<open>program_source\<close> and \<open>failover_active\<close>; the rest
  of the server leaves them alone, and time does not run backwards.\<close>

inductive sup_trans :: "lib \<Rightarrow> app \<times> sup \<Rightarrow> app \<times> sup \<Rightarrow> bool" for L where
  own: "sup_ready e c \<Longrightarrow> sup_trans L c (sup_step L e c)"
| other: "program_source t = program_source s \<Longrightarrow> failover_active t = failover_active s \<Longrightarrow>
    clock (sys s) \<le> clock (sys t) \<Longrightarrow> sup_trans L (s, m) (t, m)"

inductive sup_reach :: "lib \<Rightarrow> app \<times> sup \<Rightarrow> bool" for L where
  start: "sup_reach L (s, sup_init (version (program_intent s)))"
| step: "sup_reach L c \<Longrightarrow> sup_trans L c c' \<Longrightarrow> sup_reach L c'"

inductive_cases sup_transE: "sup_trans L c c'"

section \<open>routes/failover.rs\<close>

definition get_failover :: "lib \<Rightarrow> failover_config handler" where
  "get_failover L = load_config L"

definition put_failover :: "lib \<Rightarrow> failover_config \<Rightarrow> failover_config handler" where
  "put_failover L c =
    then_do (q (sql_exec (put_setting ''failover_config'' (failover_to_json L c))))
   (andThen (gets (\<lambda>s. cur (program_intent s))) (\<lambda>v.
    then_do (modify (set_program_intent v)) (ok c)))"

section \<open>What each helper does to the routed source and the flag\<close>

lemma media_keeps [keeps_intros]:
  assumes "\<And>s x. f (s\<lparr>media_players := x\<rparr>) = f s" "\<And>s x y. f (s\<lparr>media_relays := x, next_chan := y\<rparr>) = f s"
    and "frame f"
  shows "keeps f (start_media_playback i p m)"
proof -
  have relay: "keeps f (get_or_create_media_relay i)"
    using assms(2) by (simp add: keeps_def get_or_create_media_relay_def split: option.split)
  have rep: "keeps f (reg_replace Players i c)" for c
    unfolding reg_replace_def reg_stop_def
    by (intro keeps_intros) (simp_all add: assms(1,3) reg_take_def keeps_def)
  show ?thesis
    unfolding start_media_playback_def by (intro keeps_intros relay rep assms(3))
qed

lemma fallback_keeps [keeps_intros]:
  assumes "\<And>s x. f (s\<lparr>media_players := x\<rparr>) = f s" "\<And>s x y. f (s\<lparr>media_relays := x, next_chan := y\<rparr>) = f s"
    and "frame f"
  shows "keeps f (ensure_fallback_running L i)"
  unfolding ensure_fallback_running_def
  by (intro keeps_intros assms) (auto split: option.split source_kind.split intro!: keeps_intros assms)

definition routing_part :: "app \<Rightarrow> uuid option watch \<times> bool watch" where
  "routing_part s = (program_source s, failover_active s)"

lemma frame_routing_part [simp, intro!]: "frame routing_part"
  by (simp add: frame_def routing_part_def)

lemma routing_keeps:
  "keeps routing_part (ensure_fallback_running L i)" "keeps routing_part (egress_restart_for i)"
  "keeps routing_part (load_config L)"
  unfolding load_config_def
  by (intro keeps_intros frame_routing_part; simp add: routing_part_def set_egress_def)+

lemma supervisor_total [total_intros]:
  "never_fails (load_config L)" "never_fails (route v)" "never_fails (set_failover b x y)"
  "never_fails (ensure_fallback_running L i)"
  unfolding load_config_def route_def set_failover_def ensure_fallback_running_def
  by (intro total_intros | auto split: option.split source_kind.split intro!: total_intros)+

lemma snd_route [simp]: "snd (route v s) = set_program_source v s"
  by (simp add: route_def)

lemma set_failover_effect:
  "cur (failover_active (snd (set_failover b x y s))) = b"
  "program_source (snd (set_failover b x y s)) = program_source s"
  by (simp_all add: set_failover_def ws_send_def set_failover_active_def)

lemma source_after_route [simp]:
  "cur (program_source (set_program_source v s)) = v"
  by (simp add: set_program_source_def)

lemma kept_source:
  "program_source (snd ((ensure_fallback_running L i :: (app, 'e, unit) prog) s)) = program_source s"
  "program_source (snd ((egress_restart_for i :: (app, 'e, unit) prog) s)) = program_source s"
  "failover_active (snd ((ensure_fallback_running L i :: (app, 'e, unit) prog) s)) = failover_active s"
  "failover_active (snd ((egress_restart_for i :: (app, 'e, unit) prog) s)) = failover_active s"
  using keepsD [OF routing_keeps(1), where 'c = 'e] keepsD [OF routing_keeps(2), where 'c = 'e]
  by (auto simp: routing_part_def)

lemma later_fallback [later_intros]: "later (ensure_fallback_running L i)"
  unfolding ensure_fallback_running_def
  by (intro later_intros) (auto split: option.split source_kind.split intro!: later_intros)

lemma later_supervisor [later_intros]:
  "later (load_config L)" "later (route v)" "later (set_failover b x y)"
  unfolding load_config_def route_def set_failover_def
  by (intro later_intros; simp add: set_program_source_def set_failover_active_def)+

section \<open>What is on the program\<close>

definition sup_inv :: "app \<times> sup \<Rightarrow> bool" where
  "sup_inv c \<longleftrightarrow> (case c of (s, m) \<Rightarrow>
     (sphase m = Monitoring \<longrightarrow>
        cur (program_source s) = Some (if showing_fallback m then fallback m else intended m) \<and>
        cur (failover_active s) = showing_fallback m \<and> fallback m \<noteq> intended m \<and>
        (recovering_since m \<noteq> None \<longrightarrow> showing_fallback m) \<and> last_video m \<le> clock (sys s)) \<and>
     (sphase m = Mirroring \<longrightarrow> \<not> cur (failover_active s)))"

lemma frames_of_failover [simp]:
  "failover_active (set_program_source v s) = failover_active s"
  "sys (set_program_source v s) = sys s"
  by (simp_all add: set_program_source_def)

lemma evaluate_inv: "sup_inv (evaluate L c)"
proof -
  obtain s m where c: "c = (s, m)" by (cases c)
  obtain k s1 where load: "(load_config L :: (app, unit, failover_config) prog) s = (Inr k, s1)"
    using never_fails_run [OF supervisor_total(1)] by (metis prod.collapse)
  let ?main = "the (cur (program_intent s))" and ?fb = "the (fallback_source_id k)"
  let ?s2 = "run (ensure_fallback_running L ?fb) s1"
  let ?s3 = "run (then_do (route (Some ?main)) (set_failover False (Some ?fb) (Some ?main))) ?s2"
  have "cur (program_source ?s3) = Some ?main" "\<not> cur (failover_active ?s3)"
    by (simp_all add: snd_then [OF supervisor_total(2)] set_failover_effect)
  moreover have "clock (sys ?s2) \<le> clock (sys ?s3)"
    by (intro laterD later_intros)
  moreover have "\<not> passthrough k (cur (program_intent s)) \<Longrightarrow> ?fb \<noteq> ?main"
    by (auto simp: passthrough_def)
  ultimately show ?thesis
    by (auto simp: sup_inv_def c evaluate_def load Let_def snd_then [OF supervisor_total(3)]
        set_failover_effect)
qed

lemma tick_inv:
  assumes "sup_inv (s, m)" "sphase m = Monitoring"
  shows "sup_inv (on_tick L (s, m))"
proof -
  define m' where "m' = (if watching m = None then m\<lparr>watching := get_media_relay (intended m) s\<rparr> else m)"
  have m': "sphase m' = Monitoring" "fallback m' = fallback m" "intended m' = intended m"
    "showing_fallback m' = showing_fallback m" "last_video m' = last_video m"
    "recovering_since m' = recovering_since m"
    using assms(2) by (simp_all add: m'_def)
  let ?on = "run (then_do (ensure_fallback_running L (fallback m'))
               (then_do (route (Some (fallback m')))
               (then_do (egress_restart_for (fallback m'))
                        (set_failover True (Some (fallback m')) (Some (intended m')))))) s"
  let ?off = "run (then_do (route (Some (intended m')))
                  (then_do (egress_restart_for (intended m'))
                           (set_failover False (Some (fallback m')) (Some (intended m'))))) s"
  have "cur (program_source ?on) = Some (fallback m')" "cur (failover_active ?on)"
    "cur (program_source ?off) = Some (intended m')" "\<not> cur (failover_active ?off)"
    by (simp_all add: snd_then supervisor_total output_total set_failover_effect kept_source)
  moreover have "clock (sys s) \<le> clock (sys ?on)" "clock (sys s) \<le> clock (sys ?off)"
    by (intro laterD later_intros)+
  ultimately show ?thesis
    using assms m' by (auto simp: sup_inv_def on_tick_def Let_def m'_def [symmetric])
qed

lemma frame_inv:
  assumes "sup_inv (s, m)" "sphase m = Monitoring"
  shows "sup_inv (on_frame msg (s, m))"
  using assms by (cases msg) (auto simp: sup_inv_def on_frame_def split: option.split)

lemma sup_reach_sup_inv: "sup_reach L c \<Longrightarrow> sup_inv c"
proof (induction rule: sup_reach.induct)
  case (start s)
  then show ?case by (simp add: sup_inv_def sup_init_def)
next
  case (step c c')
  from step.hyps(2) show ?case
  proof cases
    case (own e)
    obtain s m where c: "c = (s, m)" by (cases c)
    show ?thesis
      using own step.IH tick_inv frame_inv evaluate_inv
      by (cases e) (auto simp: c sup_inv_def)
  next
    case (other t s m)
    then show ?thesis using step.IH by (auto simp: sup_inv_def)
  qed
qed

text \<open>C1: in every reachable state of the supervisor, however its steps
  interleave with the rest of the server: while it monitors, the routed source
  is the fallback exactly when the failover flag is set and the operator's
  source otherwise, and these two differ; while it mirrors, the flag is off.\<close>
theorem program_follows_failover_flag:
  assumes "sup_reach L (s, m)"
  shows "(sphase m = Monitoring \<longrightarrow> fallback m \<noteq> intended m \<and>
      cur (failover_active s) = showing_fallback m \<and>
      cur (program_source s) = Some (if cur (failover_active s) then fallback m else intended m)) \<and>
    (sphase m = Mirroring \<longrightarrow> \<not> cur (failover_active s))"
  using sup_reach_sup_inv [OF assms] by (auto simp: sup_inv_def)

text \<open>C2: a tick engages the failover exactly when the intended source has been
  dark for longer than the threshold: the offline grace, at least 250 ms, once
  a frame was seen, and at least five seconds before the first frame.\<close>
theorem failover_engages_iff_dark:
  assumes "sphase m = Monitoring" "\<not> showing_fallback m" "sup_step L Tick (s, m) = (s', m')"
  shows "(showing_fallback m' \<longleftrightarrow> dark_for s m > threshold m) \<and>
    (showing_fallback m' \<longrightarrow> cur (program_source s') = Some (fallback m) \<and> cur (failover_active s')) \<and>
    threshold m \<ge> from_millis 250 \<and> (\<not> ever_live m \<longrightarrow> threshold m \<ge> from_secs 5)"
proof -
  have "offline_ns c \<ge> from_millis 250" for c
    by (simp add: offline_ns_def from_millis_def max_def word_le_nat_alt)
  then have "threshold m \<ge> from_millis 250" "\<not> ever_live m \<longrightarrow> threshold m \<ge> from_secs 5"
    by (auto simp: threshold_def startup_ns_def intro: le_max_iff_disj [THEN iffD2])
  moreover have "dark_for s (m\<lparr>watching := w\<rparr>) = dark_for s m" "threshold (m\<lparr>watching := w\<rparr>) = threshold m" for w
    by (simp_all add: dark_for_def threshold_def)
  moreover have "cur (program_source (run (then_do (ensure_fallback_running L (fallback m))
               (then_do (route (Some (fallback m)))
               (then_do (egress_restart_for (fallback m))
                        (set_failover True (Some (fallback m)) (Some (intended m)))))) s)) = Some (fallback m)"
      "cur (failover_active (run (then_do (ensure_fallback_running L (fallback m))
               (then_do (route (Some (fallback m)))
               (then_do (egress_restart_for (fallback m))
                        (set_failover True (Some (fallback m)) (Some (intended m)))))) s))"
    by (simp_all add: snd_then supervisor_total output_total set_failover_effect kept_source)
  ultimately show ?thesis
    using assms by (auto simp: on_tick_def Let_def split: if_splits)
qed

text \<open>C3: a tick restores the operator's source exactly when it has produced video
  within the last 750 ms and has been recovering for longer than the recovery
  grace; a longer gap starts the recovery over.\<close>
theorem failover_restores_iff_recovered:
  assumes "sphase m = Monitoring" "showing_fallback m" "sup_step L Tick (s, m) = (s', m')"
  shows "(\<not> showing_fallback m' \<longleftrightarrow> dark_for s m \<le> from_millis 750 \<and> recovered s m) \<and>
    (\<not> showing_fallback m' \<longrightarrow> cur (program_source s') = Some (intended m) \<and> \<not> cur (failover_active s')) \<and>
    (dark_for s m > from_millis 750 \<longrightarrow> recovering_since m' = None)"
proof -
  have "dark_for s (m\<lparr>watching := w\<rparr>) = dark_for s m" "recovered s (m\<lparr>watching := w\<rparr>) = recovered s m" for w
    by (simp_all add: dark_for_def recovered_def split: option.split)
  moreover have "cur (program_source (run (then_do (route (Some (intended m)))
                  (then_do (egress_restart_for (intended m))
                           (set_failover False (Some (fallback m)) (Some (intended m))))) s)) = Some (intended m)"
      "\<not> cur (failover_active (run (then_do (route (Some (intended m)))
                  (then_do (egress_restart_for (intended m))
                           (set_failover False (Some (fallback m)) (Some (intended m))))) s))"
    by (simp_all add: snd_then supervisor_total output_total set_failover_effect kept_source)
  ultimately show ?thesis
    using assms by (auto simp: on_tick_def Let_def split: if_splits)
qed

section \<open>A configuration change during an outage\<close>

text \<open>What the evaluation leaves when failover is on for an intended source.\<close>

lemma evaluate_monitoring:
  assumes "(load_config L :: (app, unit, failover_config) prog) s = (Inr c, s1)"
    and "\<not> passthrough c (cur (program_intent s))" and "evaluate L (s, m) = (s', m')"
  shows "cur (program_source s') = cur (program_intent s) \<and> \<not> cur (failover_active s') \<and>
    sphase m' = Monitoring \<and> \<not> ever_live m' \<and> grace m' = c"
proof -
  have "cur (program_intent s) = Some (the (cur (program_intent s)))"
    using assms(2) by (auto simp: passthrough_def)
  then show ?thesis
    using assms by (auto simp: evaluate_def Let_def snd_then supervisor_total set_failover_effect)
qed

text \<open>Saving the failover settings while the fallback is on the program
  (which bumps the intent without changing it) makes the supervisor start over
  as if the source had never been seen: the next step puts the intended source
  back on the program and clears the flag however long that source has been
  dark, and no tick brings the fallback back before five more seconds.\<close>
theorem settings_saved_in_outage_drop_fallback:
  assumes "sphase m = Monitoring" "cur (program_intent s) = Some i"
    and "(load_config L :: (app, unit, failover_config) prog) s = (Inr c, s1)"
    and "\<not> passthrough c (Some i)"
    and "sup_step L Evaluate (sup_step L IntentChanged (s, m)) = (s', m')"
  shows "cur (program_source s') = Some i \<and> \<not> cur (failover_active s') \<and> threshold m' \<ge> from_secs 5 \<and>
    (\<forall>t. dark_for t m' \<le> from_secs 5 \<longrightarrow> \<not> showing_fallback (snd (sup_step L Tick (t, m'))))"
proof -
  have ev: "cur (program_source s') = Some i" "\<not> cur (failover_active s')" "\<not> ever_live m'"
    "\<not> showing_fallback m'" "sphase m' = Monitoring"
    using assms evaluate_monitoring [OF assms(3), of "m\<lparr>sphase := Evaluating, seen_intent := version (program_intent s)\<rparr>" s' m']
    by (auto simp: evaluate_def Let_def)
  then have thr: "threshold m' \<ge> from_secs 5"
    by (simp add: threshold_def startup_ns_def)
  have "dark_for t (m'\<lparr>watching := w\<rparr>) = dark_for t m'" "threshold (m'\<lparr>watching := w\<rparr>) = threshold m'" for t w
    by (simp_all add: dark_for_def threshold_def)
  then show ?thesis
    using ev thr by (auto simp: on_tick_def Let_def)
qed

section \<open>The fallback's player\<close>

text \<open>While a relay is registered under the fallback source, engaging it does
  not start its player: a fallback file whose player has ended (its relay is
  kept) goes on the program without any media.\<close>
theorem ended_fallback_is_not_restarted:
  assumes "media_relays s i = Some ch"
  shows "snd ((ensure_fallback_running L i :: (app, unit, unit) prog) s) = s"
  using assms by (simp add: ensure_fallback_running_def get_media_relay_def)

section \<open>Witnesses\<close>

text \<open>A server with failover to source 2 saved, the operator on source 1.\<close>

definition failover_state :: app where
  "failover_state = sample_state\<lparr>
     db := empty_db\<lparr>settings := (\<lambda>_. None)(''failover_config'' \<mapsto> ''on'')\<rparr>,
     program_intent := new_watch (Some 1),
     media_relays := (\<lambda>_. None)(2 \<mapsto> 7)\<rparr>"

definition monitored :: "bool \<Rightarrow> sup" where
  "monitored b = \<lparr>sphase = Monitoring, seen_intent = 0, intended = 1, fallback = 2,
     grace = default_failover_config, watching = None, last_video = 0,
     recovering_since = (if b then Some 0 else None), showing_fallback = b, ever_live = True\<rparr>"

lemma failover_state_load:
  "(load_config sample_lib :: (app, 'e, failover_config) prog) failover_state =
    (Inr (default_failover_config\<lparr>fo_enabled := True, fallback_source_id := Some 2\<rparr>), failover_state)"
  by (simp add: load_config_def load_setting_def read_setting_def ok_flatten_def sql_read_def
      fallible_def next_fault_def drop_fault_def set_sys_def failover_state_def sample_state_def
      initial_state_def idle_os_def sample_lib_def andThen_def)

lemma failover_reached:
  "sup_reach sample_lib (evaluate sample_lib (failover_state, sup_init 0))"
proof -
  have "sup_reach sample_lib (failover_state, sup_init (version (program_intent failover_state)))"
    by (rule sup_reach.start)
  moreover have "version (program_intent failover_state) = 0"
    by (simp add: failover_state_def new_watch_def)
  moreover have "sup_ready Evaluate (failover_state, sup_init 0)"
    by (simp add: sup_init_def)
  ultimately show ?thesis
    using sup_reach.step [OF _ sup_trans.own [of Evaluate]] by fastforce
qed

lemma program_follows_failover_flag_witness:
  "let c = evaluate sample_lib (failover_state, sup_init 0)
   in sphase (snd c) = Monitoring \<and> cur (program_source (fst c)) = Some 1 \<and> \<not> cur (failover_active (fst c))"
proof -
  let ?c = "evaluate sample_lib (failover_state, sup_init 0)"
  have "cur (program_intent failover_state) = Some 1"
    by (simp add: failover_state_def new_watch_def)
  then have "sphase (snd ?c) = Monitoring" "intended (snd ?c) = 1" "\<not> showing_fallback (snd ?c)"
    by (simp_all add: evaluate_def failover_state_load Let_def passthrough_def)
  moreover have "sup_reach sample_lib (fst ?c, snd ?c)" using failover_reached by simp
  ultimately show ?thesis
    using program_follows_failover_flag [of sample_lib "fst ?c" "snd ?c"]
    by (simp add: Let_def split: if_splits)
qed

lemma failover_engages_iff_dark_witness:
  "let s = set_sys (\<lambda>o1. o1\<lparr>clock := from_secs 4\<rparr>) failover_state;
       c = sup_step sample_lib Tick (s, monitored False)
   in showing_fallback (snd c) \<and> cur (program_source (fst c)) = Some 2"
proof -
  let ?s = "set_sys (\<lambda>o1. o1\<lparr>clock := from_secs 4\<rparr>) failover_state"
  have "dark_for ?s (monitored False) > threshold (monitored False)"
    by (simp add: dark_for_def threshold_def monitored_def set_sys_def offline_ns_def
        default_failover_config_def from_millis_def from_secs_def max_def word_le_nat_alt)
  then show ?thesis
    using failover_engages_iff_dark [of "monitored False" sample_lib ?s
        "fst (sup_step sample_lib Tick (?s, monitored False))" "snd (sup_step sample_lib Tick (?s, monitored False))"]
    by (auto simp: monitored_def Let_def)
qed

lemma failover_restores_iff_recovered_witness:
  "let s = set_sys (\<lambda>o1. o1\<lparr>clock := from_secs 4\<rparr>) failover_state;
       m = (monitored True)\<lparr>last_video := from_secs 4\<rparr>;
       c = sup_step sample_lib Tick (s, m)
   in \<not> showing_fallback (snd c) \<and> cur (program_source (fst c)) = Some 1"
proof -
  let ?s = "set_sys (\<lambda>o1. o1\<lparr>clock := from_secs 4\<rparr>) failover_state"
  let ?m = "(monitored True)\<lparr>last_video := from_secs 4\<rparr>"
  have "dark_for ?s ?m \<le> from_millis 750 \<and> recovered ?s ?m"
    by (simp add: dark_for_def recovered_def monitored_def set_sys_def recovery_ns_def
        default_failover_config_def from_millis_def from_secs_def max_def word_le_nat_alt)
  then show ?thesis
    using failover_restores_iff_recovered [of ?m sample_lib ?s
        "fst (sup_step sample_lib Tick (?s, ?m))" "snd (sup_step sample_lib Tick (?s, ?m))"]
    by (auto simp: monitored_def Let_def)
qed

lemma settings_saved_in_outage_drop_fallback_witness:
  "let c = sup_step sample_lib Evaluate (sup_step sample_lib IntentChanged (failover_state, monitored True))
   in cur (program_source (fst c)) = Some 1 \<and> \<not> cur (failover_active (fst c))"
proof -
  let ?c = "sup_step sample_lib Evaluate (sup_step sample_lib IntentChanged (failover_state, monitored True))"
  have "cur (program_intent failover_state) = Some 1"
    by (simp add: failover_state_def new_watch_def)
  then show ?thesis
    using settings_saved_in_outage_drop_fallback
      [of "monitored True" failover_state 1 sample_lib _ _ "fst ?c" "snd ?c", OF _ _ failover_state_load]
    by (simp add: monitored_def passthrough_def Let_def)
qed

lemma ended_fallback_is_not_restarted_witness:
  "snd ((ensure_fallback_running sample_lib 2 :: (app, unit, unit) prog) failover_state) = failover_state"
  by (rule ended_fallback_is_not_restarted [of _ _ 7]) (simp add: failover_state_def)

end
