(* ===== verification/Playout.thy ===== *)
theory Playout
  imports Egress "HOL-Library.List_Lexorder"
begin

text \<open>
  Airing a schedule (\<open>playout.rs\<close>): what is loaded from the database, the start
  of the broadcast (\<open>bc\_begin\<close>, everything before the first wait), the wait for
  the end of the programme or for the operator, and what is torn down after
  it. The spawned task of \<open>start\_broadcast\<close> is the step relation \<open>bc\_trans\<close>:
  other parts of the server, other broadcasts among them, act in between.
\<close>

section \<open>What a broadcast loads\<close>

type_synonym playlist = "string list \<times> u64"

text \<open>\<open>dur.max(0) as u64\<close> of a column read as \<open>i64\<close>.\<close>

definition duration_u64 :: "i64 \<Rightarrow> u64" where
  "duration_u64 d = (if sint d < 0 then 0 else d)"

fun load_files :: "string list \<Rightarrow> playlist io" where
  "load_files [] = ok ([], 0)"
| "load_files (ref_id # refs) =
    andThen (sql_read (\<lambda>d. find (\<lambda>r. ar_id r = ref_id) (assets d))) (\<lambda>a.
    andThen (load_files refs) (\<lambda>(fs, total).
      ok (case a of None \<Rightarrow> (fs, total)
          | Some r \<Rightarrow> (ar_file_path r # fs, duration_u64 (ar_duration_ms r) + total))))"

definition vod_refs :: "string \<Rightarrow> db \<Rightarrow> string list" where
  "vod_refs sid d = map ir_ref_id (sort_key (\<lambda>r. sint (ir_position r))
     (filter (\<lambda>r. ir_schedule_id r = sid \<and> ir_item_kind r = ''vod'') (schedule_items d)))"

definition load_playlist :: "lib \<Rightarrow> uuid \<Rightarrow> playlist io" where
  "load_playlist L schedule_id =
    andThen (sql_read (vod_refs (show_uuid L schedule_id))) (\<lambda>rows.
    then_do (check (rows \<noteq> []) ''schedule has no VOD items'')
   (andThen (load_files rows) (\<lambda>(fs, total).
    then_do (check (fs \<noteq> []) ''no playable VOD assets'') (ok (fs, total)))))"

definition schedule_col :: "(schedule_row \<Rightarrow> 'a) \<Rightarrow> string \<Rightarrow> db \<Rightarrow> 'a option" where
  "schedule_col f sid d = map_option f (find (\<lambda>r. sd_id r = sid) (schedules d))"

definition load_standby_asset :: "lib \<Rightarrow> uuid \<Rightarrow> (app, 'e, string option) prog" where
  "load_standby_asset L schedule_id =
    andThen (ok_flatten (sql_read (schedule_col sd_standby_asset_id (show_uuid L schedule_id)))) (\<lambda>sid.
    case Option.bind sid id of
      None \<Rightarrow> ok None
    | Some asset_id \<Rightarrow>
        ok_flatten (sql_read (\<lambda>d. map_option ar_file_path (find (\<lambda>r. ar_id r = asset_id) (assets d)))))"

definition load_end_behavior :: "lib \<Rightarrow> uuid \<Rightarrow> (app, 'e, end_behavior) prog" where
  "load_end_behavior L schedule_id =
    andThen (ok_flatten (sql_read (schedule_col sd_end_behavior (show_uuid L schedule_id)))) (\<lambda>row.
    ok (case row of None \<Rightarrow> EndStop | Some b \<Rightarrow> end_behavior_from_db b))"

text \<open>A destination row whose kind does not parse is left out.\<close>

definition row_to_destination :: "lib \<Rightarrow> dest_row \<Rightarrow> destination option" where
  "row_to_destination L r = map_option (\<lambda>k.
     \<lparr>dest_id = (case parse_uuid L (dr_id r) of None \<Rightarrow> 0 | Some i \<Rightarrow> i), dest_name = dr_name r,
      dest_kind = k, dest_enabled = (dr_enabled r \<noteq> 0)\<rparr>) (dest_of_json L (dr_kind r))"

definition rows_to_destinations :: "lib \<Rightarrow> dest_row list \<Rightarrow> destination list" where
  "rows_to_destinations L rs = List.map_filter (row_to_destination L) rs"

fun selected_rows :: "string list \<Rightarrow> (app, 'e, dest_row list) prog" where
  "selected_rows [] = ok []"
| "selected_rows (i # is) =
    andThen (ok_flatten (sql_read (\<lambda>d. find (\<lambda>r. dr_id r = i \<and> dr_enabled r = 1) (destinations d)))) (\<lambda>row.
    andThen (selected_rows is) (\<lambda>acc. ok (case row of None \<Rightarrow> acc | Some r \<Rightarrow> r # acc)))"

definition load_destinations :: "lib \<Rightarrow> uuid \<Rightarrow> (app, 'e, destination list) prog" where
  "load_destinations L schedule_id =
    andThen (ok_flatten (sql_read (schedule_col sd_destination_ids (show_uuid L schedule_id)))) (\<lambda>row.
    (let ids = (case Option.bind row (strings_of_json L) of None \<Rightarrow> [] | Some is \<Rightarrow> is) in
     andThen (if ids = [] then or_else [] (sql_read (\<lambda>d. filter (\<lambda>r. dr_enabled r = 1) (destinations d)))
              else selected_rows ids) (\<lambda>rows.
     ok (rows_to_destinations L rows))))"

definition record_run :: "lib \<Rightarrow> uuid \<Rightarrow> string \<Rightarrow> (app, 'e, unit) prog" where
  "record_run L schedule_id status =
    andThen (fresh_uuid L) (\<lambda>i. andThen now (\<lambda>t.
    ignore (sql_exec (\<lambda>d. d\<lparr>schedule_runs := schedule_runs d @
      [\<lparr>rr_id = show_uuid L i, rr_schedule_id = show_uuid L schedule_id,
        rr_started_at = Some (rfc3339 L t), rr_ended_at = None, rr_status = status\<rparr>]\<rparr>))))"

definition mark_run_ended :: "lib \<Rightarrow> uuid \<Rightarrow> (app, 'e, unit) prog" where
  "mark_run_ended L schedule_id = andThen now (\<lambda>t.
    ignore (sql_exec (\<lambda>d. d\<lparr>schedule_runs :=
      update_where (\<lambda>r. rr_schedule_id r = show_uuid L schedule_id \<and> rr_ended_at r = None)
        (\<lambda>r. r\<lparr>rr_ended_at := Some (rfc3339 L t)\<rparr>) (schedule_runs d)\<rparr>)))"

definition ensure_standby :: "lib \<Rightarrow> string option \<Rightarrow> (app, 'e, uuid option) prog" where
  "ensure_standby L standby = (case standby of
      None \<Rightarrow> ok None
    | Some p \<Rightarrow> andThen (fresh_uuid L) (\<lambda>i.
        then_do (ignore (start_media_playback i p ''loop''))
       (then_do (sleep (from_millis 400)) (ok (Some i)))))"

section \<open>The broadcast\<close>

record airing =
  air_vod :: uuid
  air_end :: end_behavior
  air_standby :: "string option"
  air_until :: instant

text \<open>\<open>run_broadcast\<close> up to its first wait: what it loads, the start of the
  player with the broadcast marked as the active one, and then, with the media
  flowing, the switch of the program and the outputs.\<close>

definition bc_load :: "lib \<Rightarrow> uuid \<Rightarrow> (playlist \<times> end_behavior \<times> string option \<times> destination list) io" where
  "bc_load L schedule_id =
    andThen (load_playlist L schedule_id) (\<lambda>pl.
    andThen (load_end_behavior L schedule_id) (\<lambda>ends.
    andThen (load_standby_asset L schedule_id) (\<lambda>standby.
    andThen (load_destinations L schedule_id) (\<lambda>ds.
    ok (pl, ends, standby, ds)))))"

definition bc_player :: "lib \<Rightarrow> uuid \<Rightarrow> string list \<Rightarrow> end_behavior \<Rightarrow> (uuid \<times> output_config) io" where
  "bc_player L schedule_id fs ends =
    then_do (modify (set_active_schedule (Some schedule_id)))
   (then_do (record_run L schedule_id ''ran'')
   (then_do (ws_send (EvScheduleStarted schedule_id))
   (andThen (load_output_config L) (\<lambda>c.
    andThen (fresh_uuid L) (\<lambda>vod.
    then_do (map_err (\<lambda>e. ''playlist playback: '' @ e)
       (start_concat_playback L vod fs (ends = EndLoop) (width c) (height c) (fps c)))
       (ok (vod, c)))))))"

definition bc_outputs :: "lib \<Rightarrow> uuid \<Rightarrow> destination list \<Rightarrow> output_config \<Rightarrow> (app, 'e, unit) prog" where
  "bc_outputs L vod ds c =
    then_do (sleep (from_millis 500))
   (then_do (modify (set_program_intent (Some vod)))
   (then_do (pipeline_start [])
   (andThen (gets (\<lambda>s. sequence_headers s vod)) (\<lambda>seq.
    then_do (ignore (egress_start ds (Some c) seq))
            (ensure_channel_hls L)))))"

definition bc_begin :: "lib \<Rightarrow> uuid \<Rightarrow> airing io" where
  "bc_begin L schedule_id =
    andThen (bc_load L schedule_id) (\<lambda>((fs, total_ms), ends, standby, ds).
    andThen (bc_player L schedule_id fs ends) (\<lambda>(vod, c).
    then_do (bc_outputs L vod ds c)
   (andThen now (\<lambda>t.
    ok \<lparr>air_vod = vod, air_end = ends, air_standby = standby,
        air_until = t + from_millis (max (unat total_ms) 1000)\<rparr>))))"

text \<open>After the wait: the operator ended it, or the programme is over.\<close>

definition bc_deactivated :: "airing \<Rightarrow> (app, 'e, unit) prog" where
  "bc_deactivated a = stop_media_playback (air_vod a)"

definition take_off_air :: "(app, 'e, unit) prog" where
  "take_off_air =
    then_do egress_stop
   (then_do hls_stop
   (then_do pipeline_stop
   (then_do (modify (set_program_intent None))
            (modify (set_active_schedule None)))))"

definition bc_elapsed :: "lib \<Rightarrow> uuid \<Rightarrow> airing \<Rightarrow> (app, 'e, unit) prog" where
  "bc_elapsed L schedule_id a =
    then_do (stop_media_playback (air_vod a))
    (case air_end a of
      EndStandby \<Rightarrow> andThen (ensure_standby L (air_standby a)) (\<lambda>sid. case sid of
          None \<Rightarrow> ok ()
        | Some i \<Rightarrow> then_do (modify (set_program_intent (Some i)))
                  (then_do (egress_restart_for i) (ensure_channel_hls L)))
    | _ \<Rightarrow> then_do take_off_air
          (then_do (ws_send (EvScheduleEnded schedule_id)) (mark_run_ended L schedule_id)))"

definition start_broadcast :: "uuid \<Rightarrow> (app, 'e, unit) prog" where
  "start_broadcast schedule_id = spawn_task (TRunBroadcast schedule_id)"

definition stop_broadcast :: "lib \<Rightarrow> (app, 'e, unit) prog" where
  "stop_broadcast L = andThen (gets (\<lambda>s. cur (active_schedule s))) (\<lambda>i.
    then_do take_off_air
    (case i of None \<Rightarrow> ok ()
     | Some i \<Rightarrow> then_do (ws_send (EvScheduleEnded i)) (mark_run_ended L i)))"

section \<open>The spawned task\<close>

datatype bcast = Spawned | OnAir airing | Over

definition bc_failed :: "lib \<Rightarrow> uuid \<Rightarrow> (app, 'e, unit) prog" where
  "bc_failed L schedule_id =
    then_do (record_run L schedule_id ''error'') (modify (set_active_schedule None))"

definition bc_first :: "lib \<Rightarrow> uuid \<Rightarrow> app \<Rightarrow> app \<times> bcast" where
  "bc_first L i s = (case bc_begin L i s of
      (Inr a, t) \<Rightarrow> (t, OnAir a)
    | (Inl e, t) \<Rightarrow> (run (bc_failed L i) t, Over))"

inductive bc_trans :: "lib \<Rightarrow> uuid \<Rightarrow> app \<times> bcast \<Rightarrow> app \<times> bcast \<Rightarrow> bool" for L i where
  spawned: "bc_trans L i (s, Spawned) (bc_first L i s)"
| deactivated: "cur (active_schedule s) \<noteq> Some i \<Longrightarrow>
    bc_trans L i (s, OnAir a) (run (bc_deactivated a) s, Over)"
| elapsed: "air_end a \<noteq> EndLoop \<Longrightarrow> air_until a \<le> clock (sys s) \<Longrightarrow>
    bc_trans L i (s, OnAir a) (run (bc_elapsed L i a) s, Over)"

inductive_cases bc_overE: "bc_trans L i (s, Over) c"
inductive_cases bc_onairE: "bc_trans L i (s, OnAir a) c"

section \<open>What the programme is made of\<close>

lemma load_files_ok:
  assumes "no_faults s"
  shows "load_files refs s =
    (let found = List.map_filter (\<lambda>i. find (\<lambda>r. ar_id r = i) (assets (db s))) refs
     in (Inr (map ar_file_path found, sum_list (map (duration_u64 \<circ> ar_duration_ms) found)), s))"
proof (induction refs)
  case Nil
  then show ?case by (simp add: List.map_filter_def)
next
  case (Cons i refs)
  have "sql_read (\<lambda>d. find (\<lambda>r. ar_id r = i) (assets d)) s = (Inr (find (\<lambda>r. ar_id r = i) (assets (db s))), s)"
    using assms by (simp add: sql_read_def fallible_def drop_fault_none)
  then show ?case
    using Cons by (simp add: Let_def List.map_filter_def split: option.split)
qed

text \<open>With no call failing, the programme of a schedule is the files of its VOD
  items in the order of their positions, those whose asset is gone left out,
  and lasts the sum of their durations (a negative one counting as zero); a
  schedule without VOD items or without any playable one is refused.\<close>
theorem playlist_of_schedule:
  assumes "no_faults s"
  shows "load_playlist L i s =
    (let refs = vod_refs (show_uuid L i) (db s);
         found = List.map_filter (\<lambda>k. find (\<lambda>r. ar_id r = k) (assets (db s))) refs
     in if refs = [] then (Inl ''schedule has no VOD items'', s)
        else if found = [] then (Inl ''no playable VOD assets'', s)
        else (Inr (map ar_file_path found, sum_list (map (duration_u64 \<circ> ar_duration_ms) found)), s)) \<and>
    sorted (map (\<lambda>r. sint (ir_position r)) (sort_key (\<lambda>r. sint (ir_position r))
      (filter (\<lambda>r. ir_schedule_id r = show_uuid L i \<and> ir_item_kind r = ''vod'') (schedule_items (db s)))))"
proof -
  have "sql_read (vod_refs (show_uuid L i)) s = (Inr (vod_refs (show_uuid L i) (db s)), s)"
    using assms by (simp add: sql_read_def fallible_def drop_fault_none)
  then show ?thesis
    by (auto simp: load_playlist_def load_files_ok [OF assms] Let_def andThen_def split: if_splits)
qed

lemma wp_selected_rows:
  "wp (selected_rows is) (\<lambda>rs t. db t = db s \<and> (\<forall>r \<in> set rs. r \<in> set (destinations (db s)) \<and> dr_enabled r = 1))
     E s'" if "db s' = db s"
  using that
proof (induction "is" arbitrary: s')
  case (Cons i "is")
  show ?case
    using Cons.prems
    by (auto simp: wp_simps sql_read_def split: option.split intro!: wp_mono [OF Cons.IH]
        dest!: find_key_Some_in)
qed (simp add: wp_simps)

lemma wp_enabled_rows:
  assumes "db u = db s"
  shows "wp (if ids = [] then or_else [] (sql_read (\<lambda>d. filter (\<lambda>r. dr_enabled r = 1) (destinations d)))
       else selected_rows ids)
    (\<lambda>rows t. db t = db s \<and> (\<forall>r \<in> set rows. r \<in> set (destinations (db s)) \<and> dr_enabled r = 1)) E u"
  using wp_selected_rows [OF assms] assms by (auto simp: wp_simps sql_read_def split: option.split)

text \<open>Whatever calls fail, loading the destinations of a broadcast answers only
  enabled destinations of the table, each with its own name and kind; a
  schedule that selects none gets every enabled one.\<close>
theorem broadcast_uses_enabled_destinations:
  "wp (load_destinations L i :: (app, 'e, destination list) prog) (\<lambda>ds t. db t = db s \<and>
      (\<forall>d \<in> set ds. \<exists>r \<in> set (destinations (db s)). dr_enabled r = 1 \<and> row_to_destination L r = Some d \<and>
         dest_enabled d))
    (\<lambda>_ _. False) s"
proof -
  have rows: "\<forall>d \<in> set (rows_to_destinations L rs). \<exists>r \<in> set rs. row_to_destination L r = Some d" for rs
    by (auto simp: rows_to_destinations_def List.map_filter_def)
  have enabled: "row_to_destination L r = Some d \<Longrightarrow> dr_enabled r = 1 \<Longrightarrow> dest_enabled d" for r d
    by (auto simp: row_to_destination_def)
  have fin: "wp (ok (rows_to_destinations L rs) :: (app, 'e, destination list) prog) (\<lambda>ds t. db t = db s \<and>
      (\<forall>d \<in> set ds. \<exists>r \<in> set (destinations (db s)). dr_enabled r = 1 \<and> row_to_destination L r = Some d \<and>
         dest_enabled d)) (\<lambda>_ _. False) t"
    if "db t = db s" "\<forall>r \<in> set rs. r \<in> set (destinations (db s)) \<and> dr_enabled r = 1" for rs t
    using that rows [of rs] enabled by (auto simp: wp_simps) blast
  have "wp (ok_flatten (sql_read (schedule_col sd_destination_ids (show_uuid L i))) :: (app, 'e, string option) prog)
      (\<lambda>_ t. db t = db s) (\<lambda>_ _. False) s"
    by (auto simp: wp_simps sql_read_def split: option.split)
  then show ?thesis
    unfolding load_destinations_def Let_def
    by (rule wp_seq) (rule wp_seq, erule wp_enabled_rows, erule conjE, rule fin, assumption+)
qed


section \<open>On the air\<close>

lemma concat_keeps [keeps_intros]:
  assumes "\<And>s x. f (s\<lparr>media_players := x\<rparr>) = f s" "\<And>s x y. f (s\<lparr>media_relays := x, next_chan := y\<rparr>) = f s"
    and "frame f"
  shows "keeps f (start_concat_playback L i fs lp w h r)"
proof -
  have relay: "keeps f (get_or_create_media_relay i)"
    using assms(2) by (simp add: keeps_def get_or_create_media_relay_def split: option.split)
  have rep: "keeps f (reg_replace Players i c)" for c
    unfolding reg_replace_def reg_stop_def
    by (intro keeps_intros) (simp_all add: assms(1,3) reg_take_def keeps_def)
  show ?thesis
    unfolding start_concat_playback_def concat_list_def Let_def
    by (intro keeps_intros relay rep assms(3))
qed

lemma run_keeps [keeps_intros]:
  assumes "\<And>s x. f (s\<lparr>db := x\<rparr>) = f s" "frame f"
  shows "keeps f (record_run L i st)" "keeps f (mark_run_ended L i)"
  unfolding record_run_def mark_run_ended_def sql_exec_def
  by (intro keeps_intros assms(2); simp add: assms(1))+

lemma stop_media_keeps [keeps_intros]:
  assumes "\<And>s x. f (s\<lparr>media_players := x\<rparr>) = f s" "\<And>s x. f (s\<lparr>media_relays := x\<rparr>) = f s"
    and "\<And>s x. f (s\<lparr>sequence_headers := x\<rparr>) = f s" "frame f"
  shows "keeps f (stop_media_playback i)"
  unfolding stop_media_playback_def reg_stop_def
  by (intro keeps_intros)
     (simp_all add: assms reg_take_def keeps_def remove_media_relay_def forget_headers_def)

lemma bc_outputs_effect:
  assumes "bc_outputs L vod ds c s = (Inr (), t)"
  shows "cur (program_intent t) = Some vod \<and> active_schedule t = active_schedule s \<and>
    media_players t = media_players s \<and> pipe_state t = PStarting"
proof -
  define tail :: "(app, 'a, unit) prog" where "tail =
    andThen (gets (\<lambda>s. sequence_headers s vod)) (\<lambda>seq.
      then_do (ignore (egress_start ds (Some c) seq)) (ensure_channel_hls L))"
  let ?s1 = "set_program_intent (Some vod) (snd ((sleep (from_millis 500) :: (app, 'a, unit) prog) s))"
  let ?s2 = "snd ((pipeline_start [] :: (app, 'a, unit) prog) ?s1)"
  have run: "tail ?s2 = (Inr (), t)"
    using assms by (simp add: bc_outputs_def tail_def sleep_def pipeline_start_def ws_send_def
        spawn_task_def)
  let ?v = "\<lambda>s :: app. (program_intent s, active_schedule s, media_players s, pipe_state s)"
  have f: "frame ?v" by (simp add: frame_def)
  have "keeps ?v tail"
    unfolding tail_def by (intro keeps_intros f) (simp_all add: set_egress_def)
  then have "?v t = ?v ?s2" using keeps_run [where f = ?v] run by blast
  then show ?thesis
    by (simp add: sleep_def pipeline_start_def ws_send_def spawn_task_def set_sys_def
        set_program_intent_def)
qed

lemma start_concat_registers:
  assumes "start_concat_playback L i fs lp w h r s = (Inr (), t)"
  shows "\<exists>c. media_players t i = Some c"
proof -
  from assms obtain c u v ch r where "(reg_replace Players i c :: unit io) u = (r, v)"
      and task: "(spawn_task (TFeedRelay i ch) :: unit io) v = (Inr (), t)"
    unfolding start_concat_playback_def andThen_Inr_iff Let_def by blast
  then have "v = snd ((reg_replace Players i c :: unit io) u)" by simp
  then have "reg Players v i = Some c"
    unfolding snd_reg_replace Let_def by (simp only: reg_set_reg if_True fun_upd_same refl)
  moreover have "media_players t = media_players v"
    using task by (auto simp: spawn_task_def set_sys_def)
  ultimately show ?thesis by simp
qed

lemma bc_player_effect:
  assumes "bc_player L i fs ends s = (Inr (vod, c), t)"
  shows "cur (active_schedule t) = Some i \<and> (\<exists>p. media_players t vod = Some p)"
proof -
  define tail where "tail =
    then_do (record_run L i ''ran'')
   (then_do (ws_send (EvScheduleStarted i))
   (andThen (load_output_config L) (\<lambda>c.
    andThen (fresh_uuid L) (\<lambda>vod.
    then_do (map_err (\<lambda>e. ''playlist playback: '' @ e)
       (start_concat_playback L vod fs (ends = EndLoop) (width c) (height c) (fps c)))
       (ok (vod, c))))))"
  have "bc_player L i fs ends = then_do (modify (set_active_schedule (Some i))) tail"
    by (simp only: bc_player_def tail_def)
  then have run: "tail (set_active_schedule (Some i) s) = (Inr (vod, c), t)"
    using assms by (simp only: andThen_Inr [OF run_modify])
  have "keeps active_schedule tail"
    unfolding tail_def by (intro keeps_intros frames; simp)
  then have "active_schedule t = active_schedule (set_active_schedule (Some i) s)"
    by (rule keeps_run [where m = tail and f = active_schedule, OF _ run])
  moreover have concat: "wp (map_err (\<lambda>e. ''playlist playback: '' @ e) (start_concat_playback L v fs lp w h r))
      (\<lambda>_ t. \<exists>p. media_players t v = Some p) (\<lambda>_ _. True) u" for v lp w h r u
    using start_concat_registers [of L v fs lp w h r u]
    by (simp add: wp_def map_err_def split: prod.split sum.split)
  have "wp tail (\<lambda>(v, c) t. \<exists>p. media_players t v = Some p) (\<lambda>_ _. True) (set_active_schedule (Some i) s)"
    unfolding tail_def
    by (rule wp_skip, rule wp_skip, rule wp_skip, rule wp_skip, rule wp_seq, rule concat, simp add: wp_ok)
  ultimately show ?thesis
    using run by (auto simp: set_active_schedule_def dest: wpD)
qed

text \<open>A broadcast that gets as far as its wait, whatever calls failed on the
  way, is the active schedule, has its player registered under the source the
  program is sent to, and has started the pipeline; it waits at least a second
  and, for a programme that fits the counter, its whole length.\<close>
theorem broadcast_on_air:
  assumes "bc_begin L i s = (Inr a, t)"
  shows "cur (active_schedule t) = Some i \<and> cur (program_intent t) = Some (air_vod a) \<and>
    (\<exists>c. media_players t (air_vod a) = Some c) \<and> pipe_state t = PStarting \<and>
    air_until a \<ge> clock (sys t) + from_millis 1000"
proof -
  from assms obtain fs total ends standby ds s1 vod c s2 where
    load: "bc_load L i s = (Inr ((fs, total), ends, standby, ds), s1)"
    and player: "bc_player L i fs ends s1 = (Inr (vod, c), s2)"
    and outputs: "(bc_outputs L vod ds c :: unit io) s2 = (Inr (), t)"
    and a: "a = \<lparr>air_vod = vod, air_end = ends, air_standby = standby,
        air_until = clock (sys t) + from_millis (max (unat total) 1000)\<rparr>"
    by (auto simp: bc_begin_def andThen_Inr_iff now_def split: prod.splits)
  show ?thesis
    using bc_player_effect [OF player] bc_outputs_effect [OF outputs]
    by (simp add: a from_millis_def)
qed


section \<open>Off the air\<close>

lemma take_off_air_effect:
  "\<exists>t. take_off_air s = (Inr (), t) \<and> processes (egress t) = [] \<and> hls t = None \<and>
    pipe_state t = PStopping \<and> cur (program_intent t) = None \<and> cur (active_schedule t) = None \<and>
    media_players t = media_players s \<and> db t = db s \<and> faults (sys t) = faults (sys s)"
proof -
  obtain u where u: "(egress_stop :: (app, 'a, unit) prog) s = (Inr (), u)" "processes (egress u) = []" "faults (sys u) = faults (sys s)"
    using egress_stop_effect [where 'a = 'a, of s] by blast
  have "keeps (\<lambda>s. (media_players s, db s)) (egress_stop :: (app, 'a, unit) prog)"
    by (intro keeps_intros) (simp_all add: set_egress_def frame_def)
  then have k: "media_players u = media_players s" "db u = db s"
    using u(1) by (auto dest: keeps_run)
  show ?thesis
    using u k
    by (cases "hls u") (auto simp: take_off_air_def hls_stop_def kill_opt_def kill_def pipeline_stop_def
        ws_send_def spawn_task_def set_program_intent_def set_active_schedule_def set_sys_def)
qed

lemma stop_media_effect:
  "\<exists>t. stop_media_playback i s = (Inr (), t) \<and> media_players t i = None \<and> media_relays t i = None \<and>
    sequence_headers t i = None \<and> faults (sys t) = faults (sys s) \<and> db t = db s \<and>
    egress t = egress s \<and> pipe_state t = pipe_state s \<and> program_intent t = program_intent s \<and>
    active_schedule t = active_schedule s \<and> program_source t = program_source s"
  by (cases "media_players s i")
     (auto simp: stop_media_playback_def reg_stop_def reg_take_def kill_opt_def kill_def
        remove_media_relay_def forget_headers_def set_sys_def andThen_def)

lemma mark_run_ended_effect:
  "\<exists>t. mark_run_ended L i s = (Inr (), t) \<and> egress t = egress s \<and> hls t = hls s \<and>
    pipe_state t = pipe_state s \<and> program_intent t = program_intent s \<and>
    active_schedule t = active_schedule s \<and> media_players t = media_players s \<and> ws_log t = ws_log s \<and>
    (no_faults s \<longrightarrow> (\<forall>r \<in> set (schedule_runs (db t)). rr_schedule_id r = show_uuid L i \<longrightarrow> rr_ended_at r \<noteq> None))"
  by (cases "next_fault s")
     (auto simp: mark_run_ended_def now_def sql_exec_def fallible_def update_where_def drop_fault_def
       set_sys_def no_faults_def next_fault_def)

lemma elapsed_stop_effect:
  assumes "air_end a = EndStop"
  shows "\<exists>t. (bc_elapsed L i a :: (app, 'a, unit) prog) s = (Inr (), t) \<and> processes (egress t) = [] \<and> hls t = None \<and>
    pipe_state t = PStopping \<and> cur (program_intent t) = None \<and> cur (active_schedule t) = None \<and>
    media_players t (air_vod a) = None \<and> EvScheduleEnded i \<in> set (ws_log t) \<and>
    (no_faults s \<longrightarrow> (\<forall>r \<in> set (schedule_runs (db t)). rr_schedule_id r = show_uuid L i \<longrightarrow> rr_ended_at r \<noteq> None))"
proof -
  obtain s1 where s1: "(stop_media_playback (air_vod a) :: (app, 'a, unit) prog) s = (Inr (), s1)" "media_players s1 (air_vod a) = None"
      "faults (sys s1) = faults (sys s)"
    using stop_media_effect [where 'a = 'a, of "air_vod a" s] by blast
  obtain s2 where s2: "(take_off_air :: (app, 'a, unit) prog) s1 = (Inr (), s2)" "processes (egress s2) = []" "hls s2 = None"
      "pipe_state s2 = PStopping" "cur (program_intent s2) = None" "cur (active_schedule s2) = None"
      "media_players s2 = media_players s1" "faults (sys s2) = faults (sys s1)"
    using take_off_air_effect [where 'a = 'a, of s1] by blast
  let ?s3 = "s2\<lparr>ws_log := ws_log s2 @ [EvScheduleEnded i]\<rparr>"
  obtain t where t: "(mark_run_ended L i :: (app, 'a, unit) prog) ?s3 = (Inr (), t)" "egress t = egress ?s3" "hls t = hls ?s3"
      "pipe_state t = pipe_state ?s3" "program_intent t = program_intent ?s3"
      "active_schedule t = active_schedule ?s3" "media_players t = media_players ?s3" "ws_log t = ws_log ?s3"
      "no_faults ?s3 \<longrightarrow> (\<forall>r \<in> set (schedule_runs (db t)). rr_schedule_id r = show_uuid L i \<longrightarrow> rr_ended_at r \<noteq> None)"
    using mark_run_ended_effect [where 'a = 'a, of L i ?s3] by blast
  have "(bc_elapsed L i a :: (app, 'a, unit) prog) s = (Inr (), t)"
    using s1(1) s2(1) t(1) by (simp add: bc_elapsed_def assms ws_send_def)
  moreover have "no_faults s \<Longrightarrow> no_faults ?s3"
    using s1(3) s2(8) by (simp add: no_faults_def)
  ultimately show ?thesis
    using s1 s2 t by auto
qed

text \<open>C19: when the time of a broadcast that neither loops nor stands by is over,
  whatever calls fail, everything it started is taken down: no encoder is
  left, the watch page's rendition is off, the pipeline stopping, the program
  without a source, no schedule active, its player gone, the clients told;
  with no call failing its runs are closed in the database.\<close>
theorem ended_broadcast_off_air:
  assumes "air_end a = EndStop"
  shows "\<exists>t. (bc_elapsed L i a :: (app, 'a, unit) prog) s = (Inr (), t) \<and> processes (egress t) = [] \<and> hls t = None \<and>
    pipe_state t = PStopping \<and> cur (program_intent t) = None \<and> cur (active_schedule t) = None \<and>
    media_players t (air_vod a) = None \<and> EvScheduleEnded i \<in> set (ws_log t) \<and>
    (no_faults s \<longrightarrow> (\<forall>r \<in> set (schedule_runs (db t)). rr_schedule_id r = show_uuid L i \<longrightarrow> rr_ended_at r \<noteq> None))"
  using assms by (rule elapsed_stop_effect)

text \<open>Standby without an asset: when the programme is over the player and its
  relay are gone, but the encoders, the pipeline, the program's source and the
  active schedule stay as they were: the outputs are connected to a source
  that sends nothing, and nothing in the broadcast ends that.\<close>
theorem standby_without_asset_stays_on_air:
  assumes "air_end a = EndStandby" "air_standby a = None"
  shows "\<exists>t. bc_elapsed L i a s = (Inr (), t) \<and> media_players t (air_vod a) = None \<and>
    media_relays t (air_vod a) = None \<and> egress t = egress s \<and> pipe_state t = pipe_state s \<and>
    program_intent t = program_intent s \<and> active_schedule t = active_schedule s"
  using stop_media_effect [where 'a = 'a, of "air_vod a" s] assms
  by (auto simp: bc_elapsed_def ensure_standby_def)

section \<open>Two broadcasts\<close>

lemma load_playlist_frame:
  "keeps (\<lambda>s. (active_schedule s, egress s, pipe_state s, program_intent s, media_players s)) (load_playlist L i)"
proof -
  let ?f = "\<lambda>s :: app. (active_schedule s, egress s, pipe_state s, program_intent s, media_players s)"
  have f: "frame ?f" by (simp add: frame_def)
  have "keeps ?f (load_files refs)" for refs
    by (induction refs) (simp_all only: load_files.simps, (intro keeps_intros f; assumption)+)
  then show ?thesis
    unfolding load_playlist_def by (intro keeps_intros f)
qed

text \<open>A broadcast that cannot load its programme clears the active schedule,
  also when another broadcast is the active one: that one then takes the end
  of its wait for an operator's stop and ends its player, while its encoders,
  the pipeline and the program's source stay on.\<close>
theorem failing_broadcast_cuts_the_running_one:
  assumes "cur (active_schedule s) = Some i" "fst (load_playlist L j s) = Inl e"
  shows "\<exists>t u. bc_trans L j (s, Spawned) (t, Over) \<and> bc_trans L i (t, OnAir a) (u, Over) \<and>
    media_players u (air_vod a) = None \<and> egress u = egress s \<and> pipe_state u = pipe_state s \<and>
    program_intent u = program_intent s"
proof -
  obtain s1 where s1: "load_playlist L j s = (Inl e, s1)" using assms(2) by (metis prod.collapse)
  let ?f = "\<lambda>s :: app. (active_schedule s, egress s, pipe_state s, program_intent s, media_players s)"
  have k: "?f s1 = ?f s"
    using s1 by (rule keeps_run [where f = ?f, OF load_playlist_frame])
  let ?t = "run (bc_failed L j) s1"
  have first: "bc_first L j s = (?t, Over)"
    by (simp add: bc_first_def bc_begin_def bc_load_def s1)
  let ?g = "\<lambda>s :: app. (egress s, pipe_state s, program_intent s)"
  have "frame ?g" by (simp add: frame_def)
  then have "keeps ?g (bc_failed L j :: (app, unit, unit) prog)"
    unfolding bc_failed_def by (intro keeps_intros) (simp_all add: set_active_schedule_def)
  then have t: "?g ?t = ?g s1" by (rule keepsD [where f = ?g])
  have "cur (active_schedule ?t) = None"
    by (simp add: bc_failed_def record_run_def set_active_schedule_def fresh_uuid_def now_def)
  then have "bc_trans L i (?t, OnAir a) (run (bc_deactivated a) ?t, Over)"
    by (intro bc_trans.deactivated) simp
  moreover have "bc_trans L j (s, Spawned) (?t, Over)"
    using bc_trans.spawned [of L j s] by (simp add: first)
  moreover obtain u where "stop_media_playback (air_vod a) ?t = (Inr () :: unit + unit, u)"
      "media_players u (air_vod a) = None" "egress u = egress ?t" "pipe_state u = pipe_state ?t"
      "program_intent u = program_intent ?t"
    using stop_media_effect [where 'a = unit, of "air_vod a" ?t] by blast
  ultimately show ?thesis
    using k t by (intro exI [of _ ?t] exI [of _ u]) (simp add: bc_deactivated_def)
qed


section \<open>A schedule that can play goes on the air\<close>

lemma smooth_run [smooth_intros]: "smooth (record_run L i st)" "smooth (mark_run_ended L i)"
  unfolding record_run_def mark_run_ended_def by (intro smooth_intros)+

lemma smooth_loads [smooth_intros]:
  "smooth (load_end_behavior L i)" "smooth (load_standby_asset L i)" "smooth (load_destinations L i)"
proof -
  have "smooth (selected_rows is)" for "is"
    by (induction "is") (simp_all only: selected_rows.simps, (intro smooth_intros; assumption)+)
  then show "smooth (load_end_behavior L i)" "smooth (load_standby_asset L i)" "smooth (load_destinations L i)"
    unfolding load_end_behavior_def load_standby_asset_def load_destinations_def Let_def
    by (intro smooth_intros; assumption)+
qed

lemma playlist_not_empty: "load_playlist L i s = (Inr (fs, ms), t) \<Longrightarrow> fs \<noteq> []"
  by (auto simp: load_playlist_def andThen_Inr_iff split: prod.splits if_splits)

lemma bc_begin_succeeds:
  assumes "no_faults s" "load_playlist L i s = (Inr pl, s)"
  shows "\<exists>a t. bc_begin L i s = (Inr a, t)"
proof -
  obtain fs ms where pl: "pl = (fs, ms)" "fs \<noteq> []"
    using assms(2) playlist_not_empty by (cases pl) auto
  define rest :: "((string list \<times> u64) \<times> end_behavior \<times> string option \<times> destination list) io" where "rest = andThen (load_end_behavior L i) (\<lambda>ends. andThen (load_standby_asset L i) (\<lambda>standby.
      andThen (load_destinations L i) (\<lambda>ds. ok (pl, ends, standby, ds))))"
  have "smooth rest"
    unfolding rest_def by (intro smooth_intros)
  then obtain r where "rest s = (Inr r, snd (rest s))" "no_faults (snd (rest s))"
    using smoothD assms(1) by blast
  moreover have "bc_load L i s = rest s"
    using assms(2) by (simp add: bc_load_def rest_def)
  moreover have "fst r = pl" if "rest s = (Inr r, t)" for t
    using that by (auto simp: rest_def andThen_Inr_iff)
  ultimately obtain ends standby ds s1 where
    load: "bc_load L i s = (Inr (pl, ends, standby, ds), s1)" "no_faults s1"
    by (metis prod.collapse)
  have "smooth (start_concat_playback L v fs lp w h r)" for v lp w h r
    using pl(2) smooth_concat by (auto simp: smooth_def)
  then have "smooth (bc_player L i fs ends)"
    unfolding bc_player_def by (intro smooth_intros) (simp_all add: set_active_schedule_def)
  then obtain vc s2 where player: "bc_player L i fs ends s1 = (Inr vc, s2)" "no_faults s2"
    using smoothD [OF _ load(2)] by blast
  have "smooth (bc_outputs L (fst vc) ds (snd vc) :: unit io)"
    unfolding bc_outputs_def by (intro smooth_intros) (simp add: set_program_intent_def)
  then obtain t where outputs: "(bc_outputs L (fst vc) ds (snd vc) :: unit io) s2 = (Inr (), t)"
    using player(2) unfolding smooth_def by fastforce
  show ?thesis
    unfolding bc_begin_def andThen_Inr_iff now_def
    using load(1) player(1) outputs by (fastforce simp: pl split: prod.splits)
qed

text \<open>With no call failing, every schedule with a playable VOD goes on the
  air.\<close>
theorem playable_schedule_airs:
  assumes "no_faults s" "load_playlist L i s = (Inr pl, s)"
  shows "\<exists>a t. bc_begin L i s = (Inr a, t) \<and> bc_trans L i (s, Spawned) (t, OnAir a)"
  using bc_begin_succeeds [OF assms] bc_trans.spawned [of L i s] by (auto simp: bc_first_def)

section \<open>Witnesses\<close>

text \<open>A server with schedule 5, whose one VOD item is asset 7.\<close>

definition playout_asset :: asset_row where
  "playout_asset = \<lparr>ar_id = ''7'', ar_name = ''film'', ar_asset_type = ''video'', ar_file_path = ''a.mp4'',
     ar_file_size = 1, ar_mime_type = ''video/mp4'', ar_folder_id = None, ar_loop_mode = ''once'',
     ar_duration_ms = 2, ar_start_ms = 0, ar_opaque_ms = 0, ar_clear_ms = 0, ar_end_ms = 0,
     ar_audio_behaviour = '''', ar_thumbnail_path = '''', ar_metadata = '''', ar_created_at = ''''\<rparr>"

definition playout_state :: app where
  "playout_state = sample_state\<lparr>db := empty_db\<lparr>assets := [playout_asset],
     destinations := [\<lparr>dr_id = ''3'', dr_name = ''tube'', dr_kind = ''rtmp:u'', dr_enabled = 1\<rparr>],
     schedule_items := [\<lparr>ir_id = ''1'', ir_schedule_id = ''5'', ir_position = 0, ir_item_kind = ''vod'',
       ir_ref_id = ''7''\<rparr>]\<rparr>\<rparr>"

lemma no_faults_playout: "no_faults playout_state"
  by (simp add: no_faults_def playout_state_def sample_state_def initial_state_def idle_os_def)

lemma show_digits: "show_nat 5 = ''5''" "show_nat 6 = ''6''"
  by code_simp+

lemma playout_found:
  "vod_refs (show_uuid sample_lib 5) (db playout_state) = [''7'']"
  "List.map_filter (\<lambda>k. find (\<lambda>r. ar_id r = k) (assets (db playout_state))) [''7''] = [playout_asset]"
  by (simp_all add: vod_refs_def playout_state_def sample_show_uuid show_digits
      List.map_filter_def playout_asset_def empty_db_def)

lemma playout_playlist: "load_playlist sample_lib 5 playout_state = (Inr ([''a.mp4''], 2), playout_state)"
  using no_faults_playout
  by (simp add: load_playlist_def load_files_ok sql_read_def fallible_def drop_fault_none Let_def
      playout_found playout_asset_def duration_u64_def andThen_def del: List.map_filter_simps load_files.simps)

lemma playlist_of_schedule_witness:
  "load_playlist sample_lib 5 playout_state = (Inr ([''a.mp4''], 2), playout_state)"
  using playlist_of_schedule [OF no_faults_playout, of sample_lib 5]
  by (simp add: Let_def playout_found playout_asset_def duration_u64_def del: List.map_filter_simps)

lemma broadcast_uses_enabled_destinations_witness:
  "\<exists>ds t. (load_destinations sample_lib 5 :: (app, unit, destination list) prog) playout_state = (Inr ds, t) \<and>
    db t = db playout_state"
  using broadcast_uses_enabled_destinations [where 'e = unit, of sample_lib 5 playout_state]
  by (auto simp: wp_def split: prod.splits sum.splits)

lemma playable_schedule_airs_witness:
  "\<exists>a t. bc_begin sample_lib 5 playout_state = (Inr a, t)"
  using playable_schedule_airs [OF no_faults_playout playout_playlist] by blast

lemma playout_airs: "\<exists>a t. bc_begin sample_lib 5 playout_state = (Inr a, t)"
  using bc_begin_succeeds [OF no_faults_playout playout_playlist] .

lemma broadcast_on_air_witness:
  "\<exists>a t. bc_begin sample_lib 5 playout_state = (Inr a, t) \<and> pipe_state t = PStarting"
  using playout_airs broadcast_on_air by blast

definition sample_airing :: "end_behavior \<Rightarrow> airing" where
  "sample_airing b = \<lparr>air_vod = 9, air_end = b, air_standby = None, air_until = 0\<rparr>"

lemma ended_broadcast_off_air_witness:
  "\<exists>t. (bc_elapsed sample_lib 5 (sample_airing EndStop) :: (app, unit, unit) prog) playout_state = (Inr (), t) \<and>
    pipe_state t = PStopping"
  using ended_broadcast_off_air [where 'a = unit, of "sample_airing EndStop" sample_lib 5 playout_state]
  by (auto simp: sample_airing_def)

lemma standby_without_asset_stays_on_air_witness:
  "\<exists>t. (bc_elapsed sample_lib 5 (sample_airing EndStandby) :: (app, unit, unit) prog) playout_state = (Inr (), t) \<and>
    egress t = egress playout_state"
  using standby_without_asset_stays_on_air
    [where 'a = unit, of "sample_airing EndStandby" sample_lib 5 playout_state]
  by (auto simp: sample_airing_def)

lemma failing_broadcast_cuts_the_running_one_witness:
  "let s = playout_state\<lparr>active_schedule := new_watch (Some 5)\<rparr>
   in \<exists>t u. bc_trans sample_lib 6 (s, Spawned) (t, Over) \<and>
        bc_trans sample_lib 5 (t, OnAir (sample_airing EndStop)) (u, Over) \<and> egress u = egress s"
proof -
  let ?s = "playout_state\<lparr>active_schedule := new_watch (Some 5)\<rparr>"
  have "vod_refs (show_uuid sample_lib 6) (db ?s) = []"
    by (simp add: vod_refs_def playout_state_def sample_show_uuid show_digits empty_db_def)
  then have "fst (load_playlist sample_lib 6 ?s) = Inl ''schedule has no VOD items''"
    using no_faults_playout
    by (simp add: load_playlist_def sql_read_def fallible_def no_faults_def next_fault_def drop_fault_def
        set_sys_def andThen_def)
  then show ?thesis
    using failing_broadcast_cuts_the_running_one [of ?s 5 sample_lib 6 _ "sample_airing EndStop"]
    by (auto simp: new_watch_def Let_def)
qed

end
