(* ===== verification/Schedule.thy ===== *)
theory Schedule
  imports Playout
begin

text \<open>
  Schedules: when a trigger runs next (\<open>schedule\_time.rs\<close>), the scheduler task
  that fires what is due (\<open>scheduler.rs\<close>), and the handlers that keep the
  schedules and run or stop one by hand (\<open>routes/schedules.rs\<close>). One pass of
  the scheduler's loop is \<open>scheduler\_pass\<close>.
\<close>

section \<open>schedule\_time.rs\<close>

definition parse_tz :: "lib \<Rightarrow> string \<Rightarrow> string" where
  "parse_tz L name = (if known_tz L name then name else ''UTC'')"

definition to_six_field :: "string \<Rightarrow> string" where
  "to_six_field expr = (if length (split_whitespace expr) = 5 then ''0 '' @ trim expr else trim expr)"

definition parse_local :: "lib \<Rightarrow> string \<Rightarrow> nat option" where
  "parse_local L at = (case parse_naive L ''%Y-%m-%dT%H:%M:%S'' at of
      Some n \<Rightarrow> Some n
    | None \<Rightarrow> parse_naive L ''%Y-%m-%dT%H:%M'' at)"

definition next_run_after :: "lib \<Rightarrow> trigger_kind \<Rightarrow> string \<Rightarrow> instant \<Rightarrow> instant option" where
  "next_run_after L trigger tz after = (case trigger of
      Once at \<Rightarrow> Option.bind (parse_local L at) (\<lambda>naive.
        Option.bind (local_to_utc L tz naive) (\<lambda>utc. if utc > after then Some utc else None))
    | Cron expr \<Rightarrow> if cron_valid L (to_six_field expr) then cron_next L (to_six_field expr) tz after else None)"

section \<open>scheduler.rs\<close>

definition load_system_tz :: "(app, 'e, string) prog" where
  "load_system_tz = andThen (read_setting ''system_timezone'') (\<lambda>v.
     ok (case v of None \<Rightarrow> ''UTC'' | Some t \<Rightarrow> t))"

definition unwrap_text :: "string option \<Rightarrow> string" where
  "unwrap_text v = (case v of None \<Rightarrow> [] | Some t \<Rightarrow> t)"

definition row_trigger :: "schedule_row \<Rightarrow> trigger_kind" where
  "row_trigger r = (if sd_trigger_kind r = ''cron'' then Cron (unwrap_text (sd_trigger_cron r))
     else Once (unwrap_text (sd_trigger_at r)))"

definition update_schedule :: "string \<Rightarrow> (schedule_row \<Rightarrow> schedule_row) \<Rightarrow> db \<Rightarrow> db" where
  "update_schedule i f d = d\<lparr>schedules := update_where (\<lambda>r. sd_id r = i) f (schedules d)\<rparr>"

definition log_run :: "lib \<Rightarrow> string \<Rightarrow> string \<Rightarrow> (app, 'e, unit) prog" where
  "log_run L sid status = andThen (fresh_uuid L) (\<lambda>i.
     ignore (sql_exec (\<lambda>d. d\<lparr>schedule_runs := schedule_runs d @
       [\<lparr>rr_id = show_uuid L i, rr_schedule_id = sid, rr_started_at = None, rr_ended_at = None,
         rr_status = status\<rparr>]\<rparr>)))"

definition advance :: "lib \<Rightarrow> uuid \<Rightarrow> trigger_kind \<Rightarrow> (app, 'e, unit) prog" where
  "advance L i trigger = (case trigger of
      Once _ \<Rightarrow> ignore (sql_exec (update_schedule (show_uuid L i)
        (\<lambda>r. r\<lparr>sd_enabled := 0, sd_next_run_at := None\<rparr>)))
    | Cron _ \<Rightarrow> andThen load_system_tz (\<lambda>name. andThen now (\<lambda>t.
        ignore (sql_exec (update_schedule (show_uuid L i)
          (\<lambda>r. r\<lparr>sd_next_run_at := map_option (rfc3339 L) (next_run_after L trigger (parse_tz L name) t)\<rparr>))))))"

definition is_live :: "pipeline_state \<Rightarrow> bool" where
  "is_live st = (case st of PLive _ _ \<Rightarrow> True | _ \<Rightarrow> False)"

definition handle_due :: "lib \<Rightarrow> uuid \<times> trigger_kind \<Rightarrow> (app, 'e, unit) prog" where
  "handle_due L = (\<lambda>(i, trigger).
    andThen (gets (\<lambda>s. cur (active_schedule s) \<noteq> None \<or> is_live (pipe_state s))) (\<lambda>live.
    then_do (if live then then_do (log_run L (show_uuid L i) ''skipped'')
                                  (ws_send (EvScheduleSkipped i ''already live''))
             else start_broadcast i)
            (advance L i trigger)))"

definition is_due :: "string \<Rightarrow> schedule_row \<Rightarrow> bool" where
  "is_due t r \<longleftrightarrow> sd_enabled r = 1 \<and> (case sd_next_run_at r of None \<Rightarrow> False | Some n \<Rightarrow> n \<le> t)"

definition due_schedules :: "lib \<Rightarrow> instant \<Rightarrow> (app, 'e, (uuid \<times> trigger_kind) list) prog" where
  "due_schedules L t =
    andThen (or_else [] (sql_read (\<lambda>d. filter (is_due (rfc3339 L t)) (schedules d)))) (\<lambda>rows.
    ok (List.map_filter (\<lambda>r. map_option (\<lambda>i. (i, row_trigger r)) (parse_uuid L (sd_id r))) rows))"

definition ensure_next_run :: "lib \<Rightarrow> string \<Rightarrow> schedule_row \<Rightarrow> (app, 'e, unit) prog" where
  "ensure_next_run L tz r = andThen now (\<lambda>t.
    (case next_run_after L (row_trigger r) tz t of
       Some n \<Rightarrow> ignore (sql_exec (update_schedule (sd_id r) (\<lambda>x. x\<lparr>sd_next_run_at := Some (rfc3339 L n)\<rparr>)))
     | None \<Rightarrow> (case row_trigger r of
         Once _ \<Rightarrow>
           then_do (ignore (sql_exec (update_schedule (sd_id r) (\<lambda>x. x\<lparr>sd_enabled := 0\<rparr>))))
                   (log_run L (sd_id r) ''missed'')
       | Cron _ \<Rightarrow> ok ())))"

definition ensure_next_runs :: "lib \<Rightarrow> (app, 'e, unit) prog" where
  "ensure_next_runs L = andThen load_system_tz (\<lambda>name.
    andThen (or_else [] (sql_read (\<lambda>d. filter (\<lambda>r. sd_enabled r = 1 \<and> sd_next_run_at r = None) (schedules d)))) (\<lambda>rows.
    forM (ensure_next_run L (parse_tz L name)) rows))"

definition soonest_next_run :: "lib \<Rightarrow> (app, 'e, instant option) prog" where
  "soonest_next_run L =
    andThen (ok_flatten (sql_read (\<lambda>d.
      case sort (List.map_filter sd_next_run_at (filter (\<lambda>r. sd_enabled r = 1) (schedules d))) of
        [] \<Rightarrow> None | t # _ \<Rightarrow> Some t))) (\<lambda>row.
    ok (Option.bind row (parse_rfc3339 L)))"

definition sleep_for :: "instant option \<Rightarrow> instant \<Rightarrow> nat" where
  "sleep_for next t =
    (let d = (case next of None \<Rightarrow> from_secs 60 | Some n \<Rightarrow> if n < t then 0 else n - t)
     in min (max d (from_millis 200)) (from_secs 60))"

definition scheduler_pass :: "lib \<Rightarrow> (app, 'e, nat) prog" where
  "scheduler_pass L =
    then_do (ensure_next_runs L)
   (andThen now (\<lambda>t.
    andThen (due_schedules L t) (\<lambda>due.
    then_do (forM (handle_due L) due)
   (andThen (soonest_next_run L) (\<lambda>next.
    andThen now (\<lambda>t'. ok (sleep_for next t')))))))"

section \<open>routes/schedules.rs\<close>

record create_item =
  ci_kind :: schedule_item_kind
  ci_ref_id :: uuid

record upsert_schedule =
  us_name :: string
  us_enabled :: bool
  us_trigger :: trigger_kind
  us_destination_ids :: "uuid list"
  us_standby_asset_id :: "uuid option"
  us_end_behavior :: end_behavior
  us_until_at :: "string option"
  us_items :: "create_item list"

definition validate_schedule :: "lib \<Rightarrow> upsert_schedule \<Rightarrow> unit handler" where
  "validate_schedule L u = (case us_trigger u of
      Cron expr \<Rightarrow> check (cron_valid L (to_six_field expr)) (BadRequest ''invalid cron expression'')
    | Once at \<Rightarrow> check (parse_local L at \<noteq> None) (BadRequest ''invalid datetime''))"

definition nudge_scheduler :: "(app, 'e, unit) prog" where
  "nudge_scheduler = andThen now (\<lambda>t.
     modify (\<lambda>s. s\<lparr>schedule_nudge := send_watch (of_nat (t div 1000000)) (schedule_nudge s)\<rparr>))"

definition system_tz :: "lib \<Rightarrow> (app, 'e, string) prog" where
  "system_tz L = andThen load_system_tz (\<lambda>name. ok (parse_tz L name))"

definition trigger_cols :: "trigger_kind \<Rightarrow> string \<times> string option \<times> string option" where
  "trigger_cols t = (case t of
      Once at \<Rightarrow> (''once'', Some at, None)
    | Cron expr \<Rightarrow> (''cron'', None, Some expr))"

text \<open>Lists of UUIDs in a JSON column: an entry that does not parse spoils the list.\<close>

definition uuids_to_json :: "lib \<Rightarrow> uuid list \<Rightarrow> string" where
  "uuids_to_json L is = strings_to_json L (map (show_uuid L) is)"

definition uuids_of_json :: "lib \<Rightarrow> string \<Rightarrow> uuid list option" where
  "uuids_of_json L j = Option.bind (strings_of_json L j) (\<lambda>ts. those (map (parse_uuid L) ts))"

definition uuid_or_nil :: "lib \<Rightarrow> string \<Rightarrow> uuid" where
  "uuid_or_nil L t = (case parse_uuid L t of None \<Rightarrow> 0 | Some i \<Rightarrow> i)"

definition row_item :: "lib \<Rightarrow> schedule_item_row \<Rightarrow> schedule_item" where
  "row_item L r = \<lparr>item_id = uuid_or_nil L (ir_id r), item_position = ucast (ir_position r),
     item_kind = item_kind_from_db (ir_item_kind r), item_ref = uuid_or_nil L (ir_ref_id r)\<rparr>"

definition row_schedule :: "lib \<Rightarrow> schedule_row \<Rightarrow> schedule_item_row list \<Rightarrow> schedule" where
  "row_schedule L r items =
    \<lparr>sched_id = uuid_or_nil L (sd_id r), sched_name = sd_name r, sched_enabled = (sd_enabled r \<noteq> 0),
     sched_trigger = row_trigger r,
     sched_destinations = (case uuids_of_json L (sd_destination_ids r) of None \<Rightarrow> [] | Some is \<Rightarrow> is),
     sched_standby = Option.bind (sd_standby_asset_id r) (parse_uuid L),
     sched_end = end_behavior_from_db (sd_end_behavior r),
     sched_until = sd_until_at r,
     sched_items = map (row_item L) items,
     sched_next_run = sd_next_run_at r\<rparr>"

definition items_of :: "string \<Rightarrow> db \<Rightarrow> schedule_item_row list" where
  "items_of i d = sort_key (\<lambda>r. sint (ir_position r)) (filter (\<lambda>r. ir_schedule_id r = i) (schedule_items d))"

definition load_schedule :: "lib \<Rightarrow> string \<Rightarrow> schedule option handler" where
  "load_schedule L i = andThen (q (sql_read (\<lambda>d. find (\<lambda>r. sd_id r = i) (schedules d)))) (\<lambda>row.
    case row of
      None \<Rightarrow> ok None
    | Some r \<Rightarrow> andThen (q (sql_read (items_of i))) (\<lambda>items. ok (Some (row_schedule L r items))))"

text \<open>The foreign key of an item: a schedule with that identifier.\<close>

definition insert_item :: "schedule_item_row \<Rightarrow> db \<Rightarrow> db option" where
  "insert_item r d = (if ir_schedule_id r \<notin> sd_id ` set (schedules d) then None
     else map_option (\<lambda>rs. d\<lparr>schedule_items := rs\<rparr>) (insert_row ir_id r (schedule_items d)))"

definition item_insert :: "lib \<Rightarrow> string \<Rightarrow> nat \<times> create_item \<Rightarrow> unit handler" where
  "item_insert L sid = (\<lambda>(n, it). andThen (fresh_uuid L) (\<lambda>i.
     q (sql_try (insert_item \<lparr>ir_id = show_uuid L i, ir_schedule_id = sid, ir_position = of_nat n,
       ir_item_kind = item_kind_as_str (ci_kind it), ir_ref_id = show_uuid L (ci_ref_id it)\<rparr>))))"

definition replace_items :: "lib \<Rightarrow> uuid \<Rightarrow> create_item list \<Rightarrow> unit handler" where
  "replace_items L schedule_id items =
    then_do (q (sql_exec (\<lambda>d. d\<lparr>schedule_items :=
      delete_where (\<lambda>r. ir_schedule_id r = show_uuid L schedule_id) (schedule_items d)\<rparr>)))
    (forM (item_insert L (show_uuid L schedule_id)) (enumerate 0 items))"

definition list_schedules :: "lib \<Rightarrow> schedule list handler" where
  "list_schedules L =
    andThen (q (sql_read (\<lambda>d. map sd_id (rev (sort_key sd_created_at (rev (schedules d))))))) (\<lambda>ids.
    andThen (mapM (load_schedule L) ids) (\<lambda>ss. ok (List.map_filter id ss)))"

text \<open>The columns a request body fills, with the next run in the time zone.\<close>

definition posted_row :: "lib \<Rightarrow> upsert_schedule \<Rightarrow> string \<Rightarrow> instant \<Rightarrow> string \<Rightarrow> string \<Rightarrow> string \<Rightarrow> schedule_row" where
  "posted_row L u tz t i created updated =
    (case trigger_cols (us_trigger u) of (kind, at, cron) \<Rightarrow>
      \<lparr>sd_id = i, sd_name = us_name u, sd_enabled = (if us_enabled u then 1 else 0),
       sd_trigger_kind = kind, sd_trigger_at = at, sd_trigger_cron = cron,
       sd_destination_ids = uuids_to_json L (us_destination_ids u),
       sd_standby_asset_id = map_option (show_uuid L) (us_standby_asset_id u),
       sd_end_behavior = end_behavior_as_str (us_end_behavior u), sd_until_at = us_until_at u,
       sd_next_run_at = map_option (rfc3339 L) (next_run_after L (us_trigger u) tz t),
       sd_created_at = created, sd_updated_at = updated\<rparr>)"

definition insert_schedule :: "schedule_row \<Rightarrow> db \<Rightarrow> db option" where
  "insert_schedule r d = map_option (\<lambda>rs. d\<lparr>schedules := rs\<rparr>) (insert_row sd_id r (schedules d))"

definition create_schedule :: "lib \<Rightarrow> upsert_schedule \<Rightarrow> schedule handler" where
  "create_schedule L u =
    then_do (validate_schedule L u)
   (andThen (fresh_uuid L) (\<lambda>i.
    andThen now (\<lambda>created.
    andThen (system_tz L) (\<lambda>tz.
    andThen now (\<lambda>t.
    then_do (q (sql_try (insert_schedule
      (posted_row L u tz t (show_uuid L i) (rfc3339 L created) (rfc3339 L created)))))
   (then_do (replace_items L i (us_items u))
   (then_do nudge_scheduler
   (andThen (load_schedule L (show_uuid L i)) (need (Internal ''load''))))))))))"

definition update_schedule_handler :: "lib \<Rightarrow> string \<Rightarrow> upsert_schedule \<Rightarrow> schedule handler" where
  "update_schedule_handler L i u =
    then_do (validate_schedule L u)
   (andThen (system_tz L) (\<lambda>tz.
    andThen now (\<lambda>t.
    andThen now (\<lambda>updated.
    andThen (q (sql_count (\<lambda>d. count_where (\<lambda>r. sd_id r = i) (schedules d))
      (update_schedule i (\<lambda>r. posted_row L u tz t i (sd_created_at r) (rfc3339 L updated))))) (\<lambda>affected.
    then_do (check (affected \<noteq> 0) (NotFound (''schedule '' @ i)))
   (andThen (need (BadRequest ''bad id'') (parse_uuid L i)) (\<lambda>sid.
    then_do (replace_items L sid (us_items u))
   (then_do nudge_scheduler
   (andThen (load_schedule L i) (need (NotFound i)))))))))))"

definition delete_schedule :: "lib \<Rightarrow> string \<Rightarrow> unit handler" where
  "delete_schedule L i =
    andThen (q (sql_count (\<lambda>d. count_where (\<lambda>r. sd_id r = i) (schedules d)) (delete_schedule_row i))) (\<lambda>affected.
    then_do (check (affected \<noteq> 0) (NotFound (''schedule '' @ i))) nudge_scheduler)"

definition run_now :: "lib \<Rightarrow> string \<Rightarrow> unit handler" where
  "run_now L i = andThen (need (BadRequest ''bad id'') (parse_uuid L i)) (\<lambda>sid.
    andThen (gets (\<lambda>s. cur (active_schedule s) \<noteq> None)) (\<lambda>active.
    then_do (check (\<not> active) (BadRequest ''already live''))
            (start_broadcast sid)))"

definition stop_schedule :: "lib \<Rightarrow> unit handler" where
  "stop_schedule L = stop_broadcast L"

definition get_timezone :: "string handler" where
  "get_timezone = andThen (q (sql_read (\<lambda>d. settings d ''system_timezone''))) (\<lambda>v.
     ok (case v of None \<Rightarrow> ''UTC'' | Some t \<Rightarrow> t))"

definition recompute_all :: "lib \<Rightarrow> unit handler" where
  "recompute_all L = andThen (system_tz L) (\<lambda>tz.
    andThen (q (sql_read (\<lambda>d. filter (\<lambda>r. sd_enabled r = 1) (schedules d)))) (\<lambda>rows.
    forM (\<lambda>r. andThen now (\<lambda>t. q (sql_exec (update_schedule (sd_id r)
      (\<lambda>x. x\<lparr>sd_next_run_at := map_option (rfc3339 L) (next_run_after L (row_trigger r) tz t)\<rparr>))))) rows))"

definition set_timezone :: "lib \<Rightarrow> string \<Rightarrow> string handler" where
  "set_timezone L name =
    then_do (check (known_tz L name) (BadRequest ''unknown timezone''))
   (then_do (q (sql_exec (put_setting ''system_timezone'' name)))
   (then_do (recompute_all L)
   (then_do nudge_scheduler (ok name))))"

section \<open>What the crates promise\<close>

text \<open>The iterator of the cron crate yields instants after the one given; texts of
  \<open>to\_rfc3339\<close> are ordered as their instants up to the year 9999 (the bound \<open>b\<close>).\<close>

definition cron_later :: "lib \<Rightarrow> instant \<Rightarrow> bool" where
  "cron_later L b \<longleftrightarrow> (\<forall>e tz t u. cron_next L e tz t = Some u \<longrightarrow> t < u \<and> u < b)"

definition rfc3339_ordered :: "lib \<Rightarrow> instant \<Rightarrow> bool" where
  "rfc3339_ordered L b \<longleftrightarrow> (\<forall>t u. t < u \<longrightarrow> u < b \<longrightarrow> rfc3339 L t < rfc3339 L u)"

lemma next_run_cron_later:
  "cron_later L b \<Longrightarrow> next_run_after L (Cron e) tz t = Some u \<Longrightarrow> t < u \<and> u < b"
  by (auto simp: cron_later_def next_run_after_def split: if_splits)

lemma next_run_later:
  "cron_later L b \<Longrightarrow> next_run_after L trigger tz t = Some u \<Longrightarrow> t < u"
  by (cases trigger) (auto simp: next_run_after_def cron_later_def bind_eq_Some_conv split: if_splits)

section \<open>The due schedules of a pass\<close>

definition live_now :: "app \<Rightarrow> bool" where
  "live_now s \<longleftrightarrow> cur (active_schedule s) \<noteq> None \<or> is_live (pipe_state s)"

text \<open>What the pass looks at, with the tasks and the time.\<close>

definition pass_view :: "app \<Rightarrow> uuid option watch \<times> pipeline_state \<times> task list \<times> instant" where
  "pass_view s = (active_schedule s, pipe_state s, tasks (sys s), clock (sys s))"

lemma pass_view_frames [simp]:
  "pass_view (drop_fault s) = pass_view s" "pass_view (s\<lparr>db := x\<rparr>) = pass_view s"
  "pass_view (s\<lparr>ws_log := y\<rparr>) = pass_view s"
  by (simp_all add: pass_view_def drop_fault_def set_sys_def)

lemma keeps_case_trigger [keeps_intros]:
  "(\<And>x. keeps f (m x)) \<Longrightarrow> (\<And>x. keeps f (n x)) \<Longrightarrow>
    keeps f (case v of Once x \<Rightarrow> m x | Cron x \<Rightarrow> n x)"
  by (simp split: trigger_kind.split)

lemma total_case_trigger [total_intros]:
  "(\<And>x. never_fails (m x)) \<Longrightarrow> (\<And>x. never_fails (n x)) \<Longrightarrow>
    never_fails (case v of Once x \<Rightarrow> m x | Cron x \<Rightarrow> n x)"
  by (simp split: trigger_kind.split)

lemma pass_view_calls:
  "keeps pass_view (sql_exec f)" "keeps pass_view (sql_read g)" "keeps pass_view (ws_send e)"
  "keeps pass_view (fresh_uuid L)" "keeps pass_view now"
  by (auto simp: keeps_def sql_exec_def sql_read_def fallible_def ws_send_def fresh_uuid_def now_def
      split: option.split) (simp add: pass_view_def set_sys_def)

lemma pass_view_load: "keeps pass_view load_system_tz"
  unfolding load_system_tz_def read_setting_def by (intro keeps_core keeps_case_trigger pass_view_calls)

lemma pass_view_advance: "keeps pass_view (advance L i trigger)" "keeps pass_view (log_run L sid st)"
  unfolding log_run_def advance_def by (intro keeps_core keeps_case_trigger pass_view_calls pass_view_load)+

lemma pass_view_ensure: "keeps pass_view (ensure_next_runs L)"
  unfolding ensure_next_runs_def ensure_next_run_def
  by (intro keeps_core keeps_case_trigger pass_view_calls pass_view_load pass_view_advance)

lemma schedule_total [total_intros]:
  "never_fails load_system_tz" "never_fails (log_run L sid st)" "never_fails (advance L i trigger)"
  "never_fails (start_broadcast i)" "never_fails (handle_due L d)" "never_fails (ensure_next_runs L)"
  "never_fails (due_schedules L t)" "never_fails (soonest_next_run L)"
proof -
  have a: "never_fails load_system_tz" "never_fails (log_run L sid st)" "never_fails (start_broadcast i)" for i sid st
    unfolding load_system_tz_def log_run_def start_broadcast_def by (intro total_intros)+
  have b: "never_fails (advance L i trigger)" for i trigger
    unfolding advance_def by (intro total_intros a)
  have c: "never_fails (ensure_next_run L tz r)" for tz r
    unfolding ensure_next_run_def by (intro total_intros a)
  show "never_fails load_system_tz" "never_fails (log_run L sid st)" "never_fails (advance L i trigger)"
    "never_fails (start_broadcast i)" "never_fails (handle_due L d)" "never_fails (ensure_next_runs L)"
    "never_fails (due_schedules L t)" "never_fails (soonest_next_run L)"
    unfolding handle_due_def ensure_next_runs_def due_schedules_def soonest_next_run_def
    by (intro a b c total_intros)+
qed

lemma handle_due_view:
  "pass_view (snd (handle_due L (i, trigger) s)) = (active_schedule s, pipe_state s,
     tasks (sys s) @ (if live_now s then [] else [TRunBroadcast i]), clock (sys s))"
proof -
  have k: "pass_view (snd (advance L i trigger t)) = pass_view t" for t
    by (rule keepsD [OF pass_view_advance(1)])
  have "pass_view (snd (then_do (log_run L sid st) (ws_send e) t)) = pass_view t" for sid st e t
    by (rule keepsD [where m = "then_do (log_run L sid st) (ws_send e)"])
       (intro keeps_core keeps_case_trigger pass_view_calls pass_view_advance)
  then show ?thesis
    by (auto simp: handle_due_def snd_then schedule_total total_intros k live_now_def start_broadcast_def
        spawn_task_def) (auto simp: pass_view_def set_sys_def)
qed

text \<open>A pass handles the due schedules one after the other, whatever calls fail,
  but a broadcast it starts is only spawned: none of them is the active one
  before the pass is over. So either all due schedules are skipped, because
  something was live before, or all of them are started, two broadcasts at
  once when two are due.\<close>
theorem due_schedules_all_start:
  "\<exists>t. forM (handle_due L) due s = (Inr (), t) \<and> active_schedule t = active_schedule s \<and>
    tasks (sys t) = tasks (sys s) @ (if live_now s then [] else map (\<lambda>(i, _). TRunBroadcast i) due)"
proof (induction due arbitrary: s)
  case (Cons d due)
  obtain i trigger where d: "d = (i, trigger)" by (cases d)
  let ?u = "snd ((handle_due L d :: (app, 'a, unit) prog) s)"
  have run: "(handle_due L d :: (app, 'a, unit) prog) s = (Inr (), ?u)"
    using never_fails_run [OF schedule_total(5), where s = s] by simp
  have u: "active_schedule ?u = active_schedule s" "pipe_state ?u = pipe_state s"
    "tasks (sys ?u) = tasks (sys s) @ (if live_now s then [] else [TRunBroadcast i])"
    using handle_due_view [where 'a = 'a, of L i trigger s] by (auto simp: d pass_view_def)
  obtain t where "forM (handle_due L) due ?u = (Inr () :: 'a + unit, t)" "active_schedule t = active_schedule ?u"
    "tasks (sys t) = tasks (sys ?u) @ (if live_now ?u then [] else map (\<lambda>(i, _). TRunBroadcast i) due)"
    using Cons [of ?u] by blast
  moreover have "live_now ?u = live_now s" using u by (simp add: live_now_def)
  ultimately show ?case
    using run u by (auto simp: d)
qed simp


section \<open>After its occurrence a schedule is not due\<close>

definition rows_of :: "string \<Rightarrow> db \<Rightarrow> schedule_row set" where
  "rows_of i d = {r \<in> set (schedules d). sd_id r = i}"

lemma set_update_where: "set (update_where P f rs) = (\<lambda>r. if P r then f r else r) ` set rs"
  by (simp add: update_where_def)

lemma is_due_cleared: "\<not> is_due t (r\<lparr>sd_enabled := 0, sd_next_run_at := None\<rparr>)"
  by (simp add: is_due_def)

lemma rows_of_update:
  assumes "\<And>r. sd_id (f r) = sd_id r"
  shows "rows_of j (update_schedule i f d) = (if j = i then f ` rows_of i d else rows_of j d)"
  using assms by (auto simp: rows_of_def update_schedule_def set_update_where)

lemma log_run_db:
  "schedules (db (snd (log_run L sid st s))) = schedules (db s) \<and> (no_faults s \<longrightarrow> no_faults (snd (log_run L sid st s)))"
  by (auto simp: log_run_def fresh_uuid_def sql_exec_def fallible_def no_faults_def next_fault_def
      set_sys_def drop_fault_def split: option.split list.split)

text \<open>The rows the advance leaves, with no call failing.\<close>

lemma advance_rows:
  assumes "no_faults s" "cron_later L b" "rfc3339_ordered L b"
    and "r \<in> rows_of (show_uuid L i) (db (snd ((advance L i trigger :: (app, 'e, unit) prog) s)))"
  shows "\<not> is_due (rfc3339 L (clock (sys s))) r"
proof (cases trigger)
  case (Once a)
  have "db (snd ((advance L i trigger :: (app, 'e, unit) prog) s)) = update_schedule (show_uuid L i) (\<lambda>r. r\<lparr>sd_enabled := 0, sd_next_run_at := None\<rparr>) (db s)"
    using assms(1) by (simp add: Once advance_def sql_exec_def fallible_def drop_fault_none)
  then show ?thesis using assms(4) is_due_cleared by (auto simp: rows_of_update)
next
  case (Cron e)
  obtain tz where "db (snd ((advance L i trigger :: (app, 'e, unit) prog) s)) = update_schedule (show_uuid L i)
      (\<lambda>r. r\<lparr>sd_next_run_at := map_option (rfc3339 L) (next_run_after L trigger tz (clock (sys s)))\<rparr>) (db s)"
    using assms(1) by (simp add: Cron advance_def load_system_tz_def read_setting_def ok_flatten_def
      sql_read_def sql_exec_def fallible_def drop_fault_none now_def andThen_def)
  with assms(4) obtain r0 where r: "r = r0\<lparr>sd_next_run_at := map_option (rfc3339 L) (next_run_after L trigger tz (clock (sys s)))\<rparr>"
    by (auto simp: rows_of_update)
  show ?thesis
  proof (cases "next_run_after L trigger tz (clock (sys s))")
    case (Some u)
    then have "clock (sys s) < u" "u < b" using next_run_cron_later [OF assms(2)] Cron by auto
    then have "rfc3339 L (clock (sys s)) < rfc3339 L u" using assms(3) by (simp add: rfc3339_ordered_def)
    then show ?thesis using Some by (auto simp: r is_due_def)
  qed (simp add: r is_due_def)
qed

lemma advance_others:
  "j \<noteq> show_uuid L i \<Longrightarrow>
    rows_of j (db (snd ((advance L i trigger :: (app, 'e, unit) prog) s))) = rows_of j (db s)"
  by (cases trigger) (auto simp: advance_def load_system_tz_def read_setting_def ok_flatten_def
      sql_read_def sql_exec_def fallible_def now_def andThen_def rows_of_update split: option.split)


section \<open>The pass\<close>



section \<open>A schedule is answered as it was posted\<close>

lemma row_trigger_posted: "row_trigger (posted_row L u tz t i c m) = us_trigger u"
  by (cases "us_trigger u") (auto simp: posted_row_def trigger_cols_def row_trigger_def unwrap_text_def)

lemma uuids_json: "uuid_text L \<Longrightarrow> strings_text L \<Longrightarrow> uuids_of_json L (uuids_to_json L is) = Some is"
proof -
  assume L: "uuid_text L" "strings_text L"
  have "those (map (parse_uuid L) (map (show_uuid L) is)) = Some is"
    using L(1) by (induction "is") (auto simp: uuid_text_def)
  then show ?thesis using L(2) by (simp add: uuids_of_json_def uuids_to_json_def strings_text_def)
qed

text \<open>The rows the loop of \<open>replace\_items\<close> adds.\<close>

lemma insert_items_loop:
  assumes "forM (item_insert L sid) (enumerate n items) s = (Inr (), t)"
  shows "schedules (db t) = schedules (db s) \<and>
    (\<exists>rs. schedule_items (db t) = schedule_items (db s) @ rs \<and> (\<forall>r \<in> set rs. ir_schedule_id r = sid) \<and>
      map ir_position rs = map of_nat [n..<n + length items] \<and>
      map ir_item_kind rs = map (item_kind_as_str \<circ> ci_kind) items \<and>
      map ir_ref_id rs = map (show_uuid L \<circ> ci_ref_id) items)"
  using assms
proof (induction items arbitrary: n s)
  case (Cons it items)
  from Cons.prems obtain v where one: "item_insert L sid (n, it) s = (Inr (), v)"
    and rest: "forM (item_insert L sid) (enumerate (Suc n) items) v = (Inr (), t)"
    by (auto simp: andThen_Inr_iff)
  obtain i u where u: "fresh_uuid L s = (Inr i :: mux_error + uuid, u)" "db u = db s"
    by (simp add: fresh_uuid_def)
  let ?r = "\<lparr>ir_id = show_uuid L i, ir_schedule_id = sid, ir_position = of_nat n,
         ir_item_kind = item_kind_as_str (ci_kind it), ir_ref_id = show_uuid L (ci_ref_id it)\<rparr>"
  have "q (sql_try (insert_item ?r)) u = (Inr (), v)"
    using one u(1) by (simp add: item_insert_def)
  then have "insert_item ?r (db s) = Some (db v)" using u by (metis q_try_Inr)
  then have "schedule_items (db v) = schedule_items (db s) @ [?r]" "schedules (db v) = schedules (db s)"
    by (auto simp: insert_item_def insert_row_Some split: if_splits dest!: sym [of _ "db v"])
  moreover obtain rs where "schedules (db t) = schedules (db v)"
      "schedule_items (db t) = schedule_items (db v) @ rs" "\<forall>r \<in> set rs. ir_schedule_id r = sid"
      "map ir_position rs = map of_nat [Suc n..<Suc n + length items]"
      "map ir_item_kind rs = map (item_kind_as_str \<circ> ci_kind) items"
      "map ir_ref_id rs = map (show_uuid L \<circ> ci_ref_id) items"
    using Cons.IH [OF rest] by auto
  moreover have "[n..<n + length (it # items)] = n # [Suc n..<Suc n + length items]"
    by (simp add: upt_rec)
  ultimately show ?case
    by (intro conjI exI [of _ "?r # rs"]) (simp_all del: upt_Suc)
qed simp

lemma replaced_items:
  assumes "replace_items L i items s = (Inr (), t)" "length items < 2 ^ 31"
  shows "schedules (db t) = schedules (db s) \<and>
    (\<exists>rs. items_of (show_uuid L i) (db t) = rs \<and> map ir_position rs = map of_nat [0..<length items] \<and>
      map ir_item_kind rs = map (item_kind_as_str \<circ> ci_kind) items \<and>
      map ir_ref_id rs = map (show_uuid L \<circ> ci_ref_id) items)"
proof -
  let ?sid = "show_uuid L i"
  from assms(1) obtain u where del: "q (sql_exec (\<lambda>d. d\<lparr>schedule_items :=
      delete_where (\<lambda>r. ir_schedule_id r = ?sid) (schedule_items d)\<rparr>)) s = (Inr (), u)"
    and loop: "forM (item_insert L ?sid) (enumerate 0 items) u = (Inr (), t)"
    by (auto simp: replace_items_def andThen_Inr_iff)
  have u: "schedules (db u) = schedules (db s)"
    "filter (\<lambda>r. ir_schedule_id r = ?sid) (schedule_items (db u)) = []"
    using q_exec_Inr [OF del] by (auto simp: delete_where_def)
  obtain rs where rs: "schedules (db t) = schedules (db u)"
      "schedule_items (db t) = schedule_items (db u) @ rs" "\<forall>r \<in> set rs. ir_schedule_id r = ?sid"
      "map ir_position rs = map of_nat [0..<length items]"
      "map ir_item_kind rs = map (item_kind_as_str \<circ> ci_kind) items"
      "map ir_ref_id rs = map (show_uuid L \<circ> ci_ref_id) items"
    using insert_items_loop [OF loop] by auto
  have "sint (of_nat n :: i64) = int n" if "n < 2 ^ 31" for n
    using that by (simp add: signed_of_nat signed_take_bit_int_eq_self)
  then have "map (\<lambda>r. sint (ir_position r)) rs = map int [0..<length items]"
    using arg_cong [OF rs(4), of "map sint"] assms(2) by (auto simp: comp_def)
  then have "sort_key (\<lambda>r. sint (ir_position r)) rs = rs"
    by (intro sort_key_sorted) (auto simp: sorted_iff_nth_mono)
  moreover have "filter (\<lambda>r. ir_schedule_id r = ?sid) (schedule_items (db t)) = rs"
    using rs(2,3) u(2) by simp
  ultimately show ?thesis
    using rs u by (auto simp: items_of_def)
qed

lemma map_eq_nth: "map f xs = map g ys \<Longrightarrow> n < length xs \<Longrightarrow> f (xs ! n) = g (ys ! n) \<and> length xs = length ys"
  by (metis length_map nth_map)

text \<open>C22: what the creation of a schedule answers, whatever calls fail on the way, is
  the schedule that was posted: name, state, trigger, destinations, standby
  asset, end, and the items with their kinds and references in the order
  posted, numbered from zero.\<close>
theorem created_schedule_is_as_posted:
  assumes "uuid_text L" "strings_text L" "length (us_items u) < 2 ^ 31"
    and "create_schedule L u s = (Inr sc, t)"
  shows "sched_name sc = us_name u \<and> sched_enabled sc = us_enabled u \<and> sched_trigger sc = us_trigger u \<and>
    sched_destinations sc = us_destination_ids u \<and> sched_standby sc = us_standby_asset_id u \<and>
    sched_end sc = us_end_behavior u \<and> sched_until sc = us_until_at u \<and>
    map (\<lambda>i. (item_kind i, item_ref i)) (sched_items sc) = map (\<lambda>i. (ci_kind i, ci_ref_id i)) (us_items u) \<and>
    map (unat \<circ> item_position) (sched_items sc) = [0..<length (us_items u)]"
proof -
  from assms(4) obtain i s1 tz n c s2 s3 s4 r1 r2 r3 where
    ins: "q (sql_try (insert_schedule (posted_row L u tz n (show_uuid L i) c c))) s1 = (Inr r1, s2)"
    and items: "replace_items L i (us_items u) s2 = (Inr r2, s3)"
    and s4: "nudge_scheduler s3 = (Inr r3 :: mux_error + unit, s4)"
    and load: "load_schedule L (show_uuid L i) s4 = (Inr (Some sc), t)"
    unfolding create_schedule_def andThen_Inr_iff need_Inr_iff by blast
  let ?r = "posted_row L u tz n (show_uuid L i) c c" and ?sid = "show_uuid L i"
  have id: "sd_id ?r = ?sid" by (simp add: posted_row_def split: prod.split)
  have new: "?sid \<notin> sd_id ` set (schedules (db s1))" "schedules (db s2) = schedules (db s1) @ [?r]"
    using q_try_Inr [OF ins] id by (auto simp: insert_schedule_def insert_row_Some dest!: sym [of _ "db s2"])
  have db: "db s4 = db s3"
    using s4 by (auto simp: nudge_scheduler_def now_def)
  obtain rs where rs: "schedules (db s3) = schedules (db s2)" "items_of ?sid (db s3) = rs"
      "map ir_position rs = map of_nat [0..<length (us_items u)]"
      "map ir_item_kind rs = map (item_kind_as_str \<circ> ci_kind) (us_items u)"
      "map ir_ref_id rs = map (show_uuid L \<circ> ci_ref_id) (us_items u)"
    using replaced_items [OF _ assms(3)] items by auto
  have "find (\<lambda>r. sd_id r = ?sid) (schedules (db s4)) = Some ?r"
    using new rs(1) db id find_None_iff [of "\<lambda>r. sd_id r = ?sid" "schedules (db s1)"]
    by (auto simp: find_append image_iff split: option.split)
  then have sc: "sc = row_schedule L ?r rs"
    using load rs(2) db by (auto simp: load_schedule_def andThen_Inr_iff dest!: q_read_Inr)
  have len: "length rs = length (us_items u)" using rs(3) by (metis length_map length_upt minus_nat.diff_0)
  have row: "ir_item_kind (rs ! k) = item_kind_as_str (ci_kind (us_items u ! k))"
    "ir_ref_id (rs ! k) = show_uuid L (ci_ref_id (us_items u ! k))" "ir_position (rs ! k) = of_nat k"
    if "k < length rs" for k
    using map_eq_nth [OF rs(4) that] map_eq_nth [OF rs(5) that] map_eq_nth [OF rs(3) that] that len by auto
  have "map (\<lambda>i. (item_kind i, item_ref i)) (sched_items sc) = map (\<lambda>i. (ci_kind i, ci_ref_id i)) (us_items u)"
    using len row assms(1)
    by (intro nth_equalityI) (auto simp: sc row_schedule_def row_item_def uuid_or_nil_def uuid_text_def)
  moreover have "unat (ucast (of_nat k :: i64) :: u32) = k" if "k < 2 ^ 31" for k
    using that by (simp add: unsigned_ucast_eq unsigned_of_nat take_bit_nat_eq_self)
  then have "map (unat \<circ> item_position) (sched_items sc) = [0..<length (us_items u)]"
    using len row assms(3)
    by (intro nth_equalityI) (auto simp: sc row_schedule_def row_item_def)
  ultimately show ?thesis
    using row_trigger_posted [of L u tz n ?sid c c] uuids_json [OF assms(1,2)] assms(1)
    by (auto simp: sc row_schedule_def posted_row_def uuid_text_def bind_map_option comp_def split: prod.splits)
qed

section \<open>Witnesses\<close>

lemma sample_crates:
  "cron_later sample_lib (10 ^ 20)" "rfc3339_ordered sample_lib b" "uuid_text sample_lib" "strings_text sample_lib"
  using sample_uuid sample_strings
  by (auto simp: cron_later_def rfc3339_ordered_def uuid_text_def strings_text_def replicate_less sample_lib_def
      split: if_splits)

definition sample_row :: schedule_row where
  "sample_row = \<lparr>sd_id = ''5'', sd_name = ''nightly'', sd_enabled = 1, sd_trigger_kind = ''cron'',
     sd_trigger_at = None, sd_trigger_cron = Some ''x'', sd_destination_ids = '''', sd_standby_asset_id = None,
     sd_end_behavior = ''stop'', sd_until_at = None, sd_next_run_at = Some [], sd_created_at = '''',
     sd_updated_at = ''''\<rparr>"

definition due_state :: app where
  "due_state = sample_state\<lparr>db := empty_db\<lparr>schedules := [sample_row]\<rparr>\<rparr>"


definition sample_post :: upsert_schedule where
  "sample_post = \<lparr>us_name = ''nightly'', us_enabled = True, us_trigger = Cron ''x'', us_destination_ids = [3],
     us_standby_asset_id = None, us_end_behavior = EndLoop, us_until_at = None,
     us_items = [\<lparr>ci_kind = ItemVod, ci_ref_id = 7\<rparr>]\<rparr>"

lemma created_schedule_is_as_posted_witness:
  "\<exists>sc t. create_schedule sample_lib sample_post sample_state = (Inr sc, t) \<and> sched_destinations sc = [3]"
proof -
  have nf: "no_faults (set_sys f s)" if "no_faults s" "\<And>o1. faults (f o1) = faults o1" for f s
    using that by (simp add: no_faults_def set_sys_def)
  have nudge: "no_faults (s\<lparr>schedule_nudge := x\<rparr>) = no_faults s" for s x
    by (simp add: no_faults_def)
  have [simp]: "db sample_state = empty_db" "uuids (sys sample_state) = 0" "clock (sys sample_state) = 0"
    "no_faults sample_state"
    by (simp_all add: sample_state_def initial_state_def idle_os_def no_faults_def)
  have tz: "(load_system_tz :: (app, mux_error, string) prog) s = (Inr (case settings (db s) ''system_timezone'' of None \<Rightarrow> ''UTC'' | Some t \<Rightarrow> t), s)"
    if "no_faults s" for s :: app
    using that by (simp add: load_system_tz_def read_setting_def ok_flatten_def sql_read_def fallible_def
      drop_fault_none andThen_def)
  have "cron_valid sample_lib (to_six_field ''x'')"
    by (simp add: sample_lib_def to_six_field_def trim_def is_space_def)
  then have "\<exists>sc t. create_schedule sample_lib sample_post sample_state = (Inr sc, t)"
    by (simp add: create_schedule_def sample_post_def validate_schedule_def fresh_uuid_def now_def
        system_tz_def tz nf nudge q_try_ok q_exec_ok q_read_ok insert_schedule_def insert_row_def empty_db_def
        replace_items_def item_insert_def insert_item_def nudge_scheduler_def load_schedule_def
        delete_where_def posted_row_def trigger_cols_def)
  then show ?thesis
    using created_schedule_is_as_posted [OF sample_crates(3,4), of sample_post sample_state]
    by (fastforce simp: sample_post_def)
qed


end
