(* ===== verification/Router.thy ===== *)
theory Router
  imports Flv
begin

text \<open>
  The program router (\<open>crates/api/src/program.rs\<close>): the task that takes video
  from the routed source and audio from the audio routing and sends one stream
  of tags to \<open>program_tx\<close>. The body of its \<open>select!\<close> is the function
  \<open>router_step\<close>, one branch per ready future; \<open>router_trans\<close> adds when each
  branch is ready, and \<open>router_reach\<close> lets the rest of the server act between
  two steps. The phases are the points where the task waits.
\<close>

section \<open>Reading a tag\<close>

definition tag_type :: "bytes \<Rightarrow> byte option" where
  "tag_type data = (if data = [] then None else Some (data ! 0))"

definition is_video_keyframe :: "bytes \<Rightarrow> bool" where
  "is_video_keyframe data =
    (if length data < 13 \<or> data ! 0 \<noteq> FLV_TAG_VIDEO then False
     else let frame_type = data ! 11 AND 0xF0;
              is_seq_header = (data ! 12 = 0)
          in frame_type = 0x10 \<and> \<not> is_seq_header)"

definition is_sequence_header :: "bytes \<Rightarrow> bool" where
  "is_sequence_header data =
    (if length data < 13 then False
     else let tt = data ! 0
          in if tt = FLV_TAG_VIDEO then data ! 12 = 0
             else if tt = FLV_TAG_AUDIO \<and> length data > 12 then data ! 12 = 0
             else False)"

text \<open>\<open>remap_tag(data, first_ts, base_output, output_ts)\<close>: the tag, and the two
  references after the call.\<close>

definition remap_tag ::
    "bytes \<Rightarrow> u32 option \<Rightarrow> u32 \<Rightarrow> u32 \<Rightarrow> bytes \<times> u32 option \<times> u32" where
  "remap_tag data first_ts base_output output_ts =
    (case read_tag_timestamp data of
       Some src_ts \<Rightarrow>
         (let base = (case first_ts of None \<Rightarrow> src_ts | Some b \<Rightarrow> b);
              elapsed = src_ts - base;
              new_ts = base_output + elapsed
          in (rewrite_tag_timestamp data new_ts, Some base, new_ts))
     | None \<Rightarrow> (data, first_ts, output_ts))"

section \<open>State\<close>

datatype phase =
    Entering
  | WaitSource
  | WaitRelay
  | Forwarding
  | Returned

record router =
  phase :: phase
  seen_source :: nat
  seen_routing :: nat
  out_ts :: u32
  current_source :: uuid
  same_source :: bool
  audio_rx :: bool
  forwarded :: nat
  got_keyframe :: bool
  first_video_ts :: "u32 option"
  first_audio_ts :: "u32 option"
  base_ts :: u32
  pending :: "uuid option"
  pending_relay :: "nat option"

text \<open>The router as \<open>run_program_router\<close> starts it, subscribed to channels whose
  versions were \<open>vs\<close> and \<open>vr\<close>.\<close>

definition router_init :: "nat \<Rightarrow> nat \<Rightarrow> router" where
  "router_init vs vr =
    \<lparr>phase = Entering, seen_source = vs, seen_routing = vr, out_ts = 0, current_source = 0,
     same_source = True, audio_rx = False, forwarded = 0, got_keyframe = False,
     first_video_ts = None, first_audio_ts = None, base_ts = 0, pending = None,
     pending_relay = None\<rparr>"

datatype router_event =
    Enter
  | SourceChanged
  | SourceGone
  | RoutingChanged
  | RoutingGone
  | PendingMsg recv
  | VideoMsg recv
  | AudioMsg recv

section \<open>Steps\<close>

definition send_sequence_headers :: "uuid \<Rightarrow> uuid \<Rightarrow> u32 \<Rightarrow> app \<Rightarrow> app" where
  "send_sequence_headers video_source audio_source ts s =
    (let headers = sequence_headers s;
         s1 = (case headers video_source of
             None \<Rightarrow> s
           | Some seq \<Rightarrow> (case video seq of
               None \<Rightarrow> s
             | Some v \<Rightarrow> program_send (rewrite_tag_timestamp v ts) s));
         audio_seq = (case headers audio_source of
             Some seq \<Rightarrow> Some seq
           | None \<Rightarrow> headers video_source)
     in case audio_seq of
          None \<Rightarrow> s1
        | Some seq \<Rightarrow> (case audio seq of
            None \<Rightarrow> s1
          | Some a \<Rightarrow> program_send (rewrite_tag_timestamp a ts) s1))"

definition pick_audio_source :: "audio_routing \<Rightarrow> uuid \<Rightarrow> uuid" where
  "pick_audio_source r current =
    (if audio_follows_video r \<or> active_audio_source r = None then current
     else case active_audio_source r of None \<Rightarrow> current | Some a \<Rightarrow> a)"

text \<open>One pass of the outer loop up to the point where it waits.\<close>

definition enter :: "app \<times> router \<Rightarrow> app \<times> router" where
  "enter = (\<lambda>(s, r).
    (let r1 = r\<lparr>seen_source := version (program_source s)\<rparr>
     in case cur (program_source s) of
          None \<Rightarrow> (s, r1\<lparr>phase := WaitSource\<rparr>)
        | Some current \<Rightarrow>
            (let r2 = r1\<lparr>seen_routing := version (routing s)\<rparr>;
                 audio_id = pick_audio_source (cur (routing s)) current;
                 same = (current = audio_id);
                 s1 = send_sequence_headers current audio_id (out_ts r) s
             in case get_media_relay current s1 of
                  None \<Rightarrow> (s1, r2\<lparr>phase := WaitRelay, current_source := current\<rparr>)
                | Some _ \<Rightarrow>
                    (s1, r2\<lparr>phase := Forwarding, current_source := current, same_source := same,
                       audio_rx := (\<not> same \<and> get_media_relay audio_id s1 \<noteq> None),
                       forwarded := 0, got_keyframe := False,
                       first_video_ts := None, first_audio_ts := None,
                       base_ts := out_ts r, pending := None\<rparr>))))"

definition on_source_changed :: "app \<times> router \<Rightarrow> app \<times> router" where
  "on_source_changed = (\<lambda>(s, r).
    (let r1 = r\<lparr>seen_source := version (program_source s)\<rparr>
     in case phase r of
          WaitSource \<Rightarrow> (s, r1\<lparr>phase := Entering\<rparr>)
        | WaitRelay \<Rightarrow> (s, r1\<lparr>phase := Entering\<rparr>)
        | Forwarding \<Rightarrow>
            (case cur (program_source s) of
               None \<Rightarrow> (s, r1)
             | Some new_source \<Rightarrow>
                 if new_source = current_source r then (s, r1)
                 else (s, r1\<lparr>pending := Some new_source,
                             pending_relay := get_media_relay new_source s\<rparr>))
        | _ \<Rightarrow> (s, r)))"

definition on_routing_changed :: "app \<times> router \<Rightarrow> app \<times> router" where
  "on_routing_changed = (\<lambda>(s, r).
    (s, r\<lparr>seen_routing := version (routing s), phase := Entering\<rparr>))"

definition on_pending :: "recv \<Rightarrow> app \<times> router \<Rightarrow> app \<times> router" where
  "on_pending msg = (\<lambda>(s, r).
    (case msg of
       Got data \<Rightarrow>
         (case pending r of
            None \<Rightarrow> (s, r)
          | Some ps \<Rightarrow>
              if is_sequence_header data then (s, r)
              else if tag_type data = Some FLV_TAG_VIDEO \<and> is_video_keyframe data then
                (let audio_id = pick_audio_source (cur (routing s)) ps;
                     s1 = send_sequence_headers ps audio_id (out_ts r) s;
                     first = Some (case read_tag_timestamp data of None \<Rightarrow> 0 | Some t \<Rightarrow> t)
                 in case remap_tag data first (out_ts r) (out_ts r) of
                      (remapped, _, ts) \<Rightarrow>
                        (program_send remapped s1, r\<lparr>out_ts := ts, phase := Entering\<rparr>))
              else (s, r))
     | Lagged _ \<Rightarrow> (s, r)
     | Closed \<Rightarrow> (s, r\<lparr>pending := None\<rparr>)))"

definition on_video :: "recv \<Rightarrow> app \<times> router \<Rightarrow> app \<times> router" where
  "on_video msg = (\<lambda>(s, r).
    (case msg of
       Got data \<Rightarrow>
         (let tt = tag_type data;
              starts = (\<not> got_keyframe r \<and> tt = Some FLV_TAG_VIDEO \<and> is_video_keyframe data);
              r1 = (if starts then r\<lparr>got_keyframe := True\<rparr> else r)
          in if \<not> got_keyframe r \<and> tt = Some FLV_TAG_VIDEO \<and> \<not> is_video_keyframe data
                \<and> \<not> is_sequence_header data then (s, r)
             else if \<not> got_keyframe r1 \<and> tt = Some FLV_TAG_AUDIO \<and> \<not> same_source r then (s, r1)
             else if same_source r \<or> tt = Some FLV_TAG_VIDEO \<or> is_sequence_header data then
               (case remap_tag data (first_video_ts r1) (base_ts r1) (out_ts r1) of
                  (remapped, first, ts) \<Rightarrow>
                    (program_send remapped s,
                     r1\<lparr>first_video_ts := first, out_ts := ts, forwarded := Suc (forwarded r1)\<rparr>))
             else (s, r1))
     | Lagged _ \<Rightarrow> (s, r)
     | Closed \<Rightarrow> (s, r\<lparr>phase := Entering\<rparr>)))"

definition on_audio :: "recv \<Rightarrow> app \<times> router \<Rightarrow> app \<times> router" where
  "on_audio msg = (\<lambda>(s, r).
    (case msg of
       Got data \<Rightarrow>
         if tag_type data = Some FLV_TAG_AUDIO then
           (case remap_tag data (first_audio_ts r) (base_ts r) (out_ts r) of
              (remapped, first, ts) \<Rightarrow>
                (program_send remapped s,
                 r\<lparr>first_audio_ts := first, out_ts := ts, forwarded := Suc (forwarded r)\<rparr>))
         else (s, r)
     | Lagged _ \<Rightarrow> (s, r)
     | Closed \<Rightarrow> (s, r\<lparr>audio_rx := False\<rparr>)))"

fun router_step :: "router_event \<Rightarrow> app \<times> router \<Rightarrow> app \<times> router" where
  "router_step Enter c = enter c"
| "router_step SourceChanged c = on_source_changed c"
| "router_step SourceGone (s, r) = (s, r\<lparr>phase := Returned\<rparr>)"
| "router_step RoutingChanged c = on_routing_changed c"
| "router_step RoutingGone (s, r) = (s, r\<lparr>phase := Returned\<rparr>)"
| "router_step (PendingMsg m) c = on_pending m c"
| "router_step (VideoMsg m) c = on_video m c"
| "router_step (AudioMsg m) c = on_audio m c"

text \<open>When a branch is ready. A switch to a source without a relay is given the
  receiver of a fresh channel whose sender is dropped at once
  (\<open>broadcast::channel(1).0.subscribe()\<close>, here \<open>pending_relay = None\<close>): all it ever
  receives is that the channel is closed. The senders of the two watch channels live in the
  \<open>AppState\<close> the router itself holds, so the two Gone events are ready in no
  run of the server; they are kept for the early returns of the code.\<close>

fun ready :: "router_event \<Rightarrow> app \<times> router \<Rightarrow> bool" where
  "ready Enter (s, r) = (phase r = Entering)"
| "ready SourceChanged (s, r) =
    (phase r \<in> {WaitSource, WaitRelay, Forwarding} \<and> changed_since (seen_source r) (program_source s))"
| "ready RoutingChanged (s, r) =
    (phase r = Forwarding \<and> changed_since (seen_routing r) (routing s))"
| "ready (PendingMsg m) (s, r) =
    (phase r = Forwarding \<and> pending r \<noteq> None \<and> (pending_relay r = None \<longrightarrow> m = Closed))"
| "ready (VideoMsg m) (s, r) = (phase r = Forwarding)"
| "ready (AudioMsg m) (s, r) = (phase r = Forwarding \<and> audio_rx r)"
| "ready SourceGone c = False"
| "ready RoutingGone c = False"

text \<open>A run: steps of the router, and between them any change of the server
  that leaves what the router sent alone.\<close>

inductive router_trans :: "app \<times> router \<Rightarrow> router_event option \<Rightarrow> app \<times> router \<Rightarrow> bool" where
  own: "ready e c \<Longrightarrow> router_trans c (Some e) (router_step e c)"
| other: "program_tx t = program_tx s \<Longrightarrow> router_trans (s, r) None (t, r)"

inductive router_reach :: "app \<times> router \<Rightarrow> bool" where
  start: "router_reach (s, router_init (version (program_source s)) (version (routing s)))"
| step: "router_reach c \<Longrightarrow> router_trans c l c' \<Longrightarrow> router_reach c'"

inductive_cases router_trans_own: "router_trans c (Some e) c'"
inductive_cases router_trans_other: "router_trans c None c'"

text \<open>A run of given events, for statements about a whole scenario; each event
  must be ready when its turn comes.\<close>

fun router_run :: "router_event list \<Rightarrow> app \<times> router \<Rightarrow> (app \<times> router) option" where
  "router_run [] c = Some c"
| "router_run (e # es) c = (if ready e c then router_run es (router_step e c) else None)"

section \<open>Frames of the steps\<close>

lemma headers_frame:
  "send_sequence_headers v a ts s = s\<lparr>program_tx := program_tx (send_sequence_headers v a ts s)\<rparr>"
  by (simp add: send_sequence_headers_def program_send_def Let_def split: option.split)

text \<open>The headers the router would send, as a list.\<close>

definition header_tags :: "uuid \<Rightarrow> uuid \<Rightarrow> u32 \<Rightarrow> app \<Rightarrow> bytes list" where
  "header_tags v a ts s =
    (case sequence_headers s v of None \<Rightarrow> [] | Some e \<Rightarrow>
       (case video e of None \<Rightarrow> [] | Some t \<Rightarrow> [rewrite_tag_timestamp t ts])) @
    (case (case sequence_headers s a of Some e \<Rightarrow> Some e | None \<Rightarrow> sequence_headers s v) of
       None \<Rightarrow> [] | Some e \<Rightarrow>
       (case audio e of None \<Rightarrow> [] | Some t \<Rightarrow> [rewrite_tag_timestamp t ts]))"

lemma headers_sent:
  "program_tx (send_sequence_headers v a ts s) = program_tx s @ header_tags v a ts s"
  by (simp add: send_sequence_headers_def header_tags_def program_send_def Let_def split: option.split)

lemma send_sequence_headers_eq:
  "send_sequence_headers v a ts s = s\<lparr>program_tx := program_tx s @ header_tags v a ts s\<rparr>"
  using headers_frame headers_sent by metis

lemmas step_defs = enter_def on_source_changed_def on_routing_changed_def on_pending_def
  on_video_def on_audio_def

text \<open>A step changes nothing of the server but appends to the program.\<close>

definition appends :: "app \<Rightarrow> app \<Rightarrow> bool" where
  "appends s t \<longleftrightarrow> (\<exists>out. t = s\<lparr>program_tx := program_tx s @ out\<rparr>)"

lemma appends_refl [simp, intro]: "appends s s"
  unfolding appends_def by (rule exI [of _ "[]"]) simp

lemma appends_trans: "appends s t \<Longrightarrow> appends t u \<Longrightarrow> appends s u"
  by (auto simp: appends_def)

lemma appends_send [intro]: "appends s t \<Longrightarrow> appends s (program_send b t)"
  by (auto simp: appends_def program_send_def)

lemma appends_headers [intro]: "appends s t \<Longrightarrow> appends s (send_sequence_headers v a ts t)"
  by (auto simp: appends_def send_sequence_headers_eq)

lemma step_appends: "appends (fst c) (fst (router_step e c))"
proof -
  obtain s r where c: "c = (s, r)" by (cases c)
  have "appends s (fst (enter c))" "appends s (fst (on_source_changed c))"
    "appends s (fst (on_routing_changed c))" "appends s (fst (on_pending m c))"
    "appends s (fst (on_video m c))" "appends s (fst (on_audio m c))" for m
    by (auto simp: c step_defs Let_def split: option.split phase.split recv.split prod.split)
  then show ?thesis by (cases e) (auto simp: c)
qed

section \<open>Restamping\<close>

lemma remap_tag_some:
  assumes "read_tag_timestamp d = Some t"
  shows "remap_tag d f b o1 =
    (let base = (case f of None \<Rightarrow> t | Some x \<Rightarrow> x); v = b + (t - base)
     in (rewrite_tag_timestamp d v, Some base, v))"
  using assms by (simp add: remap_tag_def Let_def)

lemma read_ts_some: "length d \<ge> 8 \<Longrightarrow> \<exists>t. read_tag_timestamp d = Some t"
  by (simp add: read_tag_timestamp_def Let_def)

lemma kinds_rewrite [simp]:
  "tag_type (rewrite_tag_timestamp d v) = tag_type d"
  "is_video_keyframe (rewrite_tag_timestamp d v) = is_video_keyframe d"
  "is_sequence_header (rewrite_tag_timestamp d v) = is_sequence_header d"
proof -
  have "rewrite_tag_timestamp d v = [] \<longleftrightarrow> d = []"
    by (metis length_0_conv rewrite_length)
  then show "tag_type (rewrite_tag_timestamp d v) = tag_type d"
    by (simp add: tag_type_def rewrite_other)
qed (simp_all add: is_video_keyframe_def is_sequence_header_def rewrite_other)

lemma kinds_remap:
  assumes "remap_tag d f b o1 = (x, f', o2)"
  shows "tag_type x = tag_type d" "is_video_keyframe x = is_video_keyframe d"
    "is_sequence_header x = is_sequence_header d"
  using assms by (auto simp: remap_tag_def Let_def split: option.splits)

lemma keyframe_not_header: "is_video_keyframe d \<Longrightarrow> \<not> is_sequence_header d"
  by (auto simp: is_video_keyframe_def is_sequence_header_def Let_def FLV_TAG_VIDEO_def split: if_splits)

lemma keyframe_is_video: "is_video_keyframe d \<Longrightarrow> tag_type d = Some FLV_TAG_VIDEO \<and> length d \<ge> 13"
  by (auto simp: is_video_keyframe_def tag_type_def Let_def split: if_splits)

section \<open>Switching\<close>

text \<open>While a switch is pending, a message of the new source changes what
  the router sends or where it is only if it is a video keyframe of that
  source; then the codec headers of the new source and the keyframe, stamped
  with the last timestamp sent, are appended, and the router re-enters its
  outer loop. Headers, other frames and lags of the new source are dropped.\<close>
theorem switch_needs_keyframe:
  assumes "ready (PendingMsg m) (s, r)"
    and "router_step (PendingMsg m) (s, r) = (s', r')"
    and "program_tx s' \<noteq> program_tx s \<or> phase r' \<noteq> phase r"
  shows "\<exists>k ps. m = Got k \<and> is_video_keyframe k \<and> pending r = Some ps \<and> phase r' = Entering \<and>
    out_ts r' = out_ts r \<and>
    program_tx s' = program_tx s @
      header_tags ps (pick_audio_source (cur (routing s)) ps) (out_ts r) s @
      [rewrite_tag_timestamp k (out_ts r)]"
proof (cases m)
  case (Got k)
  obtain ps where ps: "pending r = Some ps" using assms(1) by auto
  have key: "is_video_keyframe k" "\<not> is_sequence_header k"
    using assms(2,3) Got ps keyframe_not_header by (auto simp: on_pending_def split: if_splits)
  then have k: "tag_type k = Some FLV_TAG_VIDEO" "length k \<ge> 8"
    using keyframe_is_video [of k] by auto
  then obtain t where t: "read_tag_timestamp k = Some t" using read_ts_some by blast
  then show ?thesis
    using assms(2) key k t Got ps
    by (auto simp: on_pending_def remap_tag_some Let_def program_send_def send_sequence_headers_eq)
qed (use assms in \<open>auto simp: on_pending_def\<close>)

text \<open>The current source is forwarded the same way whether or not a switch
  is pending: preparing a switch never interrupts the program.\<close>
theorem pending_keeps_current:
  "router_step (VideoMsg m) (s, r\<lparr>pending := p, pending_relay := ch\<rparr>) =
    (case router_step (VideoMsg m) (s, r) of
       (s', r') \<Rightarrow> (s', r'\<lparr>pending := p, pending_relay := ch\<rparr>))"
  by (cases m) (auto simp: on_video_def Let_def split: prod.split)

section \<open>Timestamps\<close>

definition stamp :: "u32 \<Rightarrow> u32 \<Rightarrow> bytes \<Rightarrow> bytes" where
  "stamp base first d =
    (case read_tag_timestamp d of None \<Rightarrow> d | Some t \<Rightarrow> rewrite_tag_timestamp d (base + (t - first)))"

abbreviation video_run :: "bytes list \<Rightarrow> app \<times> router \<Rightarrow> (app \<times> router) option" where
  "video_run ds \<equiv> router_run (map (\<lambda>d. VideoMsg (Got d)) ds)"

lemma on_video_forward:
  assumes "got_keyframe r" "same_source r" "first_video_ts r = Some f" "length d \<ge> 8"
  shows "\<exists>v. on_video (Got d) (s, r) =
    (program_send (stamp (base_ts r) f d) s,
     r\<lparr>first_video_ts := Some f, out_ts := v, forwarded := Suc (forwarded r)\<rparr>)"
proof -
  obtain t where "read_tag_timestamp d = Some t" using read_ts_some assms(4) by blast
  then show ?thesis
    using assms by (auto simp: on_video_def remap_tag_some stamp_def Let_def)
qed

lemma video_run_stamps:
  assumes "phase r = Forwarding" "got_keyframe r" "same_source r" "first_video_ts r = Some f"
    and "\<forall>d \<in> set ds. length d \<ge> 8"
  shows "\<exists>r'. video_run ds (s, r) =
    Some (s\<lparr>program_tx := program_tx s @ map (stamp (base_ts r) f) ds\<rparr>, r')"
  using assms
proof (induction ds arbitrary: s r)
  case (Cons d ds)
  obtain v where v: "on_video (Got d) (s, r) =
      (program_send (stamp (base_ts r) f d) s,
       r\<lparr>first_video_ts := Some f, out_ts := v, forwarded := Suc (forwarded r)\<rparr>)"
    using on_video_forward [of r f d s] Cons.prems by auto
  let ?r = "r\<lparr>first_video_ts := Some f, out_ts := v, forwarded := Suc (forwarded r)\<rparr>"
  obtain r' where "video_run ds (program_send (stamp (base_ts r) f d) s, ?r) =
      Some ((program_send (stamp (base_ts r) f d) s)\<lparr>program_tx :=
        program_tx (program_send (stamp (base_ts r) f d) s) @ map (stamp (base_ts ?r) f) ds\<rparr>, r')"
    using Cons.IH [of ?r "program_send (stamp (base_ts r) f d) s"] Cons.prems by auto
  then show ?case using Cons.prems v by (auto simp: program_send_def)
qed (auto intro!: exI)

lemma enter_forwards:
  assumes "cur (program_source s) = Some i" "get_media_relay i s \<noteq> None"
    and "pick_audio_source (cur (routing s)) i = i" and "enter (s, r) = (s1, r1)"
  shows "phase r1 = Forwarding" "same_source r1" "\<not> got_keyframe r1" "first_video_ts r1 = None"
    "base_ts r1 = out_ts r" "out_ts r1 = out_ts r" "current_source r1 = i" "pending r1 = None"
    "s1 = s\<lparr>program_tx := program_tx s @ header_tags i i (out_ts r) s\<rparr>"
  using assms
  by (auto simp: enter_def Let_def send_sequence_headers_eq get_media_relay_def)

text \<open>C4: a source that is entered with its own audio continues the program
  clock: after its codec headers, its first keyframe and every later tag are
  sent in order, the keyframe with the last timestamp sent before and each
  tag at its own distance from the keyframe (modulo 2 to the 32).\<close>
theorem program_clock_continues:
  assumes "cur (program_source s) = Some i" "get_media_relay i s \<noteq> None"
    and "pick_audio_source (cur (routing s)) i = i"
    and "is_video_keyframe k" "read_tag_timestamp k = Some f" "\<forall>d \<in> set ds. length d \<ge> 8"
  shows "\<exists>s' r'. video_run (k # ds) (enter (s, r)) = Some (s', r') \<and>
    program_tx s' = program_tx s @ header_tags i i (out_ts r) s @
      rewrite_tag_timestamp k (out_ts r) # map (stamp (out_ts r) f) ds"
proof -
  obtain s1 r1 where e: "enter (s, r) = (s1, r1)" by (cases "enter (s, r)")
  note en = enter_forwards [OF assms(1-3) e]
  let ?r = "r1\<lparr>got_keyframe := True, first_video_ts := Some f, out_ts := out_ts r,
    forwarded := Suc (forwarded r1)\<rparr>"
  let ?s = "program_send (rewrite_tag_timestamp k (out_ts r)) s1"
  have first: "on_video (Got k) (s1, r1) = (?s, ?r)"
    using assms(4,5) en keyframe_is_video keyframe_not_header
    by (auto simp: on_video_def remap_tag_some Let_def)
  obtain r' where "video_run ds (?s, ?r) =
      Some (?s\<lparr>program_tx := program_tx ?s @ map (stamp (base_ts ?r) f) ds\<rparr>, r')"
    using video_run_stamps [of ?r f ds ?s] en assms(6) by auto
  then show ?thesis
    using first en by (simp add: e program_send_def)
qed

section \<open>Decodable from the first frame\<close>

text \<open>\<open>opens_decodable ts\<close>: the first video tag of \<open>ts\<close> that is no codec header
  is a keyframe.\<close>

fun opens_decodable :: "bytes list \<Rightarrow> bool" where
  "opens_decodable [] = True"
| "opens_decodable (t # ts) =
    (if tag_type t = Some FLV_TAG_VIDEO \<and> \<not> is_sequence_header t
     then is_video_keyframe t else opens_decodable ts)"

definition only_headers :: "bytes list \<Rightarrow> bool" where
  "only_headers ts \<longleftrightarrow> (\<forall>t \<in> set ts. tag_type t = Some FLV_TAG_VIDEO \<longrightarrow> is_sequence_header t)"

lemma opens_decodable_append:
  "only_headers xs \<Longrightarrow> opens_decodable (xs @ ys) = opens_decodable ys"
  by (induction xs) (auto simp: only_headers_def)

lemma opens_decodable_snoc: "opens_decodable xs \<Longrightarrow> \<not> only_headers xs \<Longrightarrow> opens_decodable (xs @ ys)"
  by (induction xs) (fastforce simp: only_headers_def)+

text \<open>What holds of the tags \<open>out\<close> sent since the router entered.\<close>

definition gated :: "bytes list \<Rightarrow> router \<Rightarrow> bool" where
  "gated out r \<longleftrightarrow> opens_decodable out \<and> (only_headers out \<longleftrightarrow> \<not> got_keyframe r)"

lemma gated_snoc:
  assumes "gated out r"
    and "tag_type x = Some FLV_TAG_VIDEO \<longrightarrow> is_sequence_header x \<or> got_keyframe r \<or> is_video_keyframe x"
    and "got_keyframe r' \<longleftrightarrow>
      got_keyframe r \<or> tag_type x = Some FLV_TAG_VIDEO \<and> \<not> is_sequence_header x"
  shows "gated (out @ [x]) r'"
proof (cases "only_headers out")
  case True
  then show ?thesis
    using assms opens_decodable_append [OF True, of "[x]"]
    by (auto simp: gated_def only_headers_def)
qed (use assms opens_decodable_snoc in \<open>auto simp: gated_def only_headers_def\<close>)

lemma gated_mono: "gated out r \<Longrightarrow> got_keyframe r' = got_keyframe r \<Longrightarrow> gated out r'"
  by (simp add: gated_def)

text \<open>The switch sends its keyframe outside the gate, so the gate is about the
  events other than the keyframe of a pending source.\<close>

lemma gate_step:
  assumes "gated out r" "phase r = Forwarding" "router_step e (s, r) = (s', r')" "e \<noteq> Enter"
    and "\<forall>k. e \<noteq> PendingMsg (Got k)"
  shows "\<exists>o2. program_tx s' = program_tx s @ o2 \<and> gated (out @ o2) r'"
proof -
  have silent: ?thesis if "program_tx s' = program_tx s" "got_keyframe r' = got_keyframe r"
    using that assms(1) gated_mono by (intro exI [of _ "[]"]) auto
  show ?thesis
  proof (cases e)
    case (VideoMsg m)
    show ?thesis
    proof (cases m)
      case (Got d)
      define starts where "starts =
        (\<not> got_keyframe r \<and> tag_type d = Some FLV_TAG_VIDEO \<and> is_video_keyframe d)"
      consider "program_tx s' = program_tx s" "got_keyframe r' = got_keyframe r"
        | "program_tx s' = program_tx s" "\<not> got_keyframe r" "got_keyframe r'"
        | x f v where "remap_tag d (first_video_ts r) (base_ts r) (out_ts r) = (x, f, v)"
          "program_tx s' = program_tx s @ [x]" "got_keyframe r' = (got_keyframe r \<or> starts)"
          "tag_type d = Some FLV_TAG_VIDEO \<longrightarrow>
            is_sequence_header d \<or> got_keyframe r \<or> is_video_keyframe d"
        using assms(3)
        by (cases "remap_tag d (first_video_ts r) (base_ts r) (out_ts r)")
           (auto simp: VideoMsg Got on_video_def Let_def starts_def program_send_def
             split: if_splits)
      then show ?thesis
      proof cases
        case 2
        then have False using assms(3) keyframe_is_video
          by (auto simp: VideoMsg Got on_video_def Let_def program_send_def
              split: if_splits prod.splits)
        then show ?thesis ..
      next
        case (3 x f v)
        have "gated (out @ [x]) r'"
          by (rule gated_snoc [OF assms(1)])
             (use 3 kinds_remap [OF 3(1)] keyframe_not_header in \<open>auto simp: starts_def\<close>)
        then show ?thesis using 3(2) by blast
      qed (rule silent)
    qed (use assms(3) silent in \<open>auto simp: VideoMsg on_video_def\<close>)
  next
    case (AudioMsg m)
    show ?thesis
    proof (cases "\<exists>d. m = Got d \<and> tag_type d = Some FLV_TAG_AUDIO")
      case True
      then obtain d where d: "m = Got d" "tag_type d = Some FLV_TAG_AUDIO" by blast
      obtain x f v where x: "remap_tag d (first_audio_ts r) (base_ts r) (out_ts r) = (x, f, v)"
        by (cases "remap_tag d (first_audio_ts r) (base_ts r) (out_ts r)")
      have "gated (out @ [x]) r'"
        by (rule gated_snoc [OF assms(1)])
           (use assms(3) x d kinds_remap [OF x] in
             \<open>auto simp: AudioMsg on_audio_def FLV_TAG_AUDIO_def FLV_TAG_VIDEO_def\<close>)
      then show ?thesis
        using assms(3) x d by (auto simp: AudioMsg on_audio_def program_send_def)
    qed (use assms(3) silent in \<open>auto simp: AudioMsg on_audio_def split: recv.splits\<close>)
  next
    case (PendingMsg m)
    then show ?thesis
      using assms silent by (cases m) (auto simp: on_pending_def)
  qed (use assms silent in \<open>auto simp: on_source_changed_def on_routing_changed_def Let_def
      split: option.splits if_splits\<close>)
qed

lemma gate_run:
  assumes "gated out r" "phase r = Forwarding" "router_run es (s, r) = Some (s', r')"
    and "Enter \<notin> set es" "\<forall>k. PendingMsg (Got k) \<notin> set es"
  shows "\<exists>o2. program_tx s' = program_tx s @ o2 \<and> gated (out @ o2) r'"
  using assms
proof (induction es arbitrary: s r out)
  case (Cons e es)
  obtain s1 r1 where st: "router_step e (s, r) = (s1, r1)" by (cases "router_step e (s, r)")
  from Cons.prems(3) have run: "router_run es (s1, r1) = Some (s', r')"
    by (simp add: st split: if_splits)
  obtain o1 where o1: "program_tx s1 = program_tx s @ o1" "gated (out @ o1) r1"
    using gate_step [OF Cons.prems(1,2) st] Cons.prems(4,5) by auto
  show ?case
  proof (cases "es = [] \<or> phase r1 = Forwarding")
    case True
    then show ?thesis
      using Cons.IH [OF o1(2) _ run] Cons.prems(4,5) o1 run by force
  next
    case False
    then obtain e' es' where es: "es = e' # es'" by (cases es) auto
    have "ready e' (s1, r1)" using run es by (simp split: if_splits)
    moreover have "phase r1 = Entering \<or> phase r1 = Returned"
      using st False Cons.prems(2,4)
      by (cases e) (auto simp: enter_def step_defs Let_def split: option.splits recv.splits
          if_splits prod.splits phase.splits)
    ultimately have "e' = Enter" by (cases e') auto
    then show ?thesis using Cons.prems(4) es by simp
  qed
qed simp


section \<open>What the router cannot do\<close>

text \<open>The stream is not gapless across a switch: when the keyframe of the new
  source has been sent and the router has re-entered on it, the frames that
  follow the keyframe are dropped until the source sends its next keyframe.\<close>
theorem switch_drops_until_next_keyframe:
  assumes "ready (PendingMsg (Got k)) (s, r)" "is_video_keyframe k" "pending r = Some b"
    and "cur (program_source s) = Some b" "get_media_relay b s \<noteq> None"
    and "tag_type d = Some FLV_TAG_VIDEO" "\<not> is_video_keyframe d" "\<not> is_sequence_header d"
  shows "\<exists>s2 r2. router_run [PendingMsg (Got k), Enter] (s, r) = Some (s2, r2) \<and>
    phase r2 = Forwarding \<and> current_source r2 = b \<and>
    router_step (VideoMsg (Got d)) (s2, r2) = (s2, r2)"
proof -
  obtain s1 r1 where st: "router_step (PendingMsg (Got k)) (s, r) = (s1, r1)"
    by (cases "router_step (PendingMsg (Got k)) (s, r)")
  have "appends s s1" using step_appends [of "(s, r)" "PendingMsg (Got k)"] st by simp
  then have s1: "program_source s1 = program_source s" "media_relays s1 = media_relays s"
    by (auto simp: appends_def)
  have r1: "phase r1 = Entering"
    using st assms(2,3) keyframe_not_header keyframe_is_video [of k]
    by (auto simp: on_pending_def Let_def split: prod.splits)
  obtain s2 r2 where en: "enter (s1, r1) = (s2, r2)" by (cases "enter (s1, r1)")
  have r2: "phase r2 = Forwarding" "current_source r2 = b" "\<not> got_keyframe r2"
    using en assms(4,5) s1
    by (auto simp: enter_def Let_def get_media_relay_def send_sequence_headers_eq)
  then have "router_step (VideoMsg (Got d)) (s2, r2) = (s2, r2)"
    using assms(6-8) by (simp add: on_video_def Let_def)
  moreover have "router_run [PendingMsg (Got k), Enter] (s, r) = Some (s2, r2)"
    using assms(1) st r1 en by simp
  ultimately show ?thesis using r2 by blast
qed

text \<open>A router that found no relay for the routed source waits for the next
  send on \<open>program_source\<close> and for nothing else; a source that reconnects, which
  puts a new relay into the registry, does not bring the program back.\<close>
theorem no_relay_waits_for_a_switch:
  assumes "phase r = WaitRelay" "\<not> changed_since (seen_source r) (program_source s)"
  shows "\<not> ready e (s\<lparr>media_relays := (media_relays s)(current_source r \<mapsto> ch)\<rparr>, r)"
  using assms by (cases e) auto

text \<open>A pending switch is not withdrawn when the operator goes back to the
  current source: the pending source stays subscribed and its next keyframe
  is sent into the program although it is no longer selected.\<close>
theorem stale_switch_still_fires:
  assumes "phase r = Forwarding" "pending r = Some b" "pending_relay r \<noteq> None"
    and "cur (program_source s) = Some (current_source r)"
    and "changed_since (seen_source r) (program_source s)" "is_video_keyframe k"
  shows "\<exists>s' r'. router_run [SourceChanged, PendingMsg (Got k)] (s, r) = Some (s', r') \<and>
    last (program_tx s') = rewrite_tag_timestamp k (out_ts r)"
proof -
  have k: "\<not> is_sequence_header k" "tag_type k = Some FLV_TAG_VIDEO" "length k \<ge> 8"
    using assms(6) keyframe_not_header keyframe_is_video [of k] by auto
  then obtain t where "read_tag_timestamp k = Some t" using read_ts_some by blast
  then show ?thesis
    using assms k
    by (simp add: on_source_changed_def on_pending_def remap_tag_some Let_def program_send_def)
qed

section \<open>Invariants of a run\<close>

definition router_inv :: "app \<times> router \<Rightarrow> bool" where
  "router_inv c \<longleftrightarrow> (case c of (s, r) \<Rightarrow>
     (phase r = Forwarding \<longrightarrow> pending r \<noteq> Some (current_source r)) \<and>
     (phase r = Forwarding \<longrightarrow> same_source r \<longrightarrow> \<not> audio_rx r) \<and>
     (phase r = Forwarding \<longrightarrow> first_video_ts r = None \<longrightarrow> first_audio_ts r = None \<longrightarrow>
        out_ts r = base_ts r))"

lemma enter_inv: "router_inv (enter c)"
  by (cases c) (auto simp: router_inv_def enter_def Let_def split: option.split)

lemma remap_none:
  "remap_tag d f b o1 = (x, None, v) \<Longrightarrow> f = None \<and> v = o1"
  by (auto simp: remap_tag_def Let_def split: option.splits)

lemma step_inv: "router_inv c \<Longrightarrow> router_inv (router_step e c)"
proof (cases e)
  case (VideoMsg m)
  assume "router_inv c"
  then show ?thesis
    by (cases c) (auto simp: VideoMsg router_inv_def on_video_def Let_def dest: remap_none
        split: recv.split prod.split)
next
  case (AudioMsg m)
  assume "router_inv c"
  then show ?thesis
    by (cases c) (auto simp: AudioMsg router_inv_def on_audio_def dest: remap_none
        split: recv.split prod.split)
next
  case (PendingMsg m)
  assume "router_inv c"
  then show ?thesis
    by (cases c) (auto simp: PendingMsg router_inv_def on_pending_def Let_def
        split: recv.split prod.split option.split)
qed (cases c; auto simp: router_inv_def on_source_changed_def on_routing_changed_def Let_def
    enter_inv [unfolded router_inv_def] enter_inv split: option.split phase.split)+

text \<open>In every state the router reaches, whatever the rest of the server
  does between its steps: it never prepares a switch to the source it already
  forwards, it reads a second stream only when the audio comes from another
  source (so no audio tag is forwarded twice), and until the first tag of a
  source is sent the program clock stands still.\<close>
theorem router_reach_inv:
  assumes "router_reach (s, r)" "phase r = Forwarding"
  shows "pending r \<noteq> Some (current_source r) \<and> (same_source r \<longrightarrow> \<not> audio_rx r) \<and>
    (first_video_ts r = None \<and> first_audio_ts r = None \<longrightarrow> out_ts r = base_ts r)"
proof -
  have "router_inv c" if "router_reach c" for c
    using that
  proof (induction rule: router_reach.induct)
    case (start s)
    then show ?case by (simp add: router_inv_def router_init_def)
  next
    case (step c l c')
    from step.hyps(2) show ?case
    proof cases
      case (own e)
      then show ?thesis using step.IH step_inv by simp
    next
      case (other t s r)
      then show ?thesis using step.IH by (simp add: router_inv_def)
    qed
  qed
  then show ?thesis using assms by (fastforce simp: router_inv_def)
qed

section \<open>Headers\<close>

lemma header_tags_ok:
  assumes "headers_ok s" "t \<in> set (header_tags v a ts s)"
  shows "is_sequence_header t"
proof -
  have "is_sequence_header (rewrite_tag_timestamp x ts)"
    if "sequence_headers s i = Some e" "video e = Some x \<or> audio e = Some x" for i e x
  proof -
    have "entry_ok e" using assms(1) that(1) by (auto simp: headers_ok_def)
    then have "length x \<ge> 17" "x ! 0 = 9 \<or> x ! 0 = 8" "x ! 12 = 0"
      using that(2) by (auto simp: entry_ok_def tag_of_def)
    then have "is_sequence_header x"
      by (auto simp: is_sequence_header_def FLV_TAG_VIDEO_def FLV_TAG_AUDIO_def)
    then show ?thesis by simp
  qed
  then show ?thesis
    using assms(2) by (auto simp: header_tags_def split: option.splits) metis+
qed

text \<open>What the readers cache is what the router takes it for: when every
  cached tag comes from a reader, all that \<open>send_sequence_headers\<close> puts into the
  program are codec headers.\<close>
theorem sent_headers_are_headers:
  assumes "headers_ok s"
  shows "\<exists>hs. program_tx (send_sequence_headers v a ts s) = program_tx s @ hs \<and>
    length hs \<le> 2 \<and> (\<forall>h \<in> set hs. is_sequence_header h)"
proof (intro exI conjI ballI)
  show "program_tx (send_sequence_headers v a ts s) = program_tx s @ header_tags v a ts s"
    by (rule headers_sent)
  show "length (header_tags v a ts s) \<le> 2"
    by (simp add: header_tags_def split: option.split)
  show "is_sequence_header h" if "h \<in> set (header_tags v a ts s)" for h
    using header_tags_ok [OF assms that] .
qed

section \<open>Concrete runs\<close>

text \<open>A keyframe and an inter frame with their timestamps, and a router that
  forwards source 1 while a switch to source 2 is pending.\<close>

definition sample_key :: bytes where "sample_key = flv_video_tag [0x17, 1] 100"
definition sample_frame :: bytes where "sample_frame = flv_video_tag [0x27, 1] 140"

definition switching_router :: router where
  "switching_router = (router_init 0 0)\<lparr>phase := Forwarding, current_source := 1, out_ts := 5000,
     pending := Some 2, pending_relay := Some 0\<rparr>"

definition switching_state :: app where
  "switching_state = sample_state\<lparr>program_source := \<lparr>cur = Some 2, version = 0\<rparr>,
     media_relays := [1 \<mapsto> 1, 2 \<mapsto> 0]\<rparr>"

lemma sample_key_facts:
  "is_video_keyframe sample_key" "\<not> is_sequence_header sample_key"
  "tag_type sample_key = Some FLV_TAG_VIDEO"
  "read_tag_timestamp sample_key = Some 100" "length sample_key = 17"
  "tag_type sample_frame = Some FLV_TAG_VIDEO" "\<not> is_video_keyframe sample_frame"
  "\<not> is_sequence_header sample_frame" "length sample_frame = 17"
  by code_simp+

lemmas sample_defs = switching_router_def router_init_def switching_state_def sample_state_def
  initial_state_def new_watch_def default_audio_routing_def

theorem switch_needs_keyframe_witness:
  "program_tx (fst (router_step (PendingMsg (Got sample_key)) (switching_state, switching_router))) =
    [rewrite_tag_timestamp sample_key 5000]"
proof -
  let ?c = "router_step (PendingMsg (Got sample_key)) (switching_state, switching_router)"
  have "ready (PendingMsg (Got sample_key)) (switching_state, switching_router)"
    "phase (snd ?c) \<noteq> phase switching_router"
    using sample_key_facts by (simp_all add: sample_defs on_pending_def Let_def remap_tag_some)
  then show ?thesis
    using switch_needs_keyframe [of "Got sample_key" switching_state switching_router "fst ?c" "snd ?c"]
    by (auto simp: sample_defs header_tags_def)
qed

theorem program_clock_continues_witness:
  "\<exists>s' r'. video_run [sample_key, sample_frame] (enter (switching_state, switching_router)) =
      Some (s', r') \<and>
    program_tx s' = [rewrite_tag_timestamp sample_key 5000, rewrite_tag_timestamp sample_frame 5040]"
proof -
  have "stamp 5000 100 sample_frame = rewrite_tag_timestamp sample_frame 5040"
    by code_simp
  then show ?thesis
    using program_clock_continues [of switching_state 2 sample_key 100 "[sample_frame]" switching_router]
      sample_key_facts
    by (simp add: sample_defs get_media_relay_def pick_audio_source_def header_tags_def)
qed


theorem switch_drops_until_next_keyframe_witness:
  "\<exists>s2 r2. router_run [PendingMsg (Got sample_key), Enter] (switching_state, switching_router) = Some (s2, r2) \<and>
    current_source r2 = 2 \<and> router_step (VideoMsg (Got sample_frame)) (s2, r2) = (s2, r2)"
proof -
  have "ready (PendingMsg (Got sample_key)) (switching_state, switching_router)"
    "pending switching_router = Some 2" "cur (program_source switching_state) = Some 2"
    "get_media_relay 2 switching_state \<noteq> None"
    by (simp_all add: sample_defs get_media_relay_def)
  then show ?thesis
    using switch_drops_until_next_keyframe [of sample_key switching_state switching_router 2 sample_frame]
      sample_key_facts by blast
qed

theorem no_relay_waits_for_a_switch_witness:
  "\<not> ready (VideoMsg (Got sample_key))
     (sample_state\<lparr>media_relays := (media_relays sample_state)(1 \<mapsto> 7)\<rparr>,
      (router_init 0 0)\<lparr>phase := WaitRelay, current_source := 1\<rparr>)"
  using no_relay_waits_for_a_switch [of "(router_init 0 0)\<lparr>phase := WaitRelay, current_source := 1\<rparr>"
    sample_state "VideoMsg (Got sample_key)" 7]
  by (simp add: sample_defs changed_since_def)

theorem stale_switch_still_fires_witness:
  "\<exists>s' r'. router_run [SourceChanged, PendingMsg (Got sample_key)]
      (set_program_source (Some 1) switching_state, switching_router) = Some (s', r') \<and>
    last (program_tx s') = rewrite_tag_timestamp sample_key 5000"
  using stale_switch_still_fires [of switching_router 2 "set_program_source (Some 1) switching_state" sample_key]
    sample_key_facts
  by (simp add: sample_defs set_program_source_def changed_since_def)

theorem router_reach_inv_witness:
  "pending (snd (enter (switching_state, router_init 0 0))) \<noteq> Some 2"
proof -
  have "router_reach (switching_state, router_init 0 0)"
    using router_reach.start [of switching_state] by (simp add: sample_defs)
  then have "router_reach (enter (switching_state, router_init 0 0))"
    using router_reach.step router_trans.own [of Enter "(switching_state, router_init 0 0)"]
    by (fastforce simp: router_init_def)
  then show ?thesis
    using router_reach_inv [of "fst (enter (switching_state, router_init 0 0))"
        "snd (enter (switching_state, router_init 0 0))"]
    by (simp add: sample_defs enter_def get_media_relay_def Let_def send_sequence_headers_eq
        header_tags_def pick_audio_source_def)
qed

theorem sent_headers_are_headers_witness:
  "\<exists>hs. program_tx (send_sequence_headers 1 1 0
      (sample_state\<lparr>sequence_headers := [1 \<mapsto> default_seq_headers\<lparr>video := Some (flv_video_tag [0x17, 0] 0)\<rparr>]\<rparr>))
     = hs \<and> (\<forall>h \<in> set hs. is_sequence_header h)"
proof -
  let ?s = "sample_state\<lparr>sequence_headers :=
    [1 \<mapsto> default_seq_headers\<lparr>video := Some (flv_video_tag [0x17, 0] 0)\<rparr>]\<rparr>"
  have "tag_of 9 (flv_video_tag [0x17, 0] 0)" "length (flv_video_tag [0x17, 0] 0) = 17"
    "flv_video_tag [0x17, 0] 0 ! 12 = 0"
    by code_simp+
  then have "headers_ok ?s"
    by (simp add: headers_ok_def entry_ok_def default_seq_headers_def)
  then show ?thesis
    using sent_headers_are_headers [of ?s 1 1 0] by (auto simp: sample_defs)
qed
end
