(* ===== verification/Compositor.thy ===== *)
theory Compositor
  imports Egress
begin

text \<open>
  The scene compositor (\<open>scene\_compositor.rs\<close>): one ffmpeg per active scene that
  overlays the live layers on a black canvas and publishes the result under the
  scene's identifier, and the scenes and layers themselves
  (\<open>routes/scenes.rs\<close>), whose changes restart the compositor of a scene that is
  on the program.
\<close>

section \<open>The filter graph\<close>

record comp_layer =
  cl_source_id :: uuid
  cl_x :: i32
  cl_y :: i32
  cl_w :: u32
  cl_h :: u32
  cl_opacity :: f32
  cl_fit :: layer_fit

definition fit_filter :: "layer_fit \<Rightarrow> i32 \<Rightarrow> i32 \<Rightarrow> u32 \<Rightarrow> u32 \<Rightarrow> string \<times> string \<times> string" where
  "fit_filter fit x y w h = (case fit of
      Fill \<Rightarrow> (''scale='' @ show_word w @ '':'' @ show_word h, show_i32 x, show_i32 y)
    | Cover \<Rightarrow> (''scale='' @ show_word w @ '':'' @ show_word h @
        '':force_original_aspect_ratio=increase,crop='' @ show_word w @ '':'' @ show_word h,
        show_i32 x, show_i32 y)
    | Contain \<Rightarrow> (''scale='' @ show_word w @ '':'' @ show_word h @ '':force_original_aspect_ratio=decrease'',
        show_i32 x @ ''+('' @ show_word w @ ''-w)/2'', show_i32 y @ ''+('' @ show_word h @ ''-h)/2''))"

definition layer_filter :: "lib \<Rightarrow> nat \<Rightarrow> comp_layer \<Rightarrow> string" where
  "layer_filter L n l =
    (let scale = fst (fit_filter (cl_fit l) (cl_x l) (cl_y l) (cl_w l) (cl_h l))
     in if f32_below_0999 L (cl_opacity l) then
          ''['' @ show_nat n @ '':v]setpts=PTS-STARTPTS,'' @ scale @
          '',format=yuva420p,colorchannelmixer=aa='' @ f32_to_3dp L (cl_opacity l) @ ''[l'' @ show_nat n @ '']''
        else ''['' @ show_nat n @ '':v]setpts=PTS-STARTPTS,'' @ scale @ ''[l'' @ show_nat n @ '']'')"

definition overlay_filter :: "string \<Rightarrow> nat \<Rightarrow> comp_layer \<Rightarrow> string" where
  "overlay_filter prev n l =
    (case fit_filter (cl_fit l) (cl_x l) (cl_y l) (cl_w l) (cl_h l) of (scale, ox, oy) \<Rightarrow>
      ''['' @ prev @ ''][l'' @ show_nat n @ '']overlay=x='' @ ox @ '':y='' @ oy @ '':eof_action=pass[s'' @
      show_nat n @ '']'')"

text \<open>The loop over the layers: the filters it pushes and the label of the last one.\<close>

fun layer_graph :: "lib \<Rightarrow> nat \<Rightarrow> string \<Rightarrow> comp_layer list \<Rightarrow> string list \<times> string" where
  "layer_graph L n prev [] = ([], prev)"
| "layer_graph L n prev (l # ls) =
    (case layer_graph L (Suc n) (''s'' @ show_nat n) ls of (fs, last_label) \<Rightarrow>
      (layer_filter L n l # overlay_filter prev n l # fs, last_label))"

fun join :: "string \<Rightarrow> string list \<Rightarrow> string" where
  "join sep [] = []"
| "join sep [x] = x"
| "join sep (x # y # ys) = x @ sep @ join sep (y # ys)"

definition build_filter_graph :: "lib \<Rightarrow> comp_layer list \<Rightarrow> u32 \<Rightarrow> u32 \<Rightarrow> u32 \<Rightarrow> string \<times> string" where
  "build_filter_graph L ls w h r =
    (case layer_graph L 0 ''base'' ls of (fs, final) \<Rightarrow>
      (join '';'' ((''color=c=black:s='' @ show_word w @ ''x'' @ show_word h @ '':r='' @ show_word r @ ''[base]'') # fs),
       final))"

section \<open>Starting and stopping\<close>

definition stop_scene_compositor :: "uuid \<Rightarrow> (app, 'e, unit) prog" where
  "stop_scene_compositor i =
    then_do (reg_stop Compositors i)
   (then_do (modify (remove_media_relay i))
            (modify (forget_headers i)))"

text \<open>The order in which \<open>HashMap::keys\<close> yields the running compositors is open:
  \<open>ids\<close> is any list of them.\<close>

definition stop_all_compositors :: "uuid list \<Rightarrow> (app, 'e, unit) prog" where
  "stop_all_compositors ids = forM stop_scene_compositor ids"

definition scene_layer_rows :: "string \<Rightarrow> db \<Rightarrow> layer_row list" where
  "scene_layer_rows sid d = sort_key (\<lambda>r. sint (lr_z_index r)) (filter (\<lambda>r. lr_scene_id r = sid) (layers d))"

definition produces_video :: "app \<Rightarrow> uuid \<Rightarrow> bool" where
  "produces_video s i \<longleftrightarrow> get_media_relay i s \<noteq> None \<and>
     (case sequence_headers s i of None \<Rightarrow> False | Some e \<Rightarrow> video e \<noteq> None)"

definition comp_layer_of :: "lib \<Rightarrow> app \<Rightarrow> layer_row \<Rightarrow> comp_layer option" where
  "comp_layer_of L s r = (case parse_uuid L (lr_source_id r) of
      None \<Rightarrow> None
    | Some i \<Rightarrow> if produces_video s i then
        Some \<lparr>cl_source_id = i, cl_x = ucast (lr_x r), cl_y = ucast (lr_y r),
          cl_w = max (ucast (lr_width r)) 2, cl_h = max (ucast (lr_height r)) 2,
          cl_opacity = lr_opacity r, cl_fit = layer_fit_from_db (lr_fit r)\<rparr>
      else None)"

definition layer_input_args :: "u16 \<Rightarrow> string list" where
  "layer_input_args p =
    [''-analyzeduration'', ''500000'', ''-probesize'', ''500000'', ''-f'', ''flv'',
     ''-i'', ''tcp://127.0.0.1:'' @ show_word p]"

definition compositor_args :: "lib \<Rightarrow> output_config \<Rightarrow> u16 list \<Rightarrow> comp_layer list \<Rightarrow> string list" where
  "compositor_args L c ports ls =
    (case build_filter_graph L ls (width c) (height c) (fps c) of (graph, final) \<Rightarrow>
     [''-hide_banner'', ''-loglevel'', ''warning''] @ concat (map layer_input_args ports) @
     [''-f'', ''lavfi'', ''-i'', ''anullsrc=r=48000:cl=stereo'',
      ''-filter_complex'', graph, ''-map'', ''['' @ final @ '']'', ''-map'', show_nat (length ls) @ '':a'',
      ''-c:v'', ''libx264'', ''-preset'', ''veryfast'', ''-tune'', ''zerolatency'',
      ''-b:v'', kbps (video_bitrate_kbps c), ''-maxrate'', kbps (video_bitrate_kbps c),
      ''-bufsize'', kbps (video_bitrate_kbps c * 2), ''-g'', show_word (fps c * 2),
      ''-r'', show_word (fps c), ''-pix_fmt'', ''yuv420p'',
      ''-c:a'', ''aac'', ''-b:a'', kbps (audio_bitrate_kbps c), ''-ar'', ''48000'',
      ''-f'', ''flv'', ''-flvflags'', ''no_duration_filesize'', ''pipe:1''])"

definition start_scene_compositor :: "lib \<Rightarrow> uuid \<Rightarrow> unit io" where
  "start_scene_compositor L scene =
    then_do (stop_scene_compositor scene)
   (andThen (sql_read (scene_layer_rows (show_uuid L scene))) (\<lambda>rows.
    andThen (gets (\<lambda>s. List.map_filter (comp_layer_of L s) rows)) (\<lambda>ls.
    then_do (check (ls \<noteq> []) ''scene has no live layers'')
   (andThen (load_output_config L) (\<lambda>c.
    andThen (get_or_create_media_relay scene) (\<lambda>public_tx.
    andThen (mapM (\<lambda>_. map_err (\<lambda>e. ''compositor listen: '' @ e) bind_port) ls) (\<lambda>ports.
    andThen (map_err (\<lambda>e. ''failed to start compositor ffmpeg: '' @ e)
              (spawn_child ''ffmpeg'' (compositor_args L c ports ls))) (\<lambda>child.
    then_do (reg_put Compositors scene child)
   (then_do (forM (\<lambda>(p, l). spawn_task (TFeedLayer p (cl_source_id l))) (zip ports ls))
            (spawn_task (TReadComposite scene public_tx)))))))))))"

text \<open>What the feeder of a layer writes into its socket: nothing but the file header
  when the source has lost its relay, else the cached headers and keyframe and
  then every tag until the pipe breaks or the relay closes.\<close>

definition feed_layer :: "app \<Rightarrow> uuid \<Rightarrow> (recv \<times> bool) list \<Rightarrow> bytes list" where
  "feed_layer s i ms = flv_header #
    (case get_media_relay i s of
       None \<Rightarrow> []
     | Some _ \<Rightarrow> egress_prime (sequence_headers s i) @ fst (egress_feed i ms))"

definition read_composited_output :: "uuid \<Rightarrow> nat \<Rightarrow> bytes \<Rightarrow> app \<Rightarrow> app" where
  "read_composited_output scene public_tx stdout s =
    read_flv (set_source_state scene Live) (\<lambda>s. snd ((reg_stop Compositors scene :: unit io) s))
      scene public_tx stdout s"

section \<open>routes/scenes.rs\<close>

record create_layer =
  nl_source_id :: uuid
  nl_x :: "i32 option"
  nl_y :: "i32 option"
  nl_width :: "u32 option"
  nl_height :: "u32 option"
  nl_z_index :: "u32 option"
  nl_opacity :: "f32 option"
  nl_fit :: "layer_fit option"

record update_layer =
  ul_source_id :: "uuid option"
  ul_x :: "i32 option"
  ul_y :: "i32 option"
  ul_width :: "u32 option"
  ul_height :: "u32 option"
  ul_z_index :: "u32 option"
  ul_opacity :: "f32 option"
  ul_fit :: "layer_fit option"

text \<open>\<open>1.0f32\<close>.\<close>

definition f32_one :: f32 where
  "f32_one = 0x3F800000"

definition row_layer :: "lib \<Rightarrow> layer_row \<Rightarrow> layer" where
  "row_layer L r =
    \<lparr>layer_id = unwrap_or 0 (parse_uuid L (lr_id r)), layer_source = unwrap_or 0 (parse_uuid L (lr_source_id r)),
     layer_position = \<lparr>pos_x = ucast (lr_x r), pos_y = ucast (lr_y r)\<rparr>,
     layer_size = \<lparr>size_width = ucast (lr_width r), size_height = ucast (lr_height r)\<rparr>,
     layer_z = ucast (lr_z_index r), layer_opacity = lr_opacity r,
     layer_fit = layer_fit_from_db (lr_fit r)\<rparr>"

definition fetch_layers :: "lib \<Rightarrow> string \<Rightarrow> layer list handler" where
  "fetch_layers L scene = andThen (q (sql_read (scene_layer_rows scene))) (\<lambda>rows.
     ok (map (row_layer L) rows))"

text \<open>The insertion of a layer, refused without its scene or source (foreign keys).\<close>

definition insert_layer_row :: "layer_row \<Rightarrow> db \<Rightarrow> db option" where
  "insert_layer_row r d =
    (if lr_scene_id r \<notin> sc_id ` set (scenes d) \<or> lr_source_id r \<notin> sr_id ` set (sources d) then None
     else map_option (\<lambda>rs. d\<lparr>layers := rs\<rparr>) (insert_row lr_id r (layers d)))"

definition insert_layer :: "lib \<Rightarrow> string \<Rightarrow> create_layer \<Rightarrow> layer handler" where
  "insert_layer L scene cl =
    andThen (fresh_uuid L) (\<lambda>i.
    (let x = unwrap_or 0 (nl_x cl); y = unwrap_or 0 (nl_y cl);
         w = unwrap_or 1920 (nl_width cl); h = unwrap_or 1080 (nl_height cl);
         z = unwrap_or 0 (nl_z_index cl); opacity = unwrap_or f32_one (nl_opacity cl);
         fit = unwrap_or Fill (nl_fit cl)
     in then_do (q (sql_try (insert_layer_row
          \<lparr>lr_id = show_uuid L i, lr_scene_id = scene, lr_source_id = show_uuid L (nl_source_id cl),
           lr_x = scast x, lr_y = scast y, lr_width = scast w, lr_height = scast h,
           lr_z_index = scast z, lr_opacity = opacity, lr_fit = layer_fit_as_str fit\<rparr>)))
        (ok \<lparr>layer_id = i, layer_source = nl_source_id cl,
           layer_position = \<lparr>pos_x = x, pos_y = y\<rparr>, layer_size = \<lparr>size_width = w, size_height = h\<rparr>,
           layer_z = z, layer_opacity = opacity, layer_fit = fit\<rparr>)))"

definition find_scene :: "string \<Rightarrow> scene_row handler" where
  "find_scene i = andThen (q (sql_read (\<lambda>d. find (\<lambda>r. sc_id r = i) (scenes d))))
     (need (NotFound (''scene '' @ i)))"

definition list_scenes :: "lib \<Rightarrow> scene list handler" where
  "list_scenes L = andThen (q (sql_read scenes)) (mapM (\<lambda>r.
     andThen (fetch_layers L (sc_id r)) (\<lambda>ls.
     ok \<lparr>scene_id = unwrap_or 0 (parse_uuid L (sc_id r)), scene_name = sc_name r, scene_layers = ls\<rparr>)))"

definition create_scene :: "lib \<Rightarrow> string \<Rightarrow> create_layer list \<Rightarrow> scene handler" where
  "create_scene L name cls =
    andThen (fresh_uuid L) (\<lambda>i.
    andThen now (\<lambda>t.
    then_do (q (sql_try (\<lambda>d. map_option (\<lambda>rs. d\<lparr>scenes := rs\<rparr>) (insert_row sc_id
      \<lparr>sc_id = show_uuid L i, sc_name = name, sc_created_at = sql_datetime L t\<rparr> (scenes d)))))
   (andThen (mapM (insert_layer L (show_uuid L i)) cls) (\<lambda>ls.
    ok \<lparr>scene_id = i, scene_name = name, scene_layers = ls\<rparr>))))"

definition get_scene :: "lib \<Rightarrow> string \<Rightarrow> scene handler" where
  "get_scene L i = andThen (find_scene i) (\<lambda>r. andThen (fetch_layers L (sc_id r)) (\<lambda>ls.
     ok \<lparr>scene_id = unwrap_or 0 (parse_uuid L (sc_id r)), scene_name = sc_name r, scene_layers = ls\<rparr>))"

definition update_scene :: "lib \<Rightarrow> string \<Rightarrow> string option \<Rightarrow> scene handler" where
  "update_scene L i new_name = andThen (find_scene i) (\<lambda>r.
     (let name = unwrap_or (sc_name r) new_name in
      then_do (q (sql_exec (\<lambda>d. d\<lparr>scenes := update_where (\<lambda>r. sc_id r = i) (\<lambda>r. r\<lparr>sc_name := name\<rparr>) (scenes d)\<rparr>)))
     (andThen (fetch_layers L i) (\<lambda>ls.
      ok \<lparr>scene_id = unwrap_or 0 (parse_uuid L i), scene_name = name, scene_layers = ls\<rparr>))))"

definition delete_scene_handler :: "string \<Rightarrow> unit handler" where
  "delete_scene_handler i =
    andThen (q (sql_count (\<lambda>d. count_where (\<lambda>r. sc_id r = i) (scenes d)) (delete_scene i))) (\<lambda>affected.
    check (affected \<noteq> 0) (NotFound (''scene '' @ i)))"

definition activate_scene_handler :: "lib \<Rightarrow> uuid list \<Rightarrow> string \<Rightarrow> unit handler" where
  "activate_scene_handler L ids i =
    then_do (find_scene i)
   (andThen (need (BadRequest ''invalid uuid'') (parse_uuid L i)) (\<lambda>scene.
    then_do (stop_all_compositors ids)
   (then_do (map_err (\<lambda>e. BadRequest (''cannot activate scene: '' @ e)) (start_scene_compositor L scene))
   (then_do (modify (set_program_intent (Some scene)))
   (then_do (pipeline_activate_scene scene)
            (ws_send (EvSceneChanged scene ''cut'')))))))"

definition refresh_if_active :: "lib \<Rightarrow> string \<Rightarrow> (app, 'e, unit) prog" where
  "refresh_if_active L i = (case parse_uuid L i of
      None \<Rightarrow> ok ()
    | Some u \<Rightarrow> andThen (gets (\<lambda>s. cur (program_intent s) = Some u)) (\<lambda>active.
        if active then ignore (start_scene_compositor L u) else ok ()))"

definition add_layer :: "lib \<Rightarrow> string \<Rightarrow> create_layer \<Rightarrow> layer handler" where
  "add_layer L i cl =
    then_do (find_scene i)
   (andThen (insert_layer L i cl) (\<lambda>l. then_do (refresh_if_active L i) (ok l)))"

definition update_layer_handler :: "lib \<Rightarrow> string \<Rightarrow> string \<Rightarrow> update_layer \<Rightarrow> layer handler" where
  "update_layer_handler L scene i u =
    andThen (q (sql_read (\<lambda>d. find (\<lambda>r. lr_id r = i \<and> lr_scene_id r = scene) (layers d)))) (\<lambda>row.
    andThen (need (NotFound (''layer '' @ i)) row) (\<lambda>r.
    (let src = unwrap_or (lr_source_id r) (map_option (show_uuid L) (ul_source_id u));
         x = unwrap_or (ucast (lr_x r)) (ul_x u); y = unwrap_or (ucast (lr_y r)) (ul_y u);
         w = unwrap_or (ucast (lr_width r)) (ul_width u); h = unwrap_or (ucast (lr_height r)) (ul_height u);
         z = unwrap_or (ucast (lr_z_index r)) (ul_z_index u);
         opacity = unwrap_or (lr_opacity r) (ul_opacity u);
         fit = unwrap_or (layer_fit_from_db (lr_fit r)) (ul_fit u)
     in then_do (q (sql_try (\<lambda>d. if src \<notin> sr_id ` set (sources d) then None
            else Some (d\<lparr>layers := update_where (\<lambda>r. lr_id r = i) (\<lambda>r.
              r\<lparr>lr_source_id := src, lr_x := scast (x :: i32), lr_y := scast (y :: i32),
                lr_width := scast (w :: u32), lr_height := scast (h :: u32), lr_z_index := scast (z :: u32),
                lr_opacity := opacity, lr_fit := layer_fit_as_str fit\<rparr>) (layers d)\<rparr>))))
       (then_do (refresh_if_active L scene)
        (ok \<lparr>layer_id = unwrap_or 0 (parse_uuid L i), layer_source = unwrap_or 0 (parse_uuid L src),
           layer_position = \<lparr>pos_x = x, pos_y = y\<rparr>, layer_size = \<lparr>size_width = w, size_height = h\<rparr>,
           layer_z = z, layer_opacity = opacity, layer_fit = fit\<rparr>)))))"

definition delete_layer :: "lib \<Rightarrow> string \<Rightarrow> string \<Rightarrow> unit handler" where
  "delete_layer L scene i =
    andThen (q (sql_count (\<lambda>d. count_where (\<lambda>r. lr_id r = i \<and> lr_scene_id r = scene) (layers d))
      (\<lambda>d. d\<lparr>layers := delete_where (\<lambda>r. lr_id r = i \<and> lr_scene_id r = scene) (layers d)\<rparr>))) (\<lambda>affected.
    then_do (check (affected \<noteq> 0) (NotFound (''layer '' @ i)))
            (refresh_if_active L scene))"

section \<open>No orphaned compositors\<close>

lemma no_orphans_stop_compositor [preserves_intros]: "preserves (orphans_only P) (stop_scene_compositor i)"
  unfolding stop_scene_compositor_def by (intro preserves_intros orphans_calm calm_intros)

lemma calm_check [calm_intros]: "keeps proc_part (check b e)"
  by (simp add: check_def keeps_core)

lemma no_orphans_start_compositor: "preserves no_orphans (start_scene_compositor L i)"
proof -
  have stop: "wp (stop_scene_compositor i) (\<lambda>_. orphans_only {}) (\<lambda>_. orphans_only {}) s" if "orphans_only {} s" for s
    by (rule wp_preserves [OF no_orphans_stop_compositor that])
  show ?thesis
    unfolding no_orphans_only [abs_def] start_scene_compositor_def
    by (rule preserves_wp)
       (rule stop wp_seq map_err_spawn_orphans wp_reg_put_orphans calm_wp calm_intros | assumption)+
qed

text \<open>Starting and stopping compositors leaves no compositor running that no
  registry owns, whatever calls fail.\<close>
theorem compositor_no_orphans:
  "preserves no_orphans (start_scene_compositor L i) \<and>
   preserves no_orphans (stop_scene_compositor i :: unit io) \<and>
   preserves no_orphans (stop_all_compositors ids :: unit io)"
  unfolding stop_all_compositors_def no_orphans_only [abs_def]
  by (intro conjI no_orphans_start_compositor [unfolded no_orphans_only [abs_def]]
      no_orphans_stop_compositor preserves_forM)

section \<open>What is composited\<close>

text \<open>The stop leaves the caches of the other sources and the tasks alone.\<close>

lemma stop_compositor_frame:
  fixes i :: uuid and s :: app
  defines "stop \<equiv> (stop_scene_compositor i :: (app, 'e, unit) prog)"
  shows "media_relays (snd (stop s)) = (media_relays s)(i := None)"
  "sequence_headers (snd (stop s)) = (sequence_headers s)(i := None)"
  "tasks (sys (snd (stop s))) = tasks (sys s)"
  "db (snd (stop s)) = db s"
  "scene_compositors (snd (stop s)) = (scene_compositors s)(i := None)"
  "program_source (snd (stop s)) = program_source s" "program_intent (snd (stop s)) = program_intent s"
  "faults (sys (snd (stop s))) = faults (sys s)"
  "fst (stop s) = Inr ()"
proof -
  have r: "stop s = (Inr (), forget_headers i (remove_media_relay i (snd ((reg_stop Compositors i :: (app, 'e, unit) prog) s))))"
    by (simp add: stop_def stop_scene_compositor_def reg_stop_def reg_take_def andThen_def kill_opt_def kill_def split: option.split)
  have t: "reg_stop Compositors i s = ((Inr () :: 'e + unit), (case scene_compositors s i of
      None \<Rightarrow> s\<lparr>scene_compositors := (scene_compositors s)(i := None)\<rparr>
    | Some c \<Rightarrow> set_sys (\<lambda>o1. o1\<lparr>running := removeAll (pid c) (running o1)\<rparr>)
        (s\<lparr>scene_compositors := (scene_compositors s)(i := None)\<rparr>)))"
    by (simp add: reg_stop_def reg_take_def andThen_def kill_opt_def kill_def split: option.split)
  show "media_relays (snd (stop s)) = (media_relays s)(i := None)"
  "sequence_headers (snd (stop s)) = (sequence_headers s)(i := None)"
  "tasks (sys (snd (stop s))) = tasks (sys s)"
  "db (snd (stop s)) = db s"
  "scene_compositors (snd (stop s)) = (scene_compositors s)(i := None)"
  "program_source (snd (stop s)) = program_source s" "program_intent (snd (stop s)) = program_intent s"
  "faults (sys (snd (stop s))) = faults (sys s)"
  "fst (stop s) = Inr ()"
    unfolding r t by (cases "scene_compositors s i"; simp add: forget_headers_def remove_media_relay_def set_sys_def)+
qed

lemma keeps_tasks:
  "keeps (\<lambda>s. tasks (sys s)) (sql_read g)" "keeps (\<lambda>s. tasks (sys s)) (load_output_config L)"
  "keeps (\<lambda>s. tasks (sys s)) (get_or_create_media_relay i)" "keeps (\<lambda>s. tasks (sys s)) bind_port"
  "keeps (\<lambda>s. tasks (sys s)) (spawn_child prg as)" "keeps (\<lambda>s. tasks (sys s)) (reg_put Compositors i c)"
  by (auto simp: keeps_def sql_read_def fallible_def load_output_config_def load_setting_def read_setting_def
      ok_flatten_def get_or_create_media_relay_def bind_port_def spawn_child_def reg_put_def andThen_def
      kill_opt_def kill_def drop_fault_def set_sys_def Let_def split: option.split)

lemma map_filter_sources:
  "map cl_source_id (List.map_filter (comp_layer_of L s) rows) =
    filter (produces_video s) (List.map_filter (\<lambda>r. parse_uuid L (lr_source_id r)) rows)"
  by (induction rows) (auto simp: List.map_filter_def comp_layer_of_def split: option.split)

lemma produces_video_stopped:
  "produces_video (snd ((stop_scene_compositor i :: unit io) s)) j \<longleftrightarrow> j \<noteq> i \<and> produces_video s j"
  by (simp add: produces_video_def get_media_relay_def stop_compositor_frame)

text \<open>The layers of the scene whose source can be composited, lowest first.\<close>

definition live_layer_sources :: "lib \<Rightarrow> uuid \<Rightarrow> app \<Rightarrow> uuid list" where
  "live_layer_sources L scene s =
    filter (\<lambda>j. j \<noteq> scene \<and> produces_video s j)
      (List.map_filter (\<lambda>r. parse_uuid L (lr_source_id r)) (scene_layer_rows (show_uuid L scene) (db s)))"

lemma live_layers_after_stop:
  "map cl_source_id (List.map_filter (comp_layer_of L (snd ((stop_scene_compositor scene :: unit io) s)))
     (scene_layer_rows (show_uuid L scene) (db s))) = live_layer_sources L scene s"
  by (simp add: map_filter_sources produces_video_stopped [abs_def] live_layer_sources_def cong: filter_cong)


section \<open>An activation that fails\<close>

lemma stop_all_frame:
  fixes s :: app
  shows "\<exists>t. (stop_all_compositors ids :: (app, 'e, unit) prog) s = (Inr (), t) \<and>
    media_relays t = (\<lambda>j. if j \<in> set ids then None else media_relays s j) \<and>
    sequence_headers t = (\<lambda>j. if j \<in> set ids then None else sequence_headers s j) \<and>
    db t = db s \<and> program_source t = program_source s \<and> program_intent t = program_intent s \<and>
    faults (sys t) = faults (sys s)"
  unfolding stop_all_compositors_def
proof (induction ids arbitrary: s)
  case (Cons i ids)
  let ?u = "snd ((stop_scene_compositor i :: (app, 'e, unit) prog) s)"
  have run: "(stop_scene_compositor i :: (app, 'e, unit) prog) s = (Inr (), ?u)"
    using stop_compositor_frame(9) [where 'e = 'e and i = i and s = s] by (metis prod.collapse)
  obtain t where "(forM stop_scene_compositor ids :: (app, 'e, unit) prog) ?u = (Inr (), t)"
    "media_relays t = (\<lambda>j. if j \<in> set ids then None else media_relays ?u j)"
    "sequence_headers t = (\<lambda>j. if j \<in> set ids then None else sequence_headers ?u j)"
    "db t = db ?u" "program_source t = program_source ?u" "program_intent t = program_intent ?u"
    "faults (sys t) = faults (sys ?u)"
    using Cons by blast
  then show ?case
    using run by (auto simp: stop_compositor_frame fun_eq_iff)
qed simp

lemma live_layer_sources_mono:
  assumes "db t = db s" "\<And>j. produces_video t j \<Longrightarrow> produces_video s j" "live_layer_sources L scene s = []"
  shows "live_layer_sources L scene t = []"
  using assms by (auto simp: live_layer_sources_def filter_empty_conv)

lemma start_refused:
  assumes "no_faults s" "live_layer_sources L scene s = []"
  shows "start_scene_compositor L scene s =
    (Inl ''scene has no live layers'', snd ((stop_scene_compositor scene :: unit io) s))"
proof -
  obtain u where run: "(stop_scene_compositor scene :: unit io) s = (Inr (), u)"
    using stop_compositor_frame(9) [where 'e = string and i = scene and s = s] by (metis prod.collapse)
  have u: "faults (sys u) = faults (sys s)" "db u = db s"
    using run stop_compositor_frame(8,4) [where 'e = string and i = scene and s = s] by simp_all
  have "List.map_filter (comp_layer_of L u) (scene_layer_rows (show_uuid L scene) (db s)) = []"
    using live_layers_after_stop [of L scene s] assms(2) run by simp
  moreover have "sql_read g u = (Inr (g (db s)), u)" for g :: "db \<Rightarrow> layer_row list"
    using assms(1) u by (simp add: sql_read_def fallible_def drop_fault_none no_faults_def)
  ultimately show ?thesis
    using run unfolding start_scene_compositor_def by (simp add: andThen_def)
qed

text \<open>C24: activating a scene without a live layer is refused, but only after every
  running compositor was stopped: the scene that was on the program has lost
  its relay and its headers while it is still the routed source and the
  operator's choice.\<close>
theorem failed_activation_drops_program:
  assumes "no_faults s" "i \<in> sc_id ` set (scenes (db s))" "parse_uuid L i = Some scene"
    and "live_layer_sources L scene s = []" "shown \<in> set ids" "cur (program_source s) = Some shown"
  shows "\<exists>t. activate_scene_handler L ids i s =
      (Inl (BadRequest ''cannot activate scene: scene has no live layers''), t) \<and>
    cur (program_source t) = Some shown \<and> program_intent t = program_intent s \<and>
    get_media_relay shown t = None \<and> sequence_headers t shown = None"
proof -
  obtain t where t: "(stop_all_compositors ids :: unit handler) s = (Inr (), t)"
    "media_relays t = (\<lambda>j. if j \<in> set ids then None else media_relays s j)"
    "sequence_headers t = (\<lambda>j. if j \<in> set ids then None else sequence_headers s j)"
    "db t = db s" "program_source t = program_source s" "program_intent t = program_intent s"
    "faults (sys t) = faults (sys s)"
    using stop_all_frame by blast
  have nf: "no_faults t" using assms(1) t(7) by (simp add: no_faults_def)
  have "live_layer_sources L scene t = []"
    by (rule live_layer_sources_mono [OF t(4) _ assms(4)])
       (auto simp: produces_video_def get_media_relay_def t split: if_splits)
  note refused = start_refused [OF nf this]
  obtain r where r: "find (\<lambda>r. sc_id r = i) (scenes (db s)) = Some r"
    using assms(2) by (cases "find (\<lambda>r. sc_id r = i) (scenes (db s))") (auto simp: find_None_iff)
  have "find_scene i s = (Inr r, s)"
    using assms(1) r by (simp add: find_scene_def q_read_ok)
  then have "activate_scene_handler L ids i s =
      (Inl (BadRequest ''cannot activate scene: scene has no live layers''), snd ((stop_scene_compositor scene :: unit io) t))"
    using assms(3) t(1) refused by (simp add: activate_scene_handler_def map_err_def)
  then show ?thesis
    using assms(5,6) t by (simp add: stop_compositor_frame get_media_relay_def)
qed

section \<open>A scene is read back as it was created\<close>

text \<open>Rows of layers belong to a scene (the foreign key).\<close>

definition layers_have_scenes :: "db \<Rightarrow> bool" where
  "layers_have_scenes d \<longleftrightarrow> (\<forall>r \<in> set (layers d). lr_scene_id r \<in> sc_id ` set (scenes d))"

definition shows_layer :: "lib \<Rightarrow> layer_row \<Rightarrow> layer \<Rightarrow> bool" where
  "shows_layer L r l \<longleftrightarrow> row_layer L r = l \<and> sint (lr_z_index r) = sint (layer_z l)"

lemma insert_layer_run:
  assumes "uuid_text L" "insert_layer L scene cl s = (Inr l, t)"
  shows "layer_source l = nl_source_id cl \<and> scenes (db t) = scenes (db s) \<and>
    (\<exists>r. layers (db t) = layers (db s) @ [r] \<and> lr_scene_id r = scene \<and> shows_layer L r l)"
proof -
  obtain i u where u: "(fresh_uuid L :: uuid handler) s = (Inr i, u)" "db u = db s"
    by (simp add: fresh_uuid_def)
  have p: "parse_uuid L (show_uuid L (nl_source_id cl)) = Some (nl_source_id cl)" "parse_uuid L (show_uuid L i) = Some i"
    using assms(1) by (simp_all add: uuid_text_def)
  show ?thesis
    using assms(2) u p
    by (auto simp: insert_layer_def Let_def andThen_Inr_iff insert_layer_row_def insert_row_Some shows_layer_def
        row_layer_def unwrap_or_def ucast_scast_32 sint_scast_32 dest!: q_try_Inr sym [of _ "db t"] split: if_splits)
qed

lemma insert_layers_run:
  assumes "uuid_text L" "mapM (insert_layer L scene) cls s = (Inr ls, t)"
  shows "map layer_source ls = map nl_source_id cls \<and> scenes (db t) = scenes (db s) \<and>
    (\<exists>rs. layers (db t) = layers (db s) @ rs \<and> (\<forall>r \<in> set rs. lr_scene_id r = scene) \<and> list_all2 (shows_layer L) rs ls)"
  using assms(2)
proof (induction cls arbitrary: s ls)
  case (Cons c cls)
  then obtain l v ls' where l: "insert_layer L scene c s = (Inr l, v)"
    and ls': "mapM (insert_layer L scene) cls v = (Inr ls', t)" "ls = l # ls'"
    by (auto simp: andThen_Inr_iff)
  obtain r where "layers (db v) = layers (db s) @ [r]" "lr_scene_id r = scene" "shows_layer L r l"
    and v: "layer_source l = nl_source_id c" "scenes (db v) = scenes (db s)"
    using insert_layer_run [OF assms(1) l] by blast
  moreover obtain rs where "layers (db t) = layers (db v) @ rs" "\<forall>r \<in> set rs. lr_scene_id r = scene"
    "list_all2 (shows_layer L) rs ls'"
    and "map layer_source ls' = map nl_source_id cls" "scenes (db t) = scenes (db v)"
    using Cons.IH [OF ls'(1)] by blast
  ultimately show ?case using ls'(2) by (auto intro!: exI [of _ "r # rs"])
qed simp

lemma shown_layers_sorted:
  assumes "list_all2 (shows_layer L) rs ls"
  shows "map (row_layer L) (sort_key (\<lambda>r. sint (lr_z_index r)) rs) = sort_key (\<lambda>l. sint (layer_z l)) ls"
proof -
  have ls: "ls = map (row_layer L) rs" and z: "\<forall>r \<in> set rs. sint (lr_z_index r) = sint (layer_z (row_layer L r))"
    using assms by (induction rule: list_all2_induct) (auto simp: shows_layer_def)
  have "sort_key (\<lambda>r. sint (lr_z_index r)) rs = sort_key (\<lambda>r. sint (layer_z (row_layer L r))) rs"
    using z by (intro sort_key_equal) simp
  then show ?thesis using map_sort_key [of "row_layer L" "\<lambda>l. sint (layer_z l)" rs] by (simp add: ls)
qed

text \<open>A scene is read back as its creation answered it, whatever calls fail on
  the way: the same identifier and name, and the posted layers ordered by
  their height (as a signed number, as the table keeps it), each with its
  source, box, opacity and fit.\<close>
theorem created_scene_read_back:
  assumes "uuid_text L" "layers_have_scenes (db s)" "create_scene L name cls s = (Inr sc, t)"
    and "get_scene L (show_uuid L (scene_id sc)) t = (Inr sc', t')"
  shows "scene_id sc' = scene_id sc \<and> scene_name sc' = name \<and>
    scene_layers sc' = sort_key (\<lambda>l. sint (layer_z l)) (scene_layers sc) \<and>
    map layer_source (scene_layers sc) = map nl_source_id cls"
proof -
  obtain i s1 where s1: "(fresh_uuid L :: uuid handler) s = (Inr i, s1)" "db s1 = db s"
    by (simp add: fresh_uuid_def)
  obtain c s2 where c: "(now :: instant handler) s1 = (Inr c, s2)" "db s2 = db s1"
    by (simp add: now_def)
  let ?i = "show_uuid L i"
  have "then_do (q (sql_try (\<lambda>d. map_option (\<lambda>rs. d\<lparr>scenes := rs\<rparr>) (insert_row sc_id
      \<lparr>sc_id = ?i, sc_name = name, sc_created_at = sql_datetime L c\<rparr> (scenes d)))))
    (andThen (mapM (insert_layer L ?i) cls) (\<lambda>ls.
      ok \<lparr>scene_id = i, scene_name = name, scene_layers = ls\<rparr>)) s2 = (Inr sc, t)"
    using assms(3) s1 c by (simp add: create_scene_def)
  then obtain r s3 ls where ins: "q (sql_try (\<lambda>d. map_option (\<lambda>rs. d\<lparr>scenes := rs\<rparr>) (insert_row sc_id
      \<lparr>sc_id = ?i, sc_name = name, sc_created_at = sql_datetime L c\<rparr> (scenes d)))) s2 = (Inr r, s3)"
    and ls: "mapM (insert_layer L ?i) cls s3 = (Inr ls, t)"
    and sc: "sc = \<lparr>scene_id = i, scene_name = name, scene_layers = ls\<rparr>"
    unfolding andThen_Inr_iff ok_Inr_iff by blast
  let ?row = "\<lparr>sc_id = ?i, sc_name = name, sc_created_at = sql_datetime L c\<rparr>"
  have "db s2 = db s" using c s1 by simp
  then have new: "?i \<notin> sc_id ` set (scenes (db s))" "scenes (db s3) = scenes (db s) @ [?row]"
      "layers (db s3) = layers (db s)"
    using q_try_Inr [OF ins] by (auto simp: insert_row_Some dest!: sym [of _ "db s3"])
  obtain rs where rs: "layers (db t) = layers (db s3) @ rs" "\<forall>r \<in> set rs. lr_scene_id r = ?i"
      "list_all2 (shows_layer L) rs ls" and srcs: "map layer_source ls = map nl_source_id cls"
      and scn: "scenes (db t) = scenes (db s3)"
    using insert_layers_run [OF assms(1) ls] by blast
  have "lr_scene_id r \<noteq> ?i" if "r \<in> set (layers (db s))" for r
    using bspec [OF assms(2) [unfolded layers_have_scenes_def] that] new(1) by metis
  then have "filter (\<lambda>r. lr_scene_id r = ?i) (layers (db s)) = []"
    by (simp add: filter_empty_conv)
  then have "scene_layer_rows ?i (db t) = sort_key (\<lambda>r. sint (lr_z_index r)) rs"
    using rs(1,2) new(3) by (simp add: scene_layer_rows_def)
  then have rows: "map (row_layer L) (scene_layer_rows ?i (db t)) = sort_key (\<lambda>l. sint (layer_z l)) ls"
    using shown_layers_sorted [OF rs(3)] by simp
  have "find (\<lambda>r. sc_id r = ?i) (scenes (db s)) = None"
    using new(1) by (auto simp: find_None_iff image_iff)
  then have "find (\<lambda>r. sc_id r = ?i) (scenes (db t)) = Some ?row"
    using scn new(2) by (simp add: find_append)
  then have "sc' = \<lparr>scene_id = i, scene_name = name, scene_layers = map (row_layer L) (scene_layer_rows ?i (db t))\<rparr>"
    using assms(1,4) sc
    by (auto simp: get_scene_def find_scene_def fetch_layers_def andThen_Inr_iff need_Inr_iff uuid_text_def
        unwrap_or_def dest!: q_read_Inr)
  then show ?thesis using rows sc srcs by simp
qed

section \<open>Concrete runs\<close>

lemma start_composes:
  assumes "no_faults s" "live_layer_sources L scene s \<noteq> []"
  shows "\<exists>t. start_scene_compositor L scene s = (Inr (), t) \<and> no_faults t"
proof -
  obtain u where run: "(stop_scene_compositor scene :: unit io) s = (Inr (), u)"
    using stop_compositor_frame(9) [where 'e = string and i = scene and s = s] by (metis prod.collapse)
  have u: "no_faults u" "db u = db s"
    using run assms(1) stop_compositor_frame(8,4) [where 'e = string and i = scene and s = s]
    by (simp_all add: no_faults_def)
  let ?ls = "List.map_filter (comp_layer_of L u) (scene_layer_rows (show_uuid L scene) (db s))"
  have ls: "?ls \<noteq> []"
    using live_layers_after_stop [of L scene s] assms(2) run by auto
  define rest where "rest = andThen (load_output_config L) (\<lambda>c.
    andThen (get_or_create_media_relay scene) (\<lambda>public_tx.
    andThen (mapM (\<lambda>_. map_err (\<lambda>e. ''compositor listen: '' @ e) bind_port) ?ls) (\<lambda>ports.
    andThen (map_err (\<lambda>e. ''failed to start compositor ffmpeg: '' @ e)
              (spawn_child ''ffmpeg'' (compositor_args L c ports ?ls))) (\<lambda>child.
    then_do (reg_put Compositors scene child)
   (then_do (forM (\<lambda>(p, l). spawn_task (TFeedLayer p (cl_source_id l))) (zip ports ?ls))
            (spawn_task (TReadComposite scene public_tx)))))))"
  have "smooth rest"
    unfolding rest_def by (intro smooth_intros)
  then obtain t where "rest u = (Inr (), t)" "no_faults t"
    using u(1) unfolding smooth_def by (metis (full_types) old.unit.exhaust)
  moreover have "start_scene_compositor L scene s = rest u"
    using run u ls by (simp add: start_scene_compositor_def sql_read_def fallible_def drop_fault_none rest_def)
  ultimately show ?thesis by auto
qed

definition camera_tag :: bytes where
  "camera_tag = flv_video_tag [0x17, 0] 0"

definition scene_state :: app where
  "scene_state = sample_state\<lparr>
     db := empty_db\<lparr>sources := [\<lparr>sr_id = ''1'', sr_name = ''cam'', sr_kind = '''', sr_created_at = ''''\<rparr>],
       scenes := [\<lparr>sc_id = ''9'', sc_name = ''main'', sc_created_at = ''''\<rparr>, \<lparr>sc_id = ''8'', sc_name = ''idle'', sc_created_at = ''''\<rparr>],
       layers := [\<lparr>lr_id = ''5'', lr_scene_id = ''9'', lr_source_id = ''1'', lr_x = 0, lr_y = 0, lr_width = 640,
         lr_height = 360, lr_z_index = 0, lr_opacity = f32_one, lr_fit = ''fill''\<rparr>]\<rparr>,
     media_relays := [1 \<mapsto> 0], next_chan := 1,
     sequence_headers := [1 \<mapsto> default_seq_headers\<lparr>video := Some camera_tag\<rparr>]\<rparr>"

lemma scene_state_facts:
  "no_faults scene_state" "live_layer_sources sample_lib 9 scene_state = [1]"
  "live_layer_sources sample_lib 8 scene_state = []" "tasks (sys scene_state) = []"
proof -
  have "sys scene_state = idle_os"
    by (simp add: scene_state_def sample_state_def initial_state_def)
  then show "no_faults scene_state" "tasks (sys scene_state) = []"
    by (simp_all add: no_faults_def idle_os_def)
  have v: "produces_video scene_state 1"
    by (simp add: produces_video_def get_media_relay_def scene_state_def)
  have "filter (\<lambda>r. lr_scene_id r = ''9'') (layers (db scene_state)) = layers (db scene_state)"
    "filter (\<lambda>r. lr_scene_id r = ''8'') (layers (db scene_state)) = []"
    "map lr_source_id (layers (db scene_state)) = [''1'']"
    by (simp_all add: scene_state_def)
  then obtain r where "scene_layer_rows ''9'' (db scene_state) = [r]" "lr_source_id r = ''1''"
    "scene_layer_rows ''8'' (db scene_state) = []"
    unfolding scene_layer_rows_def by (cases "layers (db scene_state)") auto
  then show "live_layer_sources sample_lib 9 scene_state = [1]" "live_layer_sources sample_lib 8 scene_state = []"
    using v by (simp_all add: live_layer_sources_def sample_ids List.map_filter_simps)
qed


lemma failed_activation_drops_program_witness:
  "\<exists>t. activate_scene_handler sample_lib [1] ''8'' (set_program_source (Some 1) scene_state) =
      (Inl (BadRequest ''cannot activate scene: scene has no live layers''), t) \<and> get_media_relay 1 t = None"
proof -
  let ?s = "set_program_source (Some 1) scene_state"
  have "no_faults ?s" "live_layer_sources sample_lib 8 ?s = []" "''8'' \<in> sc_id ` set (scenes (db ?s))"
    "cur (program_source ?s) = Some 1"
    using scene_state_facts(1,3)
    by (simp_all add: set_program_source_def no_faults_def live_layer_sources_def produces_video_def
        get_media_relay_def, simp add: scene_state_def)
  then have "\<exists>t. activate_scene_handler sample_lib [1] ''8'' ?s =
      (Inl (BadRequest ''cannot activate scene: scene has no live layers''), t) \<and>
    cur (program_source t) = Some 1 \<and> program_intent t = program_intent ?s \<and>
    get_media_relay 1 t = None \<and> sequence_headers t 1 = None"
    using sample_ids(6) by (intro failed_activation_drops_program) simp_all
  then show ?thesis by blast
qed

lemma created_scene_read_back_witness:
  "\<exists>sc t sc' t'. create_scene sample_lib ''new'' [] scene_state = (Inr sc, t) \<and>
    get_scene sample_lib (show_uuid sample_lib (scene_id sc)) t = (Inr sc', t') \<and> scene_name sc' = ''new''"
proof -
  have u: "uuid_text sample_lib" by (simp add: uuid_text_def sample_uuid)
  have w: "layers_have_scenes (db scene_state)" by (simp add: layers_have_scenes_def scene_state_def)
  let ?i = "show_uuid sample_lib 1000"
  have "show_nat 1000 = ''1000''" by code_simp
  then have i: "?i = ''1000''" by (simp add: sample_show_uuid)
  have new: "new_v4 sample_lib 0 = 1000" by (simp add: sample_lib_def)
  have nf: "no_faults (set_sys f s)" if "no_faults s" "\<And>o1. faults (f o1) = faults o1" for f s
    using that by (simp add: no_faults_def set_sys_def)
  have uu: "uuids (sys scene_state) = 0" "scenes (db scene_state) = [\<lparr>sc_id = ''9'', sc_name = ''main'', sc_created_at = ''''\<rparr>, \<lparr>sc_id = ''8'', sc_name = ''idle'', sc_created_at = ''''\<rparr>]"
    by (simp_all add: scene_state_def sample_state_def initial_state_def idle_os_def)
  obtain sc t where sc: "create_scene sample_lib ''new'' [] scene_state = (Inr sc, t)" "scene_id sc = 1000" "no_faults t"
    "\<exists>r. find (\<lambda>r. sc_id r = ?i) (scenes (db t)) = Some r"
    using scene_state_facts(1)
    by (simp add: create_scene_def fresh_uuid_def now_def q_try_ok nf new i uu insert_row_def)
  then obtain sc' t' where "get_scene sample_lib ?i t = (Inr sc', t')"
    by (auto simp: get_scene_def find_scene_def fetch_layers_def q_read_ok)
  then show ?thesis
    using created_scene_read_back [OF u w sc(1)] sc(1,2) by auto
qed

end
