(* ===== verification/Studio.thy ===== *)
theory Studio
  imports Schedule Router Compositor
begin

text \<open>
  What the operator does: going live and stopping (\<open>routes/stream.rs\<close>), choosing
  the program (\<open>routes/switching.rs\<close>), recording (\<open>routes/recording.rs\<close>), audio
  routing (\<open>routes/audio.rs\<close>), the broadcast and ICE settings
  (\<open>routes/broadcast.rs\<close>, \<open>routes/webrtc\_config.rs\<close>), the status
  (\<open>routes/status.rs\<close>) and the preview stream of a source
  (\<open>routes/preview.rs\<close>). The theorems connect them with the router, the playout
  and the pipeline controller.
\<close>

section \<open>routes/stream.rs\<close>

text \<open>\<open>DestRow::into\_destination\<close>: unreadable JSON is an RTMP destination without
  an address.\<close>

definition stream_destination :: "lib \<Rightarrow> dest_row \<Rightarrow> destination" where
  "stream_destination L r =
    \<lparr>dest_id = unwrap_or 0 (parse_uuid L (dr_id r)), dest_name = dr_name r,
     dest_kind = unwrap_or (DRtmp '''' '''') (dest_of_json L (dr_kind r)),
     dest_enabled = (dr_enabled r \<noteq> 0)\<rparr>"

definition load_broadcast_config :: "lib \<Rightarrow> broadcast_config handler" where
  "load_broadcast_config L = andThen (q (sql_read (\<lambda>d. settings d ''broadcast_config''))) (\<lambda>row.
     ok (unwrap_or default_broadcast_config (Option.bind row (broadcast_of_json L))))"

text \<open>\<open>a.or(b)\<close>.\<close>

definition or_option :: "'a option \<Rightarrow> 'a option \<Rightarrow> 'a option" where
  "or_option a b = (case a of None \<Rightarrow> b | Some x \<Rightarrow> Some x)"

text \<open>The source of the broadcast. \<open>param\<close> is the text of \<open>source\_id\<close> in the body;
  \<open>order\<close> is the order in which the map of source states is iterated.\<close>

definition wanted_source :: "lib \<Rightarrow> string option \<Rightarrow> broadcast_config \<Rightarrow> app \<Rightarrow> uuid option" where
  "wanted_source L param saved s =
    or_option (or_option (Option.bind param (parse_uuid L)) (cur (program_source s))) (bc_source_id saved)"

definition resolve_source :: "lib \<Rightarrow> uuid list \<Rightarrow> string option \<Rightarrow> broadcast_config \<Rightarrow> uuid handler" where
  "resolve_source L order param saved = andThen (gets (wanted_source L param saved)) (\<lambda>w. case w of
      Some i \<Rightarrow> andThen (gets (\<lambda>s. source_states s i = Some Live)) (\<lambda>live.
        then_do (check live (BadRequest (''source '' @ show_uuid L i @ '' is not live''))) (ok i))
    | None \<Rightarrow> andThen (gets (\<lambda>s. find (\<lambda>i. source_states s i = Some Live) order))
        (need (BadRequest ''no live source available -- connect OBS first'')))"

definition selected_destinations :: "lib \<Rightarrow> broadcast_config \<Rightarrow> db \<Rightarrow> destination list" where
  "selected_destinations L saved d =
    (if bc_destination_ids saved \<noteq> [] then
       map (stream_destination L) (filter (\<lambda>r. dr_id r \<in> show_uuid L ` set (bc_destination_ids saved) \<and> dr_enabled r = 1)
         (destinations d))
     else map (stream_destination L) (filter (\<lambda>r. dr_enabled r = 1) (destinations d)))"

definition recording_path :: "lib \<Rightarrow> string \<Rightarrow> instant \<Rightarrow> string" where
  "recording_path L data t =
    path_join (path_join data ''recordings'') (''muxshed_'' @ file_stamp L t @ ''.flv'')"

definition auto_recording :: "lib \<Rightarrow> (app, 'e, unit) prog" where
  "auto_recording L = andThen (gets (\<lambda>s. data_dir (cfg s))) (\<lambda>data.
     andThen now (\<lambda>t. start_recording (recording_path L data t)))"

text \<open>From the first side effect on: the encoders start before the source is
  routed, so that they subscribe before data flows.\<close>

definition go_on_air :: "lib \<Rightarrow> broadcast_config \<Rightarrow> uuid \<Rightarrow> destination list \<Rightarrow> (app, 'e, unit) prog" where
  "go_on_air L saved source ds =
    andThen (read_setting ''output_config'') (\<lambda>v.
    andThen (gets (\<lambda>s. sequence_headers s source)) (\<lambda>seq.
    then_do (ignore (egress_start ds (Option.bind v (output_of_json L)) seq))
   (then_do (modify (set_program_intent (Some source)))
   (then_do (if bc_auto_record saved then auto_recording L else ok ())
   (then_do (pipeline_start ds)
   (then_do (ensure_channel_hls L)
            (case bc_scene_id saved of None \<Rightarrow> ok () | Some scene \<Rightarrow> pipeline_activate_scene scene)))))))"

definition stream_start :: "lib \<Rightarrow> uuid list \<Rightarrow> string option \<Rightarrow> unit handler" where
  "stream_start L order param =
    andThen pipeline_state_now (\<lambda>st.
    then_do (check (st = PIdle) (BadRequest ''pipeline is not idle''))
   (andThen (load_broadcast_config L) (\<lambda>saved.
    andThen (resolve_source L order param saved) (\<lambda>source.
    andThen (q (sql_read (selected_destinations L saved))) (\<lambda>ds.
    andThen (gets (get_media_relay source)) (\<lambda>relay.
    then_do (check (relay \<noteq> None) (BadRequest ''source is not streaming''))
            (go_on_air L saved source ds)))))))"

definition stream_stop :: "unit handler" where
  "stream_stop =
    andThen pipeline_state_now (\<lambda>st.
    then_do (check (st \<noteq> PIdle) (BadRequest ''pipeline is already idle''))
   (then_do egress_stop
   (then_do hls_stop
   (then_do (modify (set_program_intent None))
   (then_do stop_recording pipeline_stop)))))"

section \<open>routes/switching.rs\<close>

record program_state =
  ps_program_source_id :: "uuid option"
  ps_program_intent_id :: "uuid option"
  ps_preview_source_id :: "uuid option"
  ps_failover_active :: bool

definition get_program :: "program_state handler" where
  "get_program = gets (\<lambda>s.
    \<lparr>ps_program_source_id = cur (program_source s), ps_program_intent_id = cur (program_intent s),
     ps_preview_source_id = preview_source s, ps_failover_active = cur (failover_active s)\<rparr>)"

definition live_uuid :: "lib \<Rightarrow> string \<Rightarrow> uuid handler" where
  "live_uuid L t =
    andThen (need (BadRequest ''invalid uuid'') (parse_uuid L t)) (\<lambda>i.
    andThen (gets (\<lambda>s. source_states s i = Some Live)) (\<lambda>live.
    then_do (check live (BadRequest ''source is not live'')) (ok i)))"

definition set_preview :: "lib \<Rightarrow> string \<Rightarrow> unit handler" where
  "set_preview L t = andThen (live_uuid L t) (\<lambda>i. modify (\<lambda>s. s\<lparr>preview_source := Some i\<rparr>))"

definition cut_to :: "lib \<Rightarrow> uuid list \<Rightarrow> string \<Rightarrow> unit handler" where
  "cut_to L ids t = andThen (live_uuid L t) (\<lambda>i.
    then_do (stop_all_compositors ids)
   (then_do (modify (set_program_intent (Some i)))
            (ws_send (EvSceneChanged i ''cut''))))"

definition auto_transition :: "unit handler" where
  "auto_transition =
    andThen (gets preview_source) (\<lambda>p.
    andThen (need (BadRequest ''no source in preview'') p) (\<lambda>i.
    then_do (modify (set_program_intent (Some i)))
   (then_do (modify (\<lambda>s. s\<lparr>preview_source := None\<rparr>))
            (ws_send (EvSceneChanged i ''cut'')))))"

section \<open>routes/recording.rs and routes/status.rs\<close>

definition is_pipe_live :: "pipeline_state \<Rightarrow> bool" where
  "is_pipe_live st \<longleftrightarrow> (case st of PLive _ _ \<Rightarrow> True | _ \<Rightarrow> False)"

definition record_start :: "lib \<Rightarrow> unit handler" where
  "record_start L =
    andThen pipeline_state_now (\<lambda>st.
    then_do (check (is_pipe_live st) (BadRequest ''pipeline must be live to record''))
   (andThen (gets (\<lambda>s. data_dir (cfg s))) (\<lambda>data.
    andThen now (\<lambda>t. start_recording (recording_path L data t)))))"

definition record_stop :: "unit handler" where
  "record_stop = andThen recording_state_now (\<lambda>r.
     then_do (check (recording r) (BadRequest ''not recording'')) stop_recording)"

definition record_status :: "lib \<Rightarrow> (bool \<times> string option \<times> string option) handler" where
  "record_status L = andThen recording_state_now (\<lambda>r.
     ok (recording r, rec_path r, map_option (rfc3339 L) (rec_started_at r)))"

definition get_status :: "pipeline_state handler" where
  "get_status = pipeline_state_now"

section \<open>routes/audio.rs\<close>

definition persist_routing :: "lib \<Rightarrow> audio_routing \<Rightarrow> (app, 'e, unit) prog" where
  "persist_routing L r = ignore (sql_exec (put_setting ''audio_routing'' (routing_to_json L r)))"

definition get_routing :: "audio_routing handler" where
  "get_routing = gets (\<lambda>s. cur (routing s))"

definition set_audio_routing :: "lib \<Rightarrow> audio_routing \<Rightarrow> audio_routing handler" where
  "set_audio_routing L r =
    then_do (modify (set_routing r)) (then_do (persist_routing L r) (ok r))"

text \<open>\<open>send\_modify\<close> on the routing, then the new value is saved.\<close>

definition modify_routing :: "lib \<Rightarrow> (audio_routing \<Rightarrow> audio_routing) \<Rightarrow> unit handler" where
  "modify_routing L f =
    then_do (modify (\<lambda>s. set_routing (f (cur (routing s))) s))
   (andThen (gets (\<lambda>s. cur (routing s))) (persist_routing L))"

definition set_audio_source :: "lib \<Rightarrow> uuid option \<Rightarrow> unit handler" where
  "set_audio_source L src =
    then_do (case src of None \<Rightarrow> ok () | Some i \<Rightarrow>
      andThen (gets (\<lambda>s. source_states s i = Some Live)) (\<lambda>live.
        check live (BadRequest ''source is not live'')))
    (modify_routing L (\<lambda>r. r\<lparr>active_audio_source := src, audio_follows_video := (src = None)\<rparr>))"

definition toggle_follows_video :: "lib \<Rightarrow> unit handler" where
  "toggle_follows_video L = modify_routing L (\<lambda>r.
    (let r1 = r\<lparr>audio_follows_video := \<not> audio_follows_video r\<rparr>
     in if audio_follows_video r1 then r1\<lparr>active_audio_source := None\<rparr> else r1))"

text \<open>\<open>channels.iter\_mut().find(..)\<close>: the first channel of the source.\<close>

fun set_muted :: "uuid \<Rightarrow> bool \<Rightarrow> audio_channel_state list \<Rightarrow> audio_channel_state list" where
  "set_muted i b [] = []"
| "set_muted i b (c # cs) = (if ac_source_id c = i then c\<lparr>ac_muted := b\<rparr> # cs else c # set_muted i b cs)"

definition mute_source :: "lib \<Rightarrow> string \<Rightarrow> unit handler" where
  "mute_source L t = andThen (need (BadRequest ''invalid uuid'') (parse_uuid L t)) (\<lambda>i.
     modify_routing L (\<lambda>r. r\<lparr>channels := set_muted i True (channels r)\<rparr>))"

definition unmute_source :: "lib \<Rightarrow> string \<Rightarrow> unit handler" where
  "unmute_source L t = andThen (need (BadRequest ''invalid uuid'') (parse_uuid L t)) (\<lambda>i.
     modify_routing L (\<lambda>r. r\<lparr>channels := set_muted i False (channels r)\<rparr>))"

section \<open>routes/broadcast.rs and routes/webrtc\_config.rs\<close>

definition get_broadcast_config :: "lib \<Rightarrow> broadcast_config handler" where
  "get_broadcast_config L = andThen (q (sql_read (\<lambda>d. settings d ''broadcast_config''))) (\<lambda>row.
     ok (case row of
           Some json \<Rightarrow> unwrap_or default_broadcast_config (broadcast_of_json L json)
         | None \<Rightarrow> default_broadcast_config))"

definition set_broadcast_config :: "lib \<Rightarrow> broadcast_config \<Rightarrow> broadcast_config handler" where
  "set_broadcast_config L c =
    then_do (q (sql_exec (put_setting ''broadcast_config'' (broadcast_to_json L c)))) (ok c)"

definition load_webrtc_config :: "lib \<Rightarrow> (app, 'e, webrtc_config) prog" where
  "load_webrtc_config L = load_setting (webrtc_of_json L) default_webrtc_config ''webrtc_config''"

definition get_webrtc_config :: "lib \<Rightarrow> webrtc_config handler" where
  "get_webrtc_config L = load_webrtc_config L"

definition set_webrtc_config :: "lib \<Rightarrow> webrtc_config \<Rightarrow> webrtc_config handler" where
  "set_webrtc_config L c =
    then_do (q (sql_exec (put_setting ''webrtc_config'' (webrtc_to_json L c)))) (ok c)"

section \<open>routes/preview.rs\<close>

datatype preview_event = FromRelay recv | ClientClosed | ClientOther

datatype preview_out = Binary bytes | CloseFrame

text \<open>The socket takes \<open>n\<close> messages before it fails. The loop, then the whole
  handler: what the client is sent.\<close>

fun preview_loop :: "nat \<Rightarrow> preview_event list \<Rightarrow> preview_out list" where
  "preview_loop n [] = []"
| "preview_loop n (FromRelay (Got d) # es) = (case n of 0 \<Rightarrow> [] | Suc m \<Rightarrow> Binary d # preview_loop m es)"
| "preview_loop n (FromRelay (Lagged k) # es) = preview_loop n es"
| "preview_loop n (FromRelay Closed # es) = []"
| "preview_loop n (ClientClosed # es) = []"
| "preview_loop n (ClientOther # es) = preview_loop n es"

definition preview_send :: "bytes option \<Rightarrow> (nat \<Rightarrow> preview_out list) \<Rightarrow> nat \<Rightarrow> preview_out list" where
  "preview_send b k n = (case b of None \<Rightarrow> k n
     | Some d \<Rightarrow> (case n of 0 \<Rightarrow> [] | Suc m \<Rightarrow> Binary d # k m))"

definition handle_preview :: "lib \<Rightarrow> app \<Rightarrow> string \<Rightarrow> nat \<Rightarrow> preview_event list \<Rightarrow> preview_out list" where
  "handle_preview L s t n es =
    (case parse_uuid L t of None \<Rightarrow> [CloseFrame]
     | Some i \<Rightarrow> (case get_media_relay i s of None \<Rightarrow> [CloseFrame]
       | Some _ \<Rightarrow>
         (let seq = unwrap_or default_seq_headers (sequence_headers s i)
          in preview_send (Some flv_header)
            (preview_send (video seq)
              (preview_send (audio seq)
                (preview_send (last_keyframe seq) (\<lambda>m. preview_loop m es)))) n)))"

section \<open>Going live\<close>

lemma total_controls [total_intros]:
  "never_fails (pipeline_start ds)" "never_fails pipeline_stop" "never_fails (start_recording p)"
  "never_fails stop_recording" "never_fails (auto_recording L)"
  unfolding pipeline_start_def pipeline_stop_def start_recording_def stop_recording_def auto_recording_def
  by (intro total_intros)+

lemma activate_while_starting: "pipe_state s = PStarting \<Longrightarrow> pipeline_activate_scene i s = (Inr (), s)"
  by (simp add: pipeline_activate_scene_def)

lemma scene_while_starting:
  "pipe_state s = PStarting \<Longrightarrow>
    (case v of None \<Rightarrow> ok () | Some scene \<Rightarrow> pipeline_activate_scene scene) s = (Inr (), s)"
  by (simp add: activate_while_starting split: option.split)

lemma start_recording_effect:
  "\<exists>t. start_recording p s = (Inr (), t) \<and> recording (rec_state t) \<and> rec_path (rec_state t) = Some p \<and>
    program_intent t = program_intent s \<and> active_schedule t = active_schedule s \<and> egress t = egress s \<and>
    source_states t = source_states s"
  by (simp add: start_recording_def now_def ws_send_def)

lemma auto_recording_effect:
  "\<exists>t. (if b then auto_recording L else ok ()) s = (Inr (), t) \<and> program_intent t = program_intent s \<and>
    active_schedule t = active_schedule s \<and> (b \<longrightarrow> recording (rec_state t)) \<and>
    (\<not> b \<longrightarrow> rec_state t = rec_state s)"
  by (simp add: auto_recording_def start_recording_def now_def ws_send_def)

lemma pipeline_start_effect:
  "\<exists>t. pipeline_start ds s = (Inr (), t) \<and> pipe_state t = PStarting \<and> program_intent t = program_intent s \<and>
    active_schedule t = active_schedule s \<and> rec_state t = rec_state s"
  by (simp add: pipeline_start_def ws_send_def spawn_task_def set_sys_def)

lemma go_on_air_effect:
  "\<exists>t. go_on_air L saved i ds s = (Inr (), t) \<and> cur (program_intent t) = Some i \<and> pipe_state t = PStarting \<and>
    active_schedule t = active_schedule s \<and> (bc_auto_record saved \<longrightarrow> recording (rec_state t)) \<and>
    (\<not> bc_auto_record saved \<longrightarrow> rec_state t = rec_state s)"
proof -
  obtain v s1 where s1: "(read_setting ''output_config'' :: (app, 'a, string option) prog) s = (Inr v, s1)"
    by (meson never_fails_def total_os(6))
  let ?g = "egress_start ds (Option.bind v (output_of_json L)) (sequence_headers s1 i)"
  let ?s2 = "snd (?g s1)" and ?r = "if bc_auto_record saved then auto_recording L else ok ()"
  let ?s3 = "set_program_intent (Some i) ?s2"
  let ?f = "\<lambda>s. (active_schedule s, rec_state s)"
  have "keeps ?f (read_setting ''output_config'' :: (app, 'a, string option) prog)" "keeps ?f ?g"
    by (intro keeps_intros; simp add: set_egress_def frame_def)+
  then have s3: "active_schedule ?s3 = active_schedule s" "rec_state ?s3 = rec_state s"
    using keepsD [of ?f "read_setting ''output_config'' :: (app, 'a, string option) prog" s] keepsD [of ?f ?g s1] s1
    by (auto simp: set_program_intent_def)
  obtain s4 where s4: "(?r :: (app, 'a, unit) prog) ?s3 = (Inr (), s4)" "program_intent s4 = program_intent ?s3"
      "active_schedule s4 = active_schedule ?s3" "bc_auto_record saved \<longrightarrow> recording (rec_state s4)"
      "\<not> bc_auto_record saved \<longrightarrow> rec_state s4 = rec_state ?s3"
    using auto_recording_effect [where 'a = 'a, of "bc_auto_record saved" L ?s3] by blast
  obtain s5 where s5: "(pipeline_start ds :: (app, 'a, unit) prog) s4 = (Inr (), s5)" "pipe_state s5 = PStarting"
      "program_intent s5 = program_intent s4" "active_schedule s5 = active_schedule s4" "rec_state s5 = rec_state s4"
    using pipeline_start_effect [where 'a = 'a, of ds s4] by blast
  obtain u s6 where s6: "(ensure_channel_hls L :: (app, 'a, unit) prog) s5 = (Inr u, s6)"
    by (meson never_fails_def output_total(5))
  let ?h = "\<lambda>s. (pipe_state s, program_intent s, active_schedule s, rec_state s)"
  have "keeps ?h (ensure_channel_hls L :: (app, 'a, unit) prog)"
    by (intro keeps_intros; simp add: frame_def)
  then have h: "pipe_state s6 = PStarting" "program_intent s6 = program_intent s5"
      "active_schedule s6 = active_schedule s5" "rec_state s6 = rec_state s5"
    using keepsD [of ?h "ensure_channel_hls L :: (app, 'a, unit) prog" s5] s6 s5(2) by auto
  have "go_on_air L saved i ds s = (Inr () :: 'a + unit, s6)"
    using s1 s4(1) s5(1) s6 scene_while_starting [OF h(1), where v = "bc_scene_id saved" and 'a = 'a]
    by (simp add: go_on_air_def)
  then show ?thesis
    using h s3 s4 s5 by (intro exI [of _ s6]) (simp add: set_program_intent_def)
qed

lemma resolve_source_run:
  "resolve_source L order p saved s = (Inr i, t) \<longleftrightarrow> t = s \<and> source_states s i = Some Live \<and>
    (case wanted_source L p saved s of Some j \<Rightarrow> i = j
     | None \<Rightarrow> find (\<lambda>i. source_states s i = Some Live) order = Some i)"
  by (auto simp: resolve_source_def Inr_iffs find_Some_iff split: option.split)

definition saved_broadcast :: "lib \<Rightarrow> db \<Rightarrow> broadcast_config" where
  "saved_broadcast L d = unwrap_or default_broadcast_config
     (Option.bind (settings d ''broadcast_config'') (broadcast_of_json L))"

lemma load_broadcast_config_Inr:
  "load_broadcast_config L s = (Inr c, t) \<Longrightarrow> c = saved_broadcast L (db s) \<and> t = drop_fault s"
  by (auto simp: load_broadcast_config_def saved_broadcast_def Inr_iffs sql_read_def fallible_def
      split: option.splits)

lemma drop_fault_view [simp]:
  "source_states (drop_fault s) = source_states s" "program_source (drop_fault s) = program_source s"
  "active_schedule (drop_fault s) = active_schedule s" "media_relays (drop_fault s) = media_relays s"
  by (simp_all add: drop_fault_def set_sys_def)



lemma stream_start_keeps_schedule:
  assumes "stream_start L order p s = (Inr (), t)"
  shows "active_schedule t = active_schedule s"
proof -
  from assms obtain saved s1 i s2 ds s3 where saved: "load_broadcast_config L s = (Inr saved, s1)"
    and i: "resolve_source L order p saved s1 = (Inr i, s2)"
    and ds: "q (sql_read (selected_destinations L saved)) s2 = (Inr ds, s3)"
    and t: "(go_on_air L saved i ds :: unit handler) s3 = (Inr (), t)"
    unfolding stream_start_def pipeline_state_now_def Inr_iffs by blast
  have "active_schedule s3 = active_schedule s"
    using load_broadcast_config_Inr [OF saved] i ds
    by (auto simp: resolve_source_run map_err_Inr_iff sql_read_def fallible_def split: option.splits)
  then show ?thesis
    using go_on_air_effect [where 'a = mux_error, of L saved i ds s3] t by auto
qed

section \<open>Stopping by hand while a schedule is on the air\<close>

lemma stream_stop_effect:
  assumes "stream_stop s = (Inr (), t)"
  shows "active_schedule t = active_schedule s" "pipe_state s \<noteq> PIdle" "pipe_state t = PStopping"
    "cur (program_intent t) = None" "processes (egress t) = []" "hls t = None"
proof -
  obtain s1 r1 s2 r2 s3 r3 where e: "(egress_stop :: unit handler) s = (Inr r1, s1)"
    and h: "(hls_stop :: unit handler) s1 = (Inr r2, s2)" and idle: "pipe_state s \<noteq> PIdle"
    and r: "(stop_recording :: unit handler) (set_program_intent None s2) = (Inr r3, s3)"
    and p: "(pipeline_stop :: unit handler) s3 = (Inr (), t)"
    using assms unfolding stream_stop_def pipeline_state_now_def Inr_iffs run_modify by blast
  have "keeps active_schedule (egress_stop :: unit handler)"
    by (intro keeps_intros; simp add: set_egress_def)
  then have a: "active_schedule s1 = active_schedule s"
    using e by (rule keeps_run [where f = active_schedule])
  have e1: "processes (egress s1) = []" using egress_stop_effect [where 'a = mux_error, of s] e by auto
  show "active_schedule t = active_schedule s" "pipe_state s \<noteq> PIdle" "pipe_state t = PStopping"
    "cur (program_intent t) = None" "processes (egress t) = []" "hls t = None"
    using a e1 h r p idle
    by (auto simp: hls_stop_def kill_opt_def kill_def stop_recording_def pipeline_stop_def ws_send_def spawn_task_def
        set_sys_def set_program_intent_def split: option.splits)
qed

text \<open>Stopping the stream by hand while a schedule is on the air does not end
  its broadcast: the schedule stays active, so when the operator goes live
  again and the time of the old broadcast is over, it takes the new stream off
  the air.\<close>
theorem stopped_broadcast_ends_next_stream:
  assumes "cur (active_schedule s) = Some i" "stream_stop s = (Inr (), t)"
    and "active_schedule u = active_schedule t" "stream_start L order p u = (Inr (), v)"
    and "active_schedule w = active_schedule v" "air_end a = EndStop" "air_until a \<le> clock (sys w)"
  shows "cur (active_schedule w) = Some i \<and>
    (\<exists>w'. bc_trans L i (w, OnAir a) (w', Over) \<and> pipe_state w' = PStopping \<and>
      cur (program_intent w') = None \<and> processes (egress w') = [])"
proof -
  have v: "active_schedule v = active_schedule u"
    using stream_start_keeps_schedule [OF assms(4)] .
  have act: "cur (active_schedule w) = Some i"
    using assms(1,3,5) stream_stop_effect(1) [OF assms(2)] v by simp
  obtain t' where "(bc_elapsed L i a :: (app, unit, unit) prog) w = (Inr (), t')" "pipe_state t' = PStopping"
      "cur (program_intent t') = None" "processes (egress t') = []"
    using elapsed_stop_effect [OF assms(6), where 'a = unit, of L i w] by blast
  then have "bc_trans L i (w, OnAir a) (t', Over)"
    using bc_trans.elapsed [of a w L i] assms(6,7) by simp
  then show ?thesis using act \<open>pipe_state t' = PStopping\<close> \<open>cur (program_intent t') = None\<close> \<open>processes (egress t') = []\<close>
    by blast
qed

section \<open>Switching\<close>

lemma live_uuid_Inr:
  "live_uuid L x s = (Inr i, t) \<longleftrightarrow> parse_uuid L x = Some i \<and> source_states s i = Some Live \<and> t = s"
  by (auto simp: live_uuid_def Inr_iffs)

text \<open>A cut is answered with success exactly for a source that is live; it makes
  that source the operator's program and ends the compositors; otherwise it
  changes nothing. The transition from the preview asks nothing of the source
  that was put there: it goes on the program even when it has gone offline
  since, and the compositors of the old program keep running.\<close>
theorem cut_checks_what_auto_does_not:
  "((\<exists>t. cut_to L ids x s = (Inr (), t)) \<longleftrightarrow>
     (\<exists>i. parse_uuid L x = Some i \<and> source_states s i = Some Live)) \<and>
   (\<forall>t. cut_to L ids x s = (Inr (), t) \<longrightarrow>
     cur (program_intent t) = parse_uuid L x \<and> (\<forall>j. j \<in> set ids \<longrightarrow> media_relays t j = None)) \<and>
   (\<forall>e t. cut_to L ids x s = (Inl e, t) \<longrightarrow> t = s) \<and>
   (\<forall>i. preview_source s = Some i \<longrightarrow> (\<exists>t. auto_transition s = (Inr (), t) \<and>
     cur (program_intent t) = Some i \<and> scene_compositors t = scene_compositors s \<and> media_relays t = media_relays s))"
proof -
  obtain u where u: "(stop_all_compositors ids :: unit handler) s = (Inr (), u)"
      "media_relays u = (\<lambda>j. if j \<in> set ids then None else media_relays s j)"
    using stop_all_frame by blast
  have cut: "cut_to L ids x s = (case parse_uuid L x of
      None \<Rightarrow> (Inl (BadRequest ''invalid uuid''), s)
    | Some i \<Rightarrow> if source_states s i = Some Live then
        (Inr (), (set_program_intent (Some i) u)\<lparr>ws_log := ws_log u @ [EvSceneChanged i ''cut'']\<rparr>)
      else (Inl (BadRequest ''source is not live''), s))"
    using u(1) by (simp add: cut_to_def live_uuid_def andThen_assoc ws_send_def set_program_intent_def need_def
      split: option.split)
  show ?thesis
    using u(2) unfolding cut
    by (auto simp: set_program_intent_def auto_transition_def ws_send_def split: option.splits if_splits)
qed

section \<open>Audio\<close>

lemma modify_routing_run:
  "\<exists>t. modify_routing L f s = (Inr (), t) \<and> routing t = send_watch (f (cur (routing s))) (routing s) \<and>
    media_relays t = media_relays s \<and> program_source t = program_source s"
proof -
  let ?v = "\<lambda>s. (routing s, media_relays s, program_source s)"
  let ?s = "set_routing (f (cur (routing s))) s"
  have "keeps ?v (persist_routing L (cur (routing ?s)) :: unit handler)"
    unfolding persist_routing_def by (intro keeps_intros; simp add: frame_def)
  then have "?v (snd ((persist_routing L (cur (routing ?s)) :: unit handler) ?s)) = ?v ?s"
    by (rule keepsD [where f = ?v])
  then show ?thesis
    by (auto simp: modify_routing_def persist_routing_def set_routing_def)
qed

text \<open>Muting or unmuting a source never changes which source the router takes
  the sound from, so the muted sound stays on the program; all it does is that
  the router re-enters the source and sends no video until its next keyframe.\<close>
theorem mute_only_interrupts_the_router:
  assumes "parse_uuid L x = Some i" "phase r = Forwarding" "seen_routing r \<le> version (routing s)"
    and "cur (program_source s) = Some (current_source r)" "get_media_relay (current_source r) s \<noteq> None"
  shows "\<exists>t u q. mute_source L x s = (Inr (), t) \<and>
    (\<forall>c. pick_audio_source (cur (routing t)) c = pick_audio_source (cur (routing s)) c) \<and>
    router_run [RoutingChanged, Enter] (t, r) = Some (u, q) \<and>
    current_source q = current_source r \<and> phase q = Forwarding \<and> \<not> got_keyframe q"
proof -
  let ?f = "\<lambda>r. r\<lparr>channels := set_muted i True (channels r)\<rparr>"
  obtain t where t: "modify_routing L ?f s = (Inr (), t)" "routing t = send_watch (?f (cur (routing s))) (routing s)"
      "media_relays t = media_relays s" "program_source t = program_source s"
    using modify_routing_run by blast
  have run: "mute_source L x s = (Inr (), t)"
    using assms(1) t(1) by (simp add: mute_source_def)
  have pick: "pick_audio_source (cur (routing t)) c = pick_audio_source (cur (routing s)) c" for c
    by (simp add: t(2) pick_audio_source_def)
  have "changed_since (seen_routing r) (routing t)"
    using assms(3) by (simp add: t(2) changed_since_def send_watch_def)
  then have "\<exists>u q. router_run [RoutingChanged, Enter] (t, r) = Some (u, q) \<and>
      current_source q = current_source r \<and> phase q = Forwarding \<and> \<not> got_keyframe q"
    using assms(2,4,5) t(3,4)
    by (auto simp: on_routing_changed_def enter_def Let_def get_media_relay_def send_sequence_headers_eq)
  then show ?thesis using run pick by blast
qed

text \<open>What the operator chose is where the router takes the sound from: a live
  source chosen as audio source, whatever is on video; the video's source
  after the choice is withdrawn or the audio is made to follow the video; a
  source that is not live is refused without a change.\<close>
theorem audio_comes_from_the_choice:
  "(source_states s a = Some Live \<longrightarrow>
     (\<exists>t. set_audio_source L (Some a) s = (Inr (), t) \<and> pick_audio_source (cur (routing t)) c = a)) \<and>
   (source_states s a \<noteq> Some Live \<longrightarrow>
     set_audio_source L (Some a) s = (Inl (BadRequest ''source is not live''), s)) \<and>
   (\<exists>t. set_audio_source L None s = (Inr (), t) \<and> pick_audio_source (cur (routing t)) c = c) \<and>
   (\<exists>t. toggle_follows_video L s = (Inr (), t) \<and> (\<not> audio_follows_video (cur (routing s)) \<longrightarrow>
     pick_audio_source (cur (routing t)) c = c))"
proof -
  have run: "\<exists>t. modify_routing L f s = (Inr (), t) \<and> cur (routing t) = f (cur (routing s))" for f
    using modify_routing_run [of L f s] by (auto simp: send_watch_def)
  have "source_states s a = Some Live \<Longrightarrow>
     \<exists>t. set_audio_source L (Some a) s = (Inr (), t) \<and> pick_audio_source (cur (routing t)) c = a"
    using run [of "\<lambda>r. r\<lparr>active_audio_source := Some a, audio_follows_video := (Some a = None)\<rparr>"]
    by (auto simp: set_audio_source_def pick_audio_source_def)
  moreover have "source_states s a \<noteq> Some Live \<Longrightarrow>
     set_audio_source L (Some a) s = (Inl (BadRequest ''source is not live''), s)"
    by (simp add: set_audio_source_def andThen_def)
  moreover have "\<exists>t. set_audio_source L None s = (Inr (), t) \<and> pick_audio_source (cur (routing t)) c = c"
    using run [of "\<lambda>r. r\<lparr>active_audio_source := None, audio_follows_video := (None = None)\<rparr>"]
    by (auto simp: set_audio_source_def pick_audio_source_def)
  moreover have "\<exists>t. toggle_follows_video L s = (Inr (), t) \<and> (\<not> audio_follows_video (cur (routing s)) \<longrightarrow>
     pick_audio_source (cur (routing t)) c = c)"
    unfolding toggle_follows_video_def
    using run [of "\<lambda>r. (let r1 = r\<lparr>audio_follows_video := \<not> audio_follows_video r\<rparr>
     in if audio_follows_video r1 then r1\<lparr>active_audio_source := None\<rparr> else r1)"]
    by (auto simp: pick_audio_source_def Let_def)
  ultimately show ?thesis by blast
qed

section \<open>The preview\<close>

text \<open>The frames of the relay until it closes or the client leaves.\<close>

fun relayed :: "preview_event list \<Rightarrow> bytes list" where
  "relayed [] = []"
| "relayed (FromRelay (Got d) # es) = d # relayed es"
| "relayed (FromRelay (Lagged k) # es) = relayed es"
| "relayed (FromRelay Closed # es) = []"
| "relayed (ClientClosed # es) = []"
| "relayed (ClientOther # es) = relayed es"

lemma preview_loop_take: "preview_loop n es = map Binary (take n (relayed es))"
  by (induction n es rule: preview_loop.induct) (auto split: nat.splits)

lemma preview_send_take:
  assumes "\<And>n. k n = map Binary (take n xs)"
  shows "preview_send b k n = map Binary (take n ((case b of None \<Rightarrow> [] | Some d \<Rightarrow> [d]) @ xs))"
  using assms by (auto simp: preview_send_def split: option.split nat.split)

text \<open>A preview client of a source with a relay is sent the FLV file header, the
  cached headers and keyframe, and then the frames of the relay in order, up to
  the message its socket no longer takes; without a relay it is only told to
  close.\<close>
theorem preview_is_a_prefix:
  "handle_preview L s x n es = (case Option.bind (parse_uuid L x) (\<lambda>i. get_media_relay i s) of
      None \<Rightarrow> [CloseFrame]
    | Some _ \<Rightarrow> map Binary (take n
        (flv_header # egress_prime (sequence_headers s (the (parse_uuid L x))) @ relayed es)))"
proof -
  have prime: "egress_prime v @ xs = (case video (unwrap_or default_seq_headers v) of None \<Rightarrow> [] | Some d \<Rightarrow> [d]) @
      (case audio (unwrap_or default_seq_headers v) of None \<Rightarrow> [] | Some d \<Rightarrow> [d]) @
      (case last_keyframe (unwrap_or default_seq_headers v) of None \<Rightarrow> [] | Some d \<Rightarrow> [d]) @ xs" for v xs
    by (simp add: egress_prime_def unwrap_or_def default_seq_headers_def split: option.split)
  show ?thesis
    by (simp add: handle_preview_def Let_def prime preview_send_take preview_loop_take split: option.split)
qed

section \<open>Concrete runs\<close>

definition studio_state :: app where
  "studio_state = sample_state\<lparr>source_states := [1 \<mapsto> Live], media_relays := [1 \<mapsto> 0], next_chan := 1\<rparr>"

lemma studio_state_facts:
  "no_faults studio_state" "pipe_state studio_state = PIdle" "source_states studio_state 1 = Some Live"
  "media_relays studio_state 1 = Some 0"
  by (simp_all add: studio_state_def sample_state_def initial_state_def no_faults_def idle_os_def)

lemma stream_start_runs:
  assumes "no_faults s" "pipe_state s = PIdle" "parse_uuid L x = Some i" "source_states s i = Some Live"
    and "media_relays s i \<noteq> None"
  shows "\<exists>t. stream_start L order (Some x) s = (Inr (), t)"
proof -
  let ?saved = "saved_broadcast L (db s)"
  have load: "load_broadcast_config L s = (Inr ?saved, s)"
    using assms(1) by (simp add: load_broadcast_config_def saved_broadcast_def q_read_ok)
  have res: "resolve_source L order (Some x) ?saved s = (Inr i, s)"
    using assms(3,4) by (simp add: resolve_source_run wanted_source_def or_option_def)
  have "stream_start L order (Some x) s = go_on_air L ?saved i (selected_destinations L ?saved (db s)) s"
    using assms(1,2,5) load res by (simp add: stream_start_def pipeline_state_now_def q_read_ok get_media_relay_def)
  then show ?thesis
    using go_on_air_effect [where 'a = mux_error] by metis
qed


lemma stopped_broadcast_ends_next_stream_witness:
  "\<exists>s t v w w'. stream_stop s = (Inr (), t) \<and>
    stream_start sample_lib [] (Some ''1'') (studio_state\<lparr>active_schedule := active_schedule t\<rparr>) = (Inr (), v) \<and>
    active_schedule w = active_schedule v \<and>
    bc_trans sample_lib 5 (w, OnAir (sample_airing EndStop)) (w', Over) \<and> cur (program_intent w') = None"
proof -
  let ?s = "set_active_schedule (Some 5) (studio_state\<lparr>pipe_state := PStarting\<rparr>)"
  let ?a = "sample_airing EndStop"
  have tot: "never_fails (then_do egress_stop (then_do hls_stop (then_do (modify (set_program_intent None))
      (then_do stop_recording pipeline_stop))) :: unit handler)"
    by (intro total_intros)
  then obtain t where "(then_do egress_stop (then_do hls_stop (then_do (modify (set_program_intent None))
      (then_do stop_recording pipeline_stop))) :: unit handler) ?s = (Inr (), t)"
    unfolding never_fails_def by (metis (full_types) old.unit.exhaust)
  then have t: "stream_stop ?s = (Inr (), t)"
    by (simp add: stream_stop_def pipeline_state_now_def set_active_schedule_def)
  let ?u = "studio_state\<lparr>active_schedule := active_schedule t\<rparr>"
  obtain v where v: "stream_start sample_lib [] (Some ''1'') ?u = (Inr (), v)"
    using stream_start_runs [of ?u sample_lib "''1''" 1 "[]"] studio_state_facts sample_ids
    by (auto simp: no_faults_def)
  let ?w = "set_sys (\<lambda>o1. o1\<lparr>clock := air_until ?a\<rparr>) v"
  have "cur (active_schedule ?w) = Some 5 \<and>
    (\<exists>w'. bc_trans sample_lib 5 (?w, OnAir ?a) (w', Over) \<and> pipe_state w' = PStopping \<and>
      cur (program_intent w') = None \<and> processes (egress w') = [])"
    by (rule stopped_broadcast_ends_next_stream [OF _ t _ v])
       (simp_all add: set_active_schedule_def set_sys_def sample_airing_def)
  moreover have "active_schedule ?w = active_schedule v" by (simp add: set_sys_def)
  ultimately show ?thesis using t v by blast
qed

lemma cut_checks_what_auto_does_not_witness:
  "(\<exists>t. cut_to sample_lib [] ''1'' studio_state = (Inr (), t) \<and> cur (program_intent t) = Some 1) \<and>
   (\<exists>t. auto_transition (studio_state\<lparr>preview_source := Some 9\<rparr>) = (Inr (), t) \<and> cur (program_intent t) = Some 9)"
  using cut_checks_what_auto_does_not [of sample_lib "[]" "''1''" studio_state]
    cut_checks_what_auto_does_not [of sample_lib "[]" "''1''" "studio_state\<lparr>preview_source := Some 9\<rparr>"]
    studio_state_facts sample_ids by auto

lemma mute_only_interrupts_the_router_witness:
  "\<exists>t u q r. mute_source sample_lib ''1'' (set_program_source (Some 1) studio_state) = (Inr (), t) \<and>
    phase r = Forwarding \<and> got_keyframe r \<and>
    router_run [RoutingChanged, Enter] (t, r) = Some (u, q) \<and> phase q = Forwarding \<and> \<not> got_keyframe q"
proof -
  let ?s = "set_program_source (Some 1) studio_state"
  let ?r = "(router_init 0 0)\<lparr>phase := Forwarding, current_source := 1, got_keyframe := True\<rparr>"
  have "\<exists>t u q. mute_source sample_lib ''1'' ?s = (Inr (), t) \<and>
    (\<forall>c. pick_audio_source (cur (routing t)) c = pick_audio_source (cur (routing ?s)) c) \<and>
    router_run [RoutingChanged, Enter] (t, ?r) = Some (u, q) \<and>
    current_source q = current_source ?r \<and> phase q = Forwarding \<and> \<not> got_keyframe q"
    by (rule mute_only_interrupts_the_router [OF sample_ids(4)])
       (simp_all add: router_init_def set_program_source_def get_media_relay_def studio_state_facts)
  moreover have "phase ?r = Forwarding" "got_keyframe ?r" by simp_all
  ultimately show ?thesis by blast
qed

lemma audio_comes_from_the_choice_witness:
  "\<exists>t. set_audio_source sample_lib (Some 1) studio_state = (Inr (), t) \<and> pick_audio_source (cur (routing t)) 9 = 1"
  using audio_comes_from_the_choice [of studio_state 1 sample_lib 9] studio_state_facts(3) by auto

end
