(* ===== verification/Http.thy ===== *)
theory Http
  imports Ingest
begin

text \<open>
  Answers of the handlers that build their own \<open>Response\<close> instead of returning
  a value or an error: a status number, the headers they set and a body, or
  the answer made of an error.
\<close>

datatype http_answer =
    Answer (an_status: u16) (an_headers: "(string \<times> string) list") (an_body: bytes)
  | ErrorAnswer error_response

text \<open>\<open>(StatusCode, text).into\_response()\<close>, \<open>StatusCode.into\_response()\<close>, and
  \<open>ApiError::into\_response\<close>.\<close>

definition text_answer :: "u16 \<Rightarrow> string \<Rightarrow> http_answer" where
  "text_answer code t = Answer code [(''content-type'', ''text/plain; charset=utf-8'')] (text_bytes t)"

definition status_answer :: "u16 \<Rightarrow> http_answer" where
  "status_answer code = Answer code [] []"

definition error_answer :: "mux_error \<Rightarrow> http_answer" where
  "error_answer e = ErrorAnswer (into_response e)"

fun answer_status :: "http_answer \<Rightarrow> u16" where
  "answer_status (Answer code _ _) = code"
| "answer_status (ErrorAnswer r) = resp_status r"

end
