(* ===== verification/WebRtc.thy ===== *)
theory WebRtc
  imports Studio Http "HOL-Library.List_Lexorder"
begin

text \<open>
  WebRTC ingest (\<open>webrtc\_ingest.rs\<close>, \<open>guest\_webrtc.rs\<close>) and the routes that
  open it: WHIP publishers of a persistent source (\<open>routes/whip.rs\<close>) and
  invited guests (\<open>routes/guests.rs\<close>). The WebRTC stack itself is a crate: each
  of its calls may fail, and \<open>peers\<close> keeps for every connection it was given
  what the state callback captured. A connection that is dropped is not
  assumed to be silent: its callback may still come.
\<close>

section \<open>webrtc\_ingest.rs: codecs, ports and the session description\<close>

datatype video_codec = Vp8 | H264

definition VP8_PT :: byte where "VP8_PT = 96"

definition H264_PT :: byte where "H264_PT = 97"

definition OPUS_PT :: byte where "OPUS_PT = 111"

definition codec_from_mime :: "string \<Rightarrow> video_codec" where
  "codec_from_mime mime = (if to_lowercase mime = to_lowercase ''video/H264'' then H264 else Vp8)"

definition payload_type :: "video_codec \<Rightarrow> byte" where
  "payload_type v = (case v of Vp8 \<Rightarrow> VP8_PT | H264 \<Rightarrow> H264_PT)"

definition rtpmap :: "video_codec \<Rightarrow> string" where
  "rtpmap v = (case v of Vp8 \<Rightarrow> ''VP8/90000'' | H264 \<Rightarrow> ''H264/90000'')"

definition crlf :: string where
  "crlf = [CHR 0x0D, CHR 0x0A]"

definition build_ingest_sdp :: "u16 \<Rightarrow> u16 \<Rightarrow> video_codec \<Rightarrow> string" where
  "build_ingest_sdp video_port audio_port v =
    (let vpt = show_word (payload_type v); opt = show_word OPUS_PT
     in ''v=0'' @ crlf @ ''o=- 0 0 IN IP4 127.0.0.1'' @ crlf @ ''s=muxshed-ingest'' @ crlf @
        ''c=IN IP4 127.0.0.1'' @ crlf @ ''t=0 0'' @ crlf @
        ''m=video '' @ show_word video_port @ '' RTP/AVP '' @ vpt @ crlf @
        ''a=rtpmap:'' @ vpt @ '' '' @ rtpmap v @ crlf @
        (if v = H264 then ''a=fmtp:'' @ vpt @ '' packetization-mode=1'' @ crlf else []) @
        ''m=audio '' @ show_word audio_port @ '' RTP/AVP '' @ opt @ crlf @
        ''a=rtpmap:'' @ opt @ '' opus/48000/2'' @ crlf)"

text \<open>Two sockets are bound for their port numbers and dropped again.\<close>

definition alloc_ports :: "(u16 \<times> u16) io" where
  "alloc_ports =
    andThen (map_err (\<lambda>e. ''port probe: '' @ e) bind_port) (\<lambda>p1.
    andThen (map_err (\<lambda>e. ''port probe: '' @ e) bind_port) (\<lambda>p2.
    then_do (fallible (ok ()))
   (then_do (fallible (ok ()))
            (ok (p1, p2)))))"

section \<open>The peer connection\<close>

record rtc_codec =
  rc_mime :: string
  rc_clock_rate :: u32
  rc_channels :: u16
  rc_fmtp :: string
  rc_payload_type :: byte

definition h264_variants :: "(byte \<times> string) list" where
  "h264_variants =
    [(102, ''level-asymmetry-allowed=1;packetization-mode=1;profile-level-id=42001f''),
     (127, ''level-asymmetry-allowed=1;packetization-mode=0;profile-level-id=42001f''),
     (125, ''level-asymmetry-allowed=1;packetization-mode=1;profile-level-id=42e01f''),
     (108, ''level-asymmetry-allowed=1;packetization-mode=0;profile-level-id=42e01f''),
     (124, ''level-asymmetry-allowed=1;packetization-mode=1;profile-level-id=4d001f''),
     (118, ''level-asymmetry-allowed=1;packetization-mode=0;profile-level-id=4d001f''),
     (120, ''level-asymmetry-allowed=1;packetization-mode=1;profile-level-id=640c1f''),
     (121, ''level-asymmetry-allowed=1;packetization-mode=1;profile-level-id=64001f''),
     (123, ''level-asymmetry-allowed=1;packetization-mode=1;profile-level-id=640032'')]"

definition h264_codec :: "byte \<times> string \<Rightarrow> rtc_codec" where
  "h264_codec v = \<lparr>rc_mime = ''video/H264'', rc_clock_rate = 90000, rc_channels = 0,
     rc_fmtp = snd v, rc_payload_type = fst v\<rparr>"

text \<open>The codecs in the order of registration, each with the prefix of its error.\<close>

definition registered_codecs :: "(string \<times> rtc_codec) list" where
  "registered_codecs =
    [(''register vp8: '', \<lparr>rc_mime = ''video/VP8'', rc_clock_rate = 90000, rc_channels = 0,
        rc_fmtp = '''', rc_payload_type = 96\<rparr>)] @
    map (\<lambda>v. (''register h264 '' @ show_word (fst v) @ '': '', h264_codec v)) h264_variants @
    [(''register opus: '', \<lparr>rc_mime = ''audio/opus'', rc_clock_rate = 48000, rc_channels = 2,
        rc_fmtp = ''minptime=10;useinbandfec=1'', rc_payload_type = OPUS_PT\<rparr>)]"

definition rtc_ice_server :: "ice_server \<Rightarrow> string list \<times> string \<times> string" where
  "rtc_ice_server s = (ice_urls s, unwrap_or '''' (ice_username s), unwrap_or '''' (ice_credential s))"

definition new_peer_connection :: "lib \<Rightarrow> (string list \<times> string \<times> string) list \<Rightarrow> nat io" where
  "new_peer_connection L servers = fallible (\<lambda>s. case ice_error L servers of
      Some e \<Rightarrow> (Inl e, s)
    | None \<Rightarrow> (Inr (next_peer (sys s)), set_sys (\<lambda>o1. o1\<lparr>next_peer := Suc (next_peer o1)\<rparr>) s))"

definition build_peer :: "lib \<Rightarrow> nat io" where
  "build_peer L =
    then_do (forM (\<lambda>(what, c). map_err (\<lambda>e. what @ e) (fallible (ok ()))) registered_codecs)
   (then_do (map_err (\<lambda>e. ''interceptors: '' @ e) (fallible (ok ())))
   (andThen (load_webrtc_config L) (\<lambda>c.
    map_err (\<lambda>e. ''new peer connection: '' @ e) (new_peer_connection L (map rtc_ice_server c)))))"

section \<open>Start and stop of an ingest\<close>

definition set_peers :: "(uuid \<Rightarrow> nat option) \<Rightarrow> app \<Rightarrow> app" where
  "set_peers m s = s\<lparr>guest_peers := m\<rparr>"

definition set_whip_sessions :: "(uuid \<Rightarrow> uuid option) \<Rightarrow> app \<Rightarrow> app" where
  "set_whip_sessions m s = s\<lparr>whip_sessions := m\<rparr>"

text \<open>\<open>sessions.retain(|_, sid| sid != source)\<close>.\<close>

definition drop_sessions_of :: "uuid \<Rightarrow> (uuid \<Rightarrow> uuid option) \<Rightarrow> uuid \<Rightarrow> uuid option" where
  "drop_sessions_of i m = (\<lambda>k. if m k = Some i then None else m k)"

definition sdp_path :: "lib \<Rightarrow> string \<Rightarrow> uuid \<Rightarrow> string" where
  "sdp_path L dir i = path_join dir (''ingest-'' @ show_uuid L i @ ''.sdp'')"

definition guest_left :: "string \<Rightarrow> db \<Rightarrow> db" where
  "guest_left i d = d\<lparr>guests := update_where (\<lambda>r. gr_source_id r = Some i)
     (\<lambda>r. r\<lparr>gr_status := ''left'', gr_source_id := None\<rparr>) (guests d)\<rparr>"

definition guest_connected :: "string \<Rightarrow> db \<Rightarrow> db" where
  "guest_connected i d = d\<lparr>guests := update_where (\<lambda>r. gr_source_id r = Some i)
     (\<lambda>r. r\<lparr>gr_status := ''connected''\<rparr>) (guests d)\<rparr>"

definition stop_ingest :: "lib \<Rightarrow> uuid \<Rightarrow> ingest_kind \<Rightarrow> (app, 'e, unit) prog" where
  "stop_ingest L i kind =
    then_do (reg_stop Normalizers i)
   (andThen (gets (\<lambda>s. guest_peers s i)) (\<lambda>peer.
    then_do (modify (\<lambda>s. set_peers ((guest_peers s)(i := None)) s))
   (then_do (modify (remove_media_relay i))
   (then_do (modify (forget_headers i))
   (then_do (announce i Disconnected)
   (then_do (if kind = Guest
             then then_do (ignore (sql_exec (delete_source (show_uuid L i))))
                          (ignore (sql_exec (guest_left (show_uuid L i))))
             else ok ())
   (andThen (gets (\<lambda>s. data_dir (cfg s))) (\<lambda>dir.
    then_do (ignore (remove_file (sdp_path L dir i)))
   (then_do (modify (\<lambda>s. set_whip_sessions (drop_sessions_of i (whip_sessions s)) s))
            (case peer of None \<Rightarrow> ok () | Some pc \<Rightarrow> spawn_task (TClosePeer pc)))))))))))"

text \<open>What the peer and its offer are asked for: the callback first, then the
  descriptions; the relay of the source is made between them.\<close>

definition register_callback :: "nat \<Rightarrow> uuid \<Rightarrow> ingest_kind \<Rightarrow> (app, 'e, unit) prog" where
  "register_callback pc i kind = modify (set_sys (\<lambda>o1. o1\<lparr>peers := (peers o1)(pc \<mapsto> (i, kind))\<rparr>))"

definition open_ingest ::
    "lib \<Rightarrow> uuid \<Rightarrow> string \<Rightarrow> ingest_kind \<Rightarrow> u16 \<Rightarrow> u16 \<Rightarrow> nat \<Rightarrow> string io" where
  "open_ingest L i offer_sdp kind video_port audio_port pc =
    then_do (map_err (\<lambda>e. ''udp bind: '' @ e) bind_port)
   (then_do (register_callback pc i kind)
   (then_do (map_err (\<lambda>e. ''bad offer: '' @ e) (fallible (ok ())))
   (then_do (map_err (\<lambda>e. ''set remote description: '' @ e) (fallible (ok ())))
   (andThen (get_or_create_media_relay i) (\<lambda>public_tx.
    then_do (map_err (\<lambda>e. ''create answer: '' @ e) (fallible (ok ())))
   (then_do (map_err (\<lambda>e. ''set local description: '' @ e) (fallible (ok ())))
   (then_do (map_err (\<lambda>_. ''no local description after gathering'') (fallible (ok ())))
   (then_do (spawn_task (TPumpTracks pc i video_port audio_port public_tx kind))
   (then_do (modify (\<lambda>s. set_peers ((guest_peers s)(i \<mapsto> pc)) s))
   (then_do (spawn_task (TWatchIngest i kind))
            (ok (sdp_answer L offer_sdp))))))))))))"

definition start_ingest :: "lib \<Rightarrow> uuid \<Rightarrow> string \<Rightarrow> ingest_kind \<Rightarrow> string io" where
  "start_ingest L i offer_sdp kind =
    andThen alloc_ports (\<lambda>(video_port, audio_port).
    andThen (build_peer L) (\<lambda>pc.
    open_ingest L i offer_sdp kind video_port audio_port pc))"

text \<open>The thirty second watchdog, and the callback of a connection.\<close>

definition ingest_watchdog :: "lib \<Rightarrow> uuid \<Rightarrow> ingest_kind \<Rightarrow> (app, 'e, unit) prog" where
  "ingest_watchdog L i kind =
    andThen (gets (\<lambda>s. source_states s i = Some Live)) (\<lambda>live.
    if live then ok () else stop_ingest L i kind)"

datatype peer_state =
    PeerNew | PeerConnecting | PeerConnected | PeerDisconnected | PeerFailed | PeerClosed

definition on_peer_state :: "lib \<Rightarrow> nat \<Rightarrow> peer_state \<Rightarrow> (app, 'e, unit) prog" where
  "on_peer_state L pc st =
    andThen (gets (\<lambda>s. peers (sys s) pc)) (\<lambda>captured.
    case captured of
      None \<Rightarrow> ok ()
    | Some (i, kind) \<Rightarrow>
        if st \<in> {PeerFailed, PeerDisconnected, PeerClosed} then stop_ingest L i kind else ok ())"

section \<open>The encoder of an ingest\<close>

definition ingest_args :: "output_config \<Rightarrow> string \<Rightarrow> string list" where
  "ingest_args c sdp_arg =
    [''-hide_banner'', ''-loglevel'', ''warning'',
     ''-protocol_whitelist'', ''file,crypto,data,rtp,udp'',
     ''-fflags'', ''+genpts'',
     ''-analyzeduration'', ''10000000'',
     ''-probesize'', ''10000000'',
     ''-i'', sdp_arg,
     ''-vf'', canvas_filter c,
     ''-c:v'', ''libx264'', ''-preset'', ''veryfast'', ''-tune'', ''zerolatency'',
     ''-b:v'', kbps (video_bitrate_kbps c), ''-maxrate'', kbps (video_bitrate_kbps c),
     ''-bufsize'', kbps (video_bitrate_kbps c * 2), ''-g'', show_word (fps c * 2),
     ''-r'', show_word (fps c), ''-pix_fmt'', ''yuv420p'',
     ''-c:a'', ''aac'', ''-b:a'', kbps (audio_bitrate_kbps c), ''-ar'', ''48000'', ''-ac'', ''2'',
     ''-f'', ''flv'', ''-flvflags'', ''no_duration_filesize'', ''pipe:1'']"

text \<open>The child is registered only while the peer is there, under the lock that
  \<open>stop\_ingest\<close> takes it out with; without the peer it is dropped.\<close>

definition start_ffmpeg ::
    "lib \<Rightarrow> uuid \<Rightarrow> u16 \<Rightarrow> u16 \<Rightarrow> video_codec \<Rightarrow> nat \<Rightarrow> ingest_kind \<Rightarrow> unit io" where
  "start_ffmpeg L i video_port audio_port v public_tx kind =
    andThen (load_output_config L) (\<lambda>c.
    andThen (gets (\<lambda>s. data_dir (cfg s))) (\<lambda>dir.
    then_do (ignore (create_dir_all dir))
   (then_do (map_err (\<lambda>e. ''write sdp: '' @ e)
              (write_file (sdp_path L dir i) (text_bytes (build_ingest_sdp video_port audio_port v))))
   (andThen (map_err (\<lambda>e. ''failed to start ingest ffmpeg: '' @ e)
              (spawn_child ''ffmpeg'' (ingest_args c (sdp_path L dir i)))) (\<lambda>child.
    andThen (gets (\<lambda>s. guest_peers s i)) (\<lambda>peer.
    if peer = None then then_do (kill child) (throw ''peer torn down before ffmpeg start'')
    else then_do (reg_replace Normalizers i child)
        (then_do (announce i Connecting)
                 (spawn_task (TReadIngest i public_tx kind)))))))))"

definition ingest_is_live :: "lib \<Rightarrow> uuid \<Rightarrow> ingest_kind \<Rightarrow> (app, 'e, unit) prog" where
  "ingest_is_live L i kind =
    then_do (announce i Live)
            (if kind = Guest then ignore (sql_exec (guest_connected (show_uuid L i))) else ok ())"

definition read_ingest_output :: "lib \<Rightarrow> ingest_kind \<Rightarrow> uuid \<Rightarrow> nat \<Rightarrow> bytes \<Rightarrow> app \<Rightarrow> app" where
  "read_ingest_output L kind i public_tx stdout s =
    read_flv (\<lambda>s. snd ((ingest_is_live L i kind :: unit io) s)) id i public_tx stdout s"

section \<open>Tracks\<close>

text \<open>The pump: every half second for thirty seconds it looks at the tracks of the
  connection and forwards each that has an SSRC it has not seen.\<close>

record track =
  tr_ssrc :: u32
  tr_video :: bool

fun pump_poll :: "u32 list \<Rightarrow> track list \<Rightarrow> track list \<times> u32 list" where
  "pump_poll started [] = ([], started)"
| "pump_poll started (t # ts) =
    (if tr_ssrc t = 0 \<or> tr_ssrc t \<in> set started then pump_poll started ts
     else case pump_poll (tr_ssrc t # started) ts of (fs, started') \<Rightarrow> (t # fs, started'))"

fun pump_polls :: "u32 list \<Rightarrow> track list list \<Rightarrow> track list" where
  "pump_polls started [] = []"
| "pump_polls started (ts # polls) =
    (case pump_poll started ts of (fs, started') \<Rightarrow> fs @ pump_polls started' polls)"

text \<open>The polls end with the connection; the rest of the sixty is not made.\<close>

definition pump_tracks :: "track list list \<Rightarrow> track list" where
  "pump_tracks polls = pump_polls [] (take 60 polls)"

text \<open>The first packet of a video track: the first such track of the ingest starts
  the encoder (the flag \<open>ffmpeg\_started\<close>), and its failure stops the ingest. The
  answer is whether the track is forwarded.\<close>

definition on_video_track ::
    "lib \<Rightarrow> uuid \<Rightarrow> u16 \<Rightarrow> u16 \<Rightarrow> nat \<Rightarrow> ingest_kind \<Rightarrow> string \<Rightarrow> bool \<Rightarrow> (app, 'e, bool) prog" where
  "on_video_track L i video_port audio_port public_tx kind mime ffmpeg_started =
    (if ffmpeg_started then ok True
     else andThen (attempt (start_ffmpeg L i video_port audio_port (codec_from_mime mime) public_tx kind)) (\<lambda>r.
       case r of
         Inl e \<Rightarrow> then_do (stop_ingest L i kind) (ok False)
       | Inr _ \<Rightarrow> ok True))"

record rtp_packet =
  rtp_payload_type :: byte
  rtp_rest :: bytes

text \<open>The datagrams a track sends on: the payload type is rewritten, a packet that
  cannot be marshalled is left out, a refused send ends the track.\<close>

fun forward_rtp ::
    "(rtp_packet \<Rightarrow> bytes option) \<Rightarrow> (bytes \<Rightarrow> bool) \<Rightarrow> byte \<Rightarrow> rtp_packet list \<Rightarrow> bytes list" where
  "forward_rtp marshal takes pt [] = []"
| "forward_rtp marshal takes pt (p # ps) =
    (case marshal (p\<lparr>rtp_payload_type := pt\<rparr>) of
       None \<Rightarrow> forward_rtp marshal takes pt ps
     | Some raw \<Rightarrow> if takes raw then raw # forward_rtp marshal takes pt ps else [])"

section \<open>guest\_webrtc.rs and routes/guests.rs\<close>

definition start_guest_ingest :: "lib \<Rightarrow> uuid \<Rightarrow> string \<Rightarrow> string io" where
  "start_guest_ingest L i offer_sdp = start_ingest L i offer_sdp Guest"

definition stop_guest_ingest :: "lib \<Rightarrow> uuid \<Rightarrow> (app, 'e, unit) prog" where
  "stop_guest_ingest L i = stop_ingest L i Guest"

record guest_response =
  gs_id :: string
  gs_name :: string
  gs_token :: string
  gs_url :: string
  gs_status :: string
  gs_created_at :: string

record guest_list_item =
  gl_id :: string
  gl_name :: string
  gl_token :: string
  gl_status :: string
  gl_created_at :: string

record guest_info =
  gi_name :: string
  gi_status :: string
  gi_ice_servers :: webrtc_config

definition generate_guest_token :: "lib \<Rightarrow> (app, 'e, string) prog" where
  "generate_guest_token L = random_token L 36 32"

text \<open>The table: its primary key and its UNIQUE token.\<close>

definition insert_guest :: "guest_row \<Rightarrow> db \<Rightarrow> db option" where
  "insert_guest r d =
    (if gr_token r \<in> gr_token ` set (guests d) then None
     else map_option (\<lambda>rs. d\<lparr>guests := rs\<rparr>) (insert_row gr_id r (guests d)))"

definition fetch_guest :: "string \<Rightarrow> guest_row handler" where
  "fetch_guest i = andThen (q (sql_read (\<lambda>d. find (\<lambda>r. gr_id r = i) (guests d))))
     (\<lambda>r. need (Database ''no rows returned'') r)"

definition invite_guest :: "lib \<Rightarrow> string \<Rightarrow> guest_response handler" where
  "invite_guest L body_name =
    then_do (check (trim body_name \<noteq> []) (BadRequest ''guest name is required''))
   (andThen (fresh_uuid L) (\<lambda>i.
    andThen (generate_guest_token L) (\<lambda>token.
    andThen now (\<lambda>t.
    then_do (q (sql_try (insert_guest
      \<lparr>gr_id = show_uuid L i, gr_name = trim body_name, gr_token = token,
       gr_created_at = sql_datetime L t, gr_status = ''invited'', gr_source_id = None\<rparr>)))
   (andThen (fetch_guest (show_uuid L i)) (\<lambda>row.
    ok \<lparr>gs_id = gr_id row, gs_name = gr_name row, gs_token = gr_token row,
        gs_url = ''/guest/'' @ gr_token row, gs_status = gr_status row,
        gs_created_at = gr_created_at row\<rparr>))))))"

text \<open>\<open>ORDER BY created\_at DESC\<close>; SQLite leaves the order of equal times open, the
  model keeps the later row first.\<close>

definition list_guests :: "guest_list_item list handler" where
  "list_guests = andThen (q (sql_read (\<lambda>d. rev (sort_key gr_created_at (guests d))))) (\<lambda>rs.
     ok (map (\<lambda>r. \<lparr>gl_id = gr_id r, gl_name = gr_name r, gl_token = gr_token r,
       gl_status = gr_status r, gl_created_at = gr_created_at r\<rparr>) rs))"

definition delete_guest :: "string \<Rightarrow> unit handler" where
  "delete_guest i =
    andThen (q (sql_count (\<lambda>d. count_where (\<lambda>r. gr_id r = i) (guests d))
      (\<lambda>d. d\<lparr>guests := delete_where (\<lambda>r. gr_id r = i) (guests d)\<rparr>))) (\<lambda>rows.
    check (rows \<noteq> 0) (NotFound (''guest '' @ i)))"

definition guest_public_info :: "lib \<Rightarrow> string \<Rightarrow> guest_info handler" where
  "guest_public_info L token =
    andThen (q (sql_read (\<lambda>d. find (\<lambda>r. gr_token r = token) (guests d)))) (\<lambda>row.
    andThen (need (NotFound ''guest link not found'') row) (\<lambda>r.
    andThen (load_webrtc_config L) (\<lambda>servers.
    ok \<lparr>gi_name = gr_name r, gi_status = gr_status r, gi_ice_servers = servers\<rparr>)))"

text \<open>Each join of a guest makes a source of its own, named after the guest and
  with the invite's token, and links the guest's row to it.\<close>

definition sdp_created :: "string \<Rightarrow> string \<Rightarrow> http_answer" where
  "sdp_created location answer =
    Answer 201 [(''content-type'', ''application/sdp''), (''location'', location)] (text_bytes answer)"

definition insert_source_row :: "lib \<Rightarrow> uuid \<Rightarrow> string \<Rightarrow> source_kind \<Rightarrow> unit io" where
  "insert_source_row L i name kind = andThen now (\<lambda>t. sql_try (\<lambda>d. map_option (\<lambda>rs. d\<lparr>sources := rs\<rparr>)
     (insert_row sr_id \<lparr>sr_id = show_uuid L i, sr_name = name, sr_kind = kind_to_json L kind,
        sr_created_at = sql_datetime L t\<rparr> (sources d))))"

definition guest_connecting :: "string \<Rightarrow> string \<Rightarrow> db \<Rightarrow> db" where
  "guest_connecting token i d = d\<lparr>guests := update_where (\<lambda>r. gr_token r = token)
     (\<lambda>r. r\<lparr>gr_status := ''connecting'', gr_source_id := Some i\<rparr>) (guests d)\<rparr>"

definition guest_whip :: "lib \<Rightarrow> string \<Rightarrow> string \<Rightarrow> (app, 'e, http_answer) prog" where
  "guest_whip L token offer =
    andThen (ok_flatten (sql_read (\<lambda>d. find (\<lambda>r. gr_token r = token) (guests d)))) (\<lambda>guest. case guest of
      None \<Rightarrow> ok (text_answer 404 ''guest link not found'')
    | Some g \<Rightarrow>
        andThen (fresh_uuid L) (\<lambda>i.
        andThen (attempt (insert_source_row L i (gr_name g @ '' (guest)'') (WebRtc token))) (\<lambda>r. case r of
          Inl _ \<Rightarrow> ok (text_answer 500 ''could not create source'')
        | Inr _ \<Rightarrow>
            then_do (ignore (sql_exec (guest_connecting token (show_uuid L i))))
           (andThen (attempt (start_guest_ingest L i offer)) (\<lambda>r. case r of
              Inr answer \<Rightarrow> ok (sdp_created (''/api/v1/guest/'' @ token @ ''/whip'') answer)
            | Inl e \<Rightarrow> then_do (stop_guest_ingest L i)
                        (ok (text_answer 400 (''could not start ingest: '' @ e))))))))"

section \<open>routes/whip.rs\<close>

definition whip_bearer_token :: "string option \<Rightarrow> string option" where
  "whip_bearer_token authorization = Option.bind authorization (\<lambda>value.
     Option.bind (case strip_prefix ''Bearer '' value of
         Some rest \<Rightarrow> Some rest | None \<Rightarrow> strip_prefix ''bearer '' value)
       (\<lambda>rest. if trim rest = [] then None else Some (trim rest)))"

text \<open>The text of a token inside the JSON of a kind, as a LIKE pattern.\<close>

definition token_needle :: "string \<Rightarrow> string" where
  "token_needle token = ''%'' @ [CHR 0x22] @ ''token'' @ [CHR 0x22] @ '':'' @ [CHR 0x22] @ token @ [CHR 0x22] @ ''%''"

definition resolve_whip_source :: "lib \<Rightarrow> string \<Rightarrow> (app, u16, uuid) prog" where
  "resolve_whip_source L token =
    andThen (map_err (\<lambda>_. 401) (sql_read (\<lambda>d. find (\<lambda>r. sql_like (token_needle token) (sr_kind r)) (sources d)))) (\<lambda>row.
    andThen (need 401 row) (\<lambda>r.
    andThen (need 401 (kind_of_json L (sr_kind r))) (\<lambda>kind.
    then_do (check (kind = WebRtc token) 401)
   (andThen (map_err (\<lambda>_. 401) (sql_read (\<lambda>d. find (\<lambda>g. gr_source_id g = Some (sr_id r)) (guests d)))) (\<lambda>is_guest.
    then_do (check (is_guest = None) 401)
            (need 401 (parse_uuid L (sr_id r))))))))"

definition whip_open :: "lib \<Rightarrow> uuid \<Rightarrow> string \<Rightarrow> (app, 'e, http_answer) prog" where
  "whip_open L i offer =
    andThen (attempt (start_ingest L i offer Persistent)) (\<lambda>r. case r of
      Inr answer \<Rightarrow>
        andThen (fresh_uuid L) (\<lambda>session.
        then_do (modify (\<lambda>s. set_whip_sessions ((drop_sessions_of i (whip_sessions s))(session \<mapsto> i)) s))
                (ok (sdp_created (''/api/v1/whip/'' @ show_uuid L session) answer)))
    | Inl e \<Rightarrow> then_do (stop_ingest L i Persistent)
                (ok (text_answer 400 (''could not start ingest: '' @ e))))"

definition whip_publish :: "lib \<Rightarrow> string option \<Rightarrow> string \<Rightarrow> (app, 'e, http_answer) prog" where
  "whip_publish L authorization offer = (case whip_bearer_token authorization of
      None \<Rightarrow> ok (text_answer 401 ''missing bearer token'')
    | Some token \<Rightarrow>
        andThen (attempt (resolve_whip_source L token)) (\<lambda>r. case r of
          Inl code \<Rightarrow> ok (text_answer code ''invalid bearer token'')
        | Inr i \<Rightarrow>
            andThen (gets (\<lambda>s. source_states s i)) (\<lambda>st.
            if st = Some Live \<or> st = Some Connecting then ok (text_answer 409 ''source already publishing'')
            else andThen (gets (\<lambda>s. guest_peers s i)) (\<lambda>peer.
            if peer \<noteq> None then ok (text_answer 409 ''source already publishing'')
            else whip_open L i offer))))"

definition whip_teardown :: "lib \<Rightarrow> string \<Rightarrow> (app, 'e, http_answer) prog" where
  "whip_teardown L session = (case parse_uuid L session of
      None \<Rightarrow> ok (status_answer 204)
    | Some k \<Rightarrow>
        andThen (gets (\<lambda>s. whip_sessions s k)) (\<lambda>source.
        then_do (modify (\<lambda>s. set_whip_sessions ((whip_sessions s)(k := None)) s))
       (then_do (case source of None \<Rightarrow> ok () | Some i \<Rightarrow> stop_ingest L i Persistent)
                (ok (status_answer 204)))))"

section \<open>What a start and a stop do\<close>

text \<open>The part of the state the ingests share: the publishers, their relays, caches,
  states, sessions and encoders, and the callbacks of the connections.\<close>

definition ingest_view :: "app \<Rightarrow> (uuid \<Rightarrow> nat option) \<times> (uuid \<Rightarrow> nat option) \<times> (uuid \<Rightarrow> seq_headers option) \<times>
    (uuid \<Rightarrow> source_state option) \<times> (uuid \<Rightarrow> uuid option) \<times> (uuid \<Rightarrow> child option) \<times>
    (nat \<Rightarrow> (uuid \<times> ingest_kind) option) \<times> nat" where
  "ingest_view s = (guest_peers s, media_relays s, sequence_headers s, source_states s, whip_sessions s,
     source_normalizers s, peers (sys s), next_peer (sys s))"

lemma ingest_view_fallible:
  "keeps ingest_view m \<Longrightarrow> keeps ingest_view (fallible m)"
  by (auto simp: keeps_def fallible_def ingest_view_def drop_fault_def set_sys_def split: option.split)

lemma ingest_view_calls:
  "keeps ingest_view (sql_exec f)" "keeps ingest_view (sql_read g)" "keeps ingest_view (sql_try h)"
  "keeps ingest_view (remove_file p)" "keeps ingest_view (write_file p b)" "keeps ingest_view (create_dir_all p)"
  "keeps ingest_view bind_port" "keeps ingest_view (spawn_child prg as)" "keeps ingest_view now"
  "keeps ingest_view (spawn_task t)" "keeps ingest_view (ws_send e)" "keeps ingest_view (fresh_uuid L)"
  "keeps ingest_view (kill c)" "keeps ingest_view (random_token L base n)"
proof -
  show "keeps ingest_view (sql_exec f)" "keeps ingest_view (sql_read g)" "keeps ingest_view (sql_try h)"
    "keeps ingest_view (remove_file p)" "keeps ingest_view (write_file p b)" "keeps ingest_view (create_dir_all p)"
    "keeps ingest_view bind_port" "keeps ingest_view (spawn_child prg as)"
    unfolding sql_exec_def sql_read_def sql_try_def remove_file_def write_file_def create_dir_all_def
      bind_port_def spawn_child_def
    by (rule ingest_view_fallible,
        simp add: keeps_def ingest_view_def set_sys_def Let_def split: option.split)+
qed (simp_all add: keeps_def ingest_view_def spawn_task_def ws_send_def fresh_uuid_def kill_def now_def
    random_token_def set_sys_def)

text \<open>\<open>acts v g m\<close>: a run of \<open>m\<close> never fails and takes the part \<open>v\<close> of the state
  through \<open>g\<close>; runs in sequence compose.\<close>

definition acts :: "('s \<Rightarrow> 'v) \<Rightarrow> ('v \<Rightarrow> 'v) \<Rightarrow> ('s, 'e, 'a) prog \<Rightarrow> bool" where
  "acts v g m \<longleftrightarrow> (\<forall>s. \<exists>a t. m s = (Inr a, t) \<and> v t = g (v s))"

lemma actsD: "acts v g m \<Longrightarrow> \<exists>a t. m s = (Inr a, t) \<and> v t = g (v s)"
  by (simp add: acts_def)

lemma acts_then: "acts v g m \<Longrightarrow> (\<And>a. acts v h (k a)) \<Longrightarrow> acts v (\<lambda>x. h (g x)) (andThen m k)"
  unfolding acts_def by (metis andThen_Inr)

lemma acts_keeps: "keeps v m \<Longrightarrow> never_fails m \<Longrightarrow> acts v (\<lambda>x. x) m"
  unfolding acts_def keeps_def never_fails_def by (metis snd_conv)

lemma acts_cong: "acts v g m \<Longrightarrow> (\<And>x. g x = h x) \<Longrightarrow> acts v h m"
  by (simp add: acts_def)

lemma acts_modify: "(\<And>s. v (f s) = g (v s)) \<Longrightarrow> acts v g (modify f)"
  by (simp add: acts_def)

lemma acts_reg_stop:
  "acts ingest_view (\<lambda>(gp, mr, sh, ss, ws, sn, p). (gp, mr, sh, ss, ws, sn(i := None), p)) (reg_stop Normalizers i)"
  by (simp add: acts_def reg_stop_def reg_take_def kill_opt_def kill_def ingest_view_def set_sys_def split: option.split)

lemma acts_announce:
  "acts ingest_view (\<lambda>(gp, mr, sh, ss, p). (gp, mr, sh, ss(i \<mapsto> st), p)) (announce i st)"
  by (simp add: acts_def announce_def ws_send_def ingest_view_def set_source_state_def)

lemma acts_stop_ingest:
  "acts ingest_view (\<lambda>(gp, mr, sh, ss, ws, sn, p).
     (gp(i := None), mr(i := None), sh(i := None), ss(i \<mapsto> Disconnected), drop_sessions_of i ws, sn(i := None), p))
   (stop_ingest L i kind :: (app, 'e, unit) prog)"
proof -
  let ?v = ingest_view
  let ?guest = "if kind = Guest then then_do (ignore (sql_exec (delete_source (show_uuid L i))))
    (ignore (sql_exec (guest_left (show_uuid L i)))) else ok () :: (app, 'e, unit) prog"
  have guest: "acts ?v (\<lambda>x. x) ?guest"
    by (intro acts_keeps keeps_if keeps_andThen keeps_wrap ingest_view_calls keeps_pure total_intros)
  have sdp: "acts ?v (\<lambda>x. x) (ignore (remove_file p) :: (app, 'e, unit) prog)" for p
    by (intro acts_keeps keeps_wrap ingest_view_calls total_intros)
  have close: "acts ?v (\<lambda>x. x) ((case peer of None \<Rightarrow> ok () | Some pc \<Rightarrow> spawn_task (TClosePeer pc)) :: (app, 'e, unit) prog)" for peer
    by (intro acts_keeps keeps_case_option ingest_view_calls keeps_pure total_intros)
  have get: "acts ?v (\<lambda>x. x) (gets f :: (app, 'e, 'a) prog)" for f
    by (intro acts_keeps keeps_pure total_intros)
  have writes:
    "acts ?v (\<lambda>(gp, p). (gp(i := None), p)) (modify (\<lambda>s. set_peers ((guest_peers s)(i := None)) s) :: (app, 'e, unit) prog)"
    "acts ?v (\<lambda>(gp, mr, p). (gp, mr(i := None), p)) (modify (remove_media_relay i) :: (app, 'e, unit) prog)"
    "acts ?v (\<lambda>(gp, mr, sh, p). (gp, mr, sh(i := None), p)) (modify (forget_headers i) :: (app, 'e, unit) prog)"
    "acts ?v (\<lambda>(gp, mr, sh, ss, ws, p). (gp, mr, sh, ss, drop_sessions_of i ws, p))
       (modify (\<lambda>s. set_whip_sessions (drop_sessions_of i (whip_sessions s)) s) :: (app, 'e, unit) prog)"
    by (auto simp: acts_def ingest_view_def set_peers_def remove_media_relay_def forget_headers_def set_whip_sessions_def)
  note parts = acts_then [OF acts_reg_stop acts_then [OF get acts_then [OF writes(1) acts_then [OF writes(2)
    acts_then [OF writes(3) acts_then [OF acts_announce acts_then [OF guest acts_then [OF get
    acts_then [OF sdp acts_then [OF writes(4) close]]]]]]]]]]
  show ?thesis
    unfolding stop_ingest_def by (rule acts_cong [OF parts]) (simp split: prod.split)
qed

text \<open>The same for the parts that can fail: a call that leaves the view alone goes
  on from the same view, or ends in it.\<close>

lemmas wp_calm = wp_keep [where f = ingest_view]

lemma ingest_view_step: "keeps ingest_view (map_err g (fallible (ok ())))"
  by (intro keeps_wrap ingest_view_fallible keeps_pure)

lemma ingest_view_ports: "keeps ingest_view alloc_ports"
  unfolding alloc_ports_def by (intro keeps_andThen keeps_wrap ingest_view_calls ingest_view_fallible keeps_pure)

lemma ingest_view_codecs:
  "keeps ingest_view (forM (\<lambda>(what, c). map_err (\<lambda>e. what @ e) (fallible (ok ()))) cs)"
  by (intro keeps_forM keeps_case_prod ingest_view_step)

lemma ingest_view_settings:
  "keeps ingest_view (load_webrtc_config L)" "keeps ingest_view (load_output_config L)"
  unfolding load_webrtc_config_def load_output_config_def load_setting_def read_setting_def
  by (intro keeps_andThen keeps_ok_flatten ingest_view_calls keeps_pure)+

lemma wp_build_peer:
  assumes "ingest_view s = (gp, mr, sh, ss, ws, sn, pe, np)"
  shows "wp (build_peer L) (\<lambda>pc t. pc = np \<and> ingest_view t = (gp, mr, sh, ss, ws, sn, pe, Suc np))
    (\<lambda>_ t. ingest_view t = (gp, mr, sh, ss, ws, sn, pe, np)) s"
proof -
  have "wp (new_peer_connection L servers) (\<lambda>pc t. pc = np \<and> ingest_view t = (gp, mr, sh, ss, ws, sn, pe, Suc np))
    (\<lambda>_ t. ingest_view t = (gp, mr, sh, ss, ws, sn, pe, np)) t"
    if "ingest_view t = (gp, mr, sh, ss, ws, sn, pe, np)" for servers t
    using that by (auto simp: new_peer_connection_def wp_def fallible_def ingest_view_def drop_fault_def set_sys_def
        split: option.split)
  then show ?thesis
    unfolding build_peer_def
    by (intro wp_calm [OF ingest_view_codecs assms] wp_calm [OF ingest_view_step] wp_calm [OF ingest_view_settings(1)])
       (auto simp: wp_map_err)
qed

lemma wp_start_ingest:
  assumes "ingest_view s = (gp, mr, sh, ss, ws, sn, pe, np)"
  shows "wp (start_ingest L i offer kind)
    (\<lambda>sdp t. sdp = sdp_answer L offer \<and> (\<exists>mr'. mr' i \<noteq> None \<and> (\<forall>j. j \<noteq> i \<longrightarrow> mr' j = mr j) \<and>
       ingest_view t = (gp(i \<mapsto> np), mr', sh, ss, ws, sn, pe(np \<mapsto> (i, kind)), Suc np)))
    (\<lambda>e t. \<exists>mr' pe' np'. np \<le> np' \<and> (\<forall>n < np. pe' n = pe n) \<and> (\<forall>j. j \<noteq> i \<longrightarrow> mr' j = mr j) \<and>
       ingest_view t = (gp, mr', sh, ss, ws, sn, pe', np')) s"
  (is "wp _ ?Q ?E s")
proof -
  let ?pe = "pe(np \<mapsto> (i, kind))"
  have err: "?E e t" if "ingest_view t = (gp, mr, sh, ss, ws, sn, pe, np)" for e t
    using that by auto
  have err2: "?E e t" if "ingest_view t = (gp, mr', sh, ss, ws, sn, pe', Suc np)" "pe' = pe \<or> pe' = ?pe"
      "\<forall>j. j \<noteq> i \<longrightarrow> mr' j = mr j" for e t mr' pe'
    using that by (intro exI [of _ mr'] exI [of _ pe'] exI [of _ "Suc np"]) auto
  have end_part: "wp (then_do (spawn_task (TPumpTracks np i vp ap tx kind))
     (then_do (modify (\<lambda>s. set_peers ((guest_peers s)(i \<mapsto> np)) s))
     (then_do (spawn_task (TWatchIngest i kind)) (ok (sdp_answer L offer))))) ?Q ?E t"
    if "ingest_view t = (gp, mr', sh, ss, ws, sn, ?pe, Suc np)" "mr' i \<noteq> None" "\<forall>j. j \<noteq> i \<longrightarrow> mr' j = mr j" for vp ap tx t mr'
    using that by (auto simp: wp_simps spawn_task_def ingest_view_def set_peers_def set_sys_def)
  have relay: "wp (get_or_create_media_relay i) (\<lambda>tx t. \<exists>mr'. mr' i \<noteq> None \<and> (\<forall>j. j \<noteq> i \<longrightarrow> mr' j = mr j) \<and>
      ingest_view t = (gp, mr', sh, ss, ws, sn, ?pe, Suc np)) ?E t"
    if "ingest_view t = (gp, mr, sh, ss, ws, sn, ?pe, Suc np)" for t
    using that by (auto simp: wp_def get_or_create_media_relay_def ingest_view_def split: option.split)
  have register: "wp (register_callback np i kind) (\<lambda>_ t. ingest_view t = (gp, mr, sh, ss, ws, sn, ?pe, Suc np)) ?E t"
    if "ingest_view t = (gp, mr, sh, ss, ws, sn, pe, Suc np)" for t
    using that by (auto simp: register_callback_def wp_simps ingest_view_def set_sys_def)
  have answer: "wp (then_do (map_err (\<lambda>e. ''create answer: '' @ e) (fallible (ok ())))
     (then_do (map_err (\<lambda>e. ''set local description: '' @ e) (fallible (ok ())))
     (then_do (map_err (\<lambda>_. ''no local description after gathering'') (fallible (ok ())))
     (then_do (spawn_task (TPumpTracks np i vp ap tx kind))
     (then_do (modify (\<lambda>s. set_peers ((guest_peers s)(i \<mapsto> np)) s))
     (then_do (spawn_task (TWatchIngest i kind)) (ok (sdp_answer L offer)))))))) ?Q ?E t"
    if "ingest_view t = (gp, mr', sh, ss, ws, sn, ?pe, Suc np)" "mr' i \<noteq> None" "\<forall>j. j \<noteq> i \<longrightarrow> mr' j = mr j" for vp ap tx t mr'
    using that by (intro wp_calm [OF ingest_view_step] end_part) (auto intro: err2)
  have opened: "wp (open_ingest L i offer kind video_port audio_port np) ?Q ?E t"
    if "ingest_view t = (gp, mr, sh, ss, ws, sn, pe, Suc np)" for video_port audio_port :: u16 and t
  proof -
    have bound: "keeps ingest_view (map_err (\<lambda>e. ''udp bind: '' @ e) bind_port :: u16 io)"
      by (intro keeps_wrap ingest_view_calls)
    show ?thesis
      unfolding open_ingest_def
      by (rule wp_calm [OF bound that], rule wp_seq [OF register], assumption,
          rule wp_calm [OF ingest_view_step], assumption, rule wp_calm [OF ingest_view_step], assumption,
          rule wp_seq [OF relay], assumption, (erule exE conjE)+, erule (2) answer, (erule err2, simp, simp)+)
  qed
  show ?thesis
    unfolding start_ingest_def
  proof (rule wp_calm [OF ingest_view_ports assms])
    fix ports :: "u16 \<times> u16" and t assume t: "ingest_view t = (gp, mr, sh, ss, ws, sn, pe, np)"
    obtain vp ap where ports: "ports = (vp, ap)" by (cases ports)
    have "wp (andThen (build_peer L) (\<lambda>pc. open_ingest L i offer kind vp ap pc)) ?Q ?E t"
      by (rule wp_seq [OF wp_mono [OF wp_build_peer [OF t]]]) (auto simp del: not_None_eq intro: opened err)
    then show "wp (case ports of (vp, ap) \<Rightarrow> andThen (build_peer L) (\<lambda>pc. open_ingest L i offer kind vp ap pc)) ?Q ?E t"
      by (simp add: ports)
  qed (rule err)
qed

section \<open>Publishing\<close>

lemma ingest_view_resolve: "keeps ingest_view (resolve_whip_source L token)"
  unfolding resolve_whip_source_def by (intro keeps_andThen keeps_wrap ingest_view_calls keeps_pure)

lemma resolve_errors:
  assumes "resolve_whip_source L token s = (Inl code, t)"
  shows "code = 401"
proof -
  have "wp (resolve_whip_source L token) (\<lambda>_ _. True) (\<lambda>c _. c = 401) s"
    by (auto simp: resolve_whip_source_def wp_simps sql_read_def split: option.split)
  from wp_errD [OF this assms] show ?thesis .
qed

lemma resolve_Inr:
  assumes "resolve_whip_source L token s = (Inr i, t)"
  shows "\<exists>r \<in> set (sources (db s)). parse_uuid L (sr_id r) = Some i \<and>
    kind_of_json L (sr_kind r) = Some (WebRtc token) \<and> (\<forall>g \<in> set (guests (db s)). gr_source_id g \<noteq> Some (sr_id r))"
proof -
  have read: "map_err (\<lambda>_. 401) (sql_read f) s = (Inr x, t) \<Longrightarrow> x = f (db s) \<and> db t = db s" for f :: "db \<Rightarrow> 'x" and s x t
    by (auto simp: map_err_def sql_read_def fallible_def split: option.splits)
  from assms obtain row s1 r kind guest s2 where
      row: "map_err (\<lambda>_. 401) (sql_read (\<lambda>d. find (\<lambda>r. sql_like (token_needle token) (sr_kind r)) (sources d))) s = (Inr row, s1)"
    and r: "row = Some r" and kind: "kind_of_json L (sr_kind r) = Some kind" "kind = WebRtc token"
    and guest: "map_err (\<lambda>_. 401) (sql_read (\<lambda>d. find (\<lambda>g. gr_source_id g = Some (sr_id r)) (guests d))) s1 = (Inr guest, s2)"
    and i: "guest = None" "parse_uuid L (sr_id r) = Some i"
    unfolding resolve_whip_source_def Inr_iffs by blast
  have "r \<in> set (sources (db s))"
    using read [OF row] r find_key_Some_in by metis
  moreover have "\<forall>g \<in> set (guests (db s)). gr_source_id g \<noteq> Some (sr_id r)"
  proof -
    have "find (\<lambda>g. gr_source_id g = Some (sr_id r)) (guests (db s)) = None"
      using read [OF row] read [OF guest] i(1) by simp
    then show ?thesis unfolding find_None_iff by blast
  qed
  ultimately show ?thesis using kind i(2) by blast
qed

text \<open>The three ways a publication ends: refused without a change, opened, or
  torn down again when the WebRTC stack refuses.\<close>

lemma whip_open_cases:
  assumes view: "ingest_view s = (gp, mr, sh, ss, ws, sn, pe, np)"
    and run: "whip_open L i offer s = (Inr a, t)"
  shows "(\<exists>k mr'. answer_status a = 201 \<and> a = sdp_created (''/api/v1/whip/'' @ show_uuid L k) (sdp_answer L offer) \<and>
      mr' i \<noteq> None \<and> (\<forall>j. j \<noteq> i \<longrightarrow> mr' j = mr j) \<and>
      ingest_view t = (gp(i \<mapsto> np), mr', sh, ss, (drop_sessions_of i ws)(k \<mapsto> i), sn, pe(np \<mapsto> (i, Persistent)), Suc np)) \<or>
    (\<exists>mr' pe' np'. answer_status a = 400 \<and> np \<le> np' \<and> (\<forall>n < np. pe' n = pe n) \<and> (\<forall>j. j \<noteq> i \<longrightarrow> mr' j = mr j) \<and>
      ingest_view t = (gp(i := None), mr'(i := None), sh(i := None), ss(i \<mapsto> Disconnected), drop_sessions_of i ws,
        sn(i := None), pe', np'))"
proof -
  obtain q v where q: "start_ingest L i offer Persistent s = (q, v)" by (cases "start_ingest L i offer Persistent s")
  note started = wp_start_ingest [OF view, of L i offer Persistent, unfolded wp_def q case_prod_conv]
  show ?thesis
  proof (cases q)
    case (Inl e)
    obtain x w where w: "(stop_ingest L i Persistent :: (app, 'a, unit) prog) v = (Inr x, w)"
        and wv: "ingest_view w = (\<lambda>(gp, mr, sh, ss, ws, sn, p). (gp(i := None), mr(i := None), sh(i := None),
          ss(i \<mapsto> Disconnected), drop_sessions_of i ws, sn(i := None), p)) (ingest_view v)"
      using actsD [OF acts_stop_ingest] by blast
    have "answer_status a = 400" "t = w"
      using run q w by (auto simp: whip_open_def Inl text_answer_def)
    then show ?thesis using started wv by (auto simp: Inl)
  next
    case (Inr answer)
    obtain k where k: "a = sdp_created (''/api/v1/whip/'' @ show_uuid L k) answer"
        "t = set_whip_sessions ((drop_sessions_of i (whip_sessions v))(k \<mapsto> i)) (set_sys (\<lambda>o1. o1\<lparr>uuids := Suc (uuids o1)\<rparr>) v)"
      using run q by (simp add: whip_open_def Inr fresh_uuid_def) (auto simp: set_sys_def)
    moreover from started obtain mr' where "answer = sdp_answer L offer" "mr' i \<noteq> None" "\<forall>j. j \<noteq> i \<longrightarrow> mr' j = mr j"
        "ingest_view v = (gp(i \<mapsto> np), mr', sh, ss, ws, sn, pe(np \<mapsto> (i, Persistent)), Suc np)"
      unfolding Inr by auto
    ultimately show ?thesis
      by (intro disjI1 exI [of _ k] exI [of _ mr'])
         (simp add: sdp_created_def ingest_view_def set_whip_sessions_def set_sys_def)
  qed
qed

lemma whip_publish_cases:
  assumes "(whip_publish L auth offer :: (app, 'e, http_answer) prog) s = (Inr a, t)"
  shows "(answer_status a \<in> {401, 409} \<and> ingest_view t = ingest_view s) \<or>
    (\<exists>token i u. whip_bearer_token auth = Some token \<and> resolve_whip_source L token s = (Inr i, u) \<and>
      ingest_view u = ingest_view s \<and> source_states s i \<notin> {Some Live, Some Connecting} \<and> guest_peers s i = None \<and>
      (whip_open L i offer :: (app, 'e, http_answer) prog) u = (Inr a, t))"
proof (cases "whip_bearer_token auth")
  case None
  then show ?thesis using assms by (auto simp: whip_publish_def text_answer_def)
next
  case (Some token)
  obtain r u where r: "resolve_whip_source L token s = (r, u)" by (cases "resolve_whip_source L token s")
  have u: "ingest_view u = ingest_view s"
    using keeps_run [OF ingest_view_resolve r] .
  show ?thesis
  proof (cases r)
    case (Inl code)
    then show ?thesis using assms Some r u resolve_errors [of L token s code u]
      by (auto simp: whip_publish_def text_answer_def)
  next
    case (Inr i)
    have st: "source_states u i = source_states s i" "guest_peers u i = guest_peers s i" using u by (auto simp: ingest_view_def)
    show ?thesis
    proof (cases "source_states s i = Some Live \<or> source_states s i = Some Connecting")
      case True
      then show ?thesis using assms Some r Inr u st by (auto simp: whip_publish_def text_answer_def)
    next
      case False
      then show ?thesis using assms Some r Inr u st
        by (cases "guest_peers s i") (auto simp: whip_publish_def text_answer_def)
    qed
  qed
qed

lemma guest_whip_cases:
  assumes run: "(guest_whip L token offer :: (app, 'e, http_answer) prog) s = (Inr a, t)"
    and view: "ingest_view s = (gp, mr, sh, ss, ws, sn, pe, np)"
  shows "(answer_status a \<in> {404, 500} \<and> ingest_view t = ingest_view s) \<or>
    (\<exists>i mr'. answer_status a = 201 \<and> mr' i \<noteq> None \<and> (\<forall>j. j \<noteq> i \<longrightarrow> mr' j = mr j) \<and>
      ingest_view t = (gp(i \<mapsto> np), mr', sh, ss, ws, sn, pe(np \<mapsto> (i, Guest)), Suc np)) \<or>
    (\<exists>i mr' pe' np'. answer_status a = 400 \<and> np \<le> np' \<and> (\<forall>n < np. pe' n = pe n) \<and> (\<forall>j. j \<noteq> i \<longrightarrow> mr' j = mr j) \<and>
      ingest_view t = (gp(i := None), mr'(i := None), sh(i := None), ss(i \<mapsto> Disconnected), drop_sessions_of i ws,
        sn(i := None), pe', np'))"
proof -
  let ?open = "\<lambda>i. then_do (ignore (sql_exec (guest_connecting token (show_uuid L i))))
    (andThen (attempt (start_guest_ingest L i offer)) (\<lambda>r. case r of
      Inr answer \<Rightarrow> ok (sdp_created (''/api/v1/guest/'' @ token @ ''/whip'') answer)
    | Inl e \<Rightarrow> then_do (stop_guest_ingest L i) (ok (text_answer 400 (''could not start ingest: '' @ e))))) :: (app, 'e, http_answer) prog"
  have joins: ?thesis if "?open i s1 = (Inr a, t)" "ingest_view s1 = (gp, mr, sh, ss, ws, sn, pe, np)" for i s1
  proof -
    let ?s2 = "snd ((sql_exec (guest_connecting token (show_uuid L i)) :: unit io) s1)"
    have s2: "ingest_view ?s2 = (gp, mr, sh, ss, ws, sn, pe, np)"
      using keepsD [where f = ingest_view, OF ingest_view_calls(1)] that(2) by metis
    obtain q v where q: "start_guest_ingest L i offer ?s2 = (q, v)" by (cases "start_guest_ingest L i offer ?s2")
    note started = wp_start_ingest [OF s2, of L i offer Guest, folded start_guest_ingest_def, unfolded wp_def q case_prod_conv]
    show ?thesis
    proof (cases q)
      case (Inl e)
      obtain x w where w: "(stop_guest_ingest L i :: (app, 'e, unit) prog) v = (Inr x, w)"
          and wv: "ingest_view w = (\<lambda>(gp, mr, sh, ss, ws, sn, p). (gp(i := None), mr(i := None), sh(i := None),
            ss(i \<mapsto> Disconnected), drop_sessions_of i ws, sn(i := None), p)) (ingest_view v)"
        unfolding stop_guest_ingest_def using actsD [OF acts_stop_ingest] by blast
      have "answer_status a = 400" "t = w"
        using that(1) q w by (auto simp: Inl text_answer_def)
      moreover from started obtain mr' pe' np' where "np \<le> np'" "\<forall>n < np. pe' n = pe n" "\<forall>j. j \<noteq> i \<longrightarrow> mr' j = mr j"
          "ingest_view v = (gp, mr', sh, ss, ws, sn, pe', np')"
        unfolding Inl by auto
      ultimately show ?thesis using wv
        by (intro disjI2 exI [of _ i] exI [of _ mr'] exI [of _ pe'] exI [of _ np']) simp
    next
      case (Inr answer)
      have "answer_status a = 201" "t = v" using that(1) q by (auto simp: Inr sdp_created_def)
      then show ?thesis using started unfolding Inr by (auto simp del: not_None_eq)
    qed
  qed
  obtain g s1 where g: "(ok_flatten (sql_read (\<lambda>d. find (\<lambda>r. gr_token r = token) (guests d))) :: (app, 'e, guest_row option) prog) s = (Inr g, s1)"
    by (metis never_fails_def never_fails_wrap(3))
  have s1: "ingest_view s1 = ingest_view s"
    using keeps_run [OF keeps_ok_flatten [OF ingest_view_calls(2)] g] .
  show ?thesis
  proof (cases g)
    case None
    then show ?thesis using run g s1 by (auto simp: guest_whip_def text_answer_def)
  next
    case (Some row)
    define i where "i = new_v4 L (uuids (sys s1))"
    define s2 where "s2 = set_sys (\<lambda>o1. o1\<lparr>uuids := Suc (uuids o1)\<rparr>) s1"
    have s2: "ingest_view s2 = ingest_view s"
      using s1 by (simp add: s2_def ingest_view_def set_sys_def)
    obtain r s3 where r: "insert_source_row L i (gr_name row @ '' (guest)'') (WebRtc token) s2 = (r, s3)"
      by (cases "insert_source_row L i (gr_name row @ '' (guest)'') (WebRtc token) s2")
    have row: "keeps ingest_view (insert_source_row L i (gr_name row @ '' (guest)'') (WebRtc token))"
      unfolding insert_source_row_def by (intro keeps_andThen ingest_view_calls)
    then have s3: "ingest_view s3 = ingest_view s" using keeps_run [OF row r] s2 by simp
    have uuid: "(fresh_uuid L :: (app, 'e, uuid) prog) s1 = (Inr i, s2)"
      by (simp add: fresh_uuid_def i_def s2_def)
    show ?thesis
    proof (cases r)
      case (Inl e)
      then have "(Inr a, t) = (Inr (text_answer 500 ''could not create source'') :: 'e + http_answer, s3)"
        using run g Some uuid r by (simp add: guest_whip_def)
      then show ?thesis using s3 by (auto simp: text_answer_def)
    next
      case (Inr x)
      then have "?open i s3 = (Inr a, t)"
        using run g Some uuid r unfolding guest_whip_def by simp
      then show ?thesis using joins s3 view by simp
    qed
  qed
qed

lemma stop_ingest_effect:
  assumes "(stop_ingest L i kind :: (app, 'e, unit) prog) s = (r, t)"
  shows "r = Inr ()" "guest_peers t = (guest_peers s)(i := None)" "media_relays t = (media_relays s)(i := None)"
    "sequence_headers t = (sequence_headers s)(i := None)" "source_states t = (source_states s)(i \<mapsto> Disconnected)"
    "whip_sessions t = drop_sessions_of i (whip_sessions s)" "source_normalizers t = (source_normalizers s)(i := None)"
    "peers (sys t) = peers (sys s)" "next_peer (sys t) = next_peer (sys s)"
  using actsD [OF acts_stop_ingest [where 'e = 'e, of i L kind], of s] assms by (auto simp: ingest_view_def)

text \<open>An encoder is registered only for a source with a peer.\<close>

lemma start_ffmpeg_effect:
  assumes "start_ffmpeg L i video_port audio_port v tx kind s = (r, t)"
  shows "guest_peers t = guest_peers s" "whip_sessions t = whip_sessions s"
    "source_normalizers t = source_normalizers s \<and> (\<exists>e. r = Inl e) \<or>
      guest_peers s i \<noteq> None \<and> r = Inr () \<and> (\<exists>c. source_normalizers t = (source_normalizers s)(i \<mapsto> c))"
proof -
  let ?w = "\<lambda>s. (guest_peers s, whip_sessions s, source_normalizers s)"
  let ?Q = "\<lambda>_ t. guest_peers t = guest_peers s \<and> whip_sessions t = whip_sessions s \<and>
    guest_peers s i \<noteq> None \<and> (\<exists>c. source_normalizers t = (source_normalizers s)(i \<mapsto> c))"
  let ?E = "\<lambda>_ t. ?w t = ?w s"
  have step: "wp (andThen m k) ?Q ?E u" if "keeps ?w m" "?w u = ?w s" "\<And>a v. ?w v = ?w s \<Longrightarrow> wp (k a) ?Q ?E v"
    for m :: "'x io" and k u
  proof (rule wp_seq [where R = "\<lambda>_ v. ?w v = ?w s"])
    have "?w (snd (m u)) = ?w s" using keepsD [OF that(1)] that(2) by metis
    then show "wp m (\<lambda>_ v. ?w v = ?w s) ?E u" by (auto simp: wp_def split: prod.splits sum.splits)
  qed (rule that(3))
  have frame: "frame ?w" by (simp add: frame_def)
  have registers: "\<exists>t. then_do (reg_replace Normalizers i c) (then_do (announce i Connecting)
      (spawn_task (TReadIngest i tx kind))) u = (Inr () :: string + unit, t) \<and> guest_peers t = guest_peers u \<and>
      whip_sessions t = whip_sessions u \<and> source_normalizers t = (source_normalizers u)(i \<mapsto> c)" for c and u :: app
    by (cases "source_normalizers u i") (simp_all add: reg_replace_def reg_stop_def reg_take_def kill_opt_def kill_def
      announce_def ws_send_def spawn_task_def set_source_state_def set_sys_def)
  have registered: "wp (andThen (gets (\<lambda>s. guest_peers s i)) (\<lambda>peer.
      if peer = None then then_do (kill c) (throw ''peer torn down before ffmpeg start'')
      else then_do (reg_replace Normalizers i c)
          (then_do (announce i Connecting) (spawn_task (TReadIngest i tx kind))))) ?Q ?E u"
    if "?w u = ?w s" for c and u :: app
    using that registers [of c u] by (cases "guest_peers u i") (auto simp: wp_def kill_def set_sys_def intro!: exI [of _ c])
  note calm = step [OF keeps_load_output_config [OF frame]] step [OF keeps_pure(3)] step [OF keeps_wrap(1) [OF keeps_os(6) [OF frame]]]
    step [OF keeps_wrap(3) [OF keeps_os(4) [OF frame]]] step [OF keeps_wrap(3) [OF keeps_os(9) [OF frame]]]
  have "wp (start_ffmpeg L i video_port audio_port v tx kind) ?Q ?E s"
    unfolding start_ffmpeg_def
    by (rule calm(1), rule refl, rule calm(2), assumption, rule calm(3), assumption, rule calm(4), assumption,
        rule calm(5), assumption, erule registered)
  from this assms show "guest_peers t = guest_peers s" "whip_sessions t = whip_sessions s"
    "source_normalizers t = source_normalizers s \<and> (\<exists>e. r = Inl e) \<or>
      guest_peers s i \<noteq> None \<and> r = Inr () \<and> (\<exists>c. source_normalizers t = (source_normalizers s)(i \<mapsto> c))"
    by (auto simp: wp_def split: sum.splits)
qed

section \<open>The contract: who publishes\<close>

text \<open>What the ingests promise, without peers, encoders or tables: a set of sources
  with a publisher and the open WHIP sessions, each with its source. A publication
  needs a free source and replaces the sessions of it; a guest joins; the end of
  an ingest takes its sessions along.\<close>

record publications =
  publishing :: "uuid set"
  open_sessions :: "(uuid \<times> uuid) set"

inductive pub_step :: "publications \<Rightarrow> publications \<Rightarrow> bool" where
  Published: "i \<notin> publishing p \<Longrightarrow>
    pub_step p \<lparr>publishing = insert i (publishing p),
      open_sessions = insert (k, i) {x \<in> open_sessions p. fst x \<noteq> k \<and> snd x \<noteq> i}\<rparr>"
| Joined: "pub_step p (p\<lparr>publishing := insert i (publishing p)\<rparr>)"
| Ended: "pub_step p \<lparr>publishing = publishing p - {i}, open_sessions = {x \<in> open_sessions p. snd x \<noteq> i}\<rparr>"

definition one_session_each :: "publications \<Rightarrow> bool" where
  "one_session_each p \<longleftrightarrow> inj_on snd (open_sessions p) \<and> snd ` open_sessions p \<subseteq> publishing p"

lemma pub_step_session: "pub_step p r \<Longrightarrow> one_session_each p \<Longrightarrow> one_session_each r"
  by (induction rule: pub_step.induct) (auto simp: one_session_each_def inj_on_def)

lemma pub_steps_session: "pub_step\<^sup>*\<^sup>* p r \<Longrightarrow> one_session_each p \<Longrightarrow> one_session_each r"
  by (induction rule: rtranclp_induct) (auto intro: pub_step_session)

text \<open>The abstraction of a state, and every step the ingests make: the requests, the
  tracks of a connection, its callback, the watchdog, the deletion of a source. The
  rest of the server may do anything that leaves the peers and the sessions to the
  ingests and starts no encoder for their sources \<open>W\<close>.\<close>

definition publications_of :: "app \<Rightarrow> publications" where
  "publications_of s = \<lparr>publishing = dom (guest_peers s),
     open_sessions = {(k, i). whip_sessions s k = Some i}\<rparr>"

inductive ingest_step :: "lib \<Rightarrow> uuid set \<Rightarrow> app \<Rightarrow> app \<Rightarrow> bool" for L W where
  Whip: "(whip_publish L auth offer :: (app, unit, http_answer) prog) s = (Inr a, t) \<Longrightarrow> ingest_step L W s t"
| Teardown: "(whip_teardown L session :: (app, unit, http_answer) prog) s = (Inr a, t) \<Longrightarrow> ingest_step L W s t"
| GuestJoins: "(guest_whip L token offer :: (app, unit, http_answer) prog) s = (Inr a, t) \<Longrightarrow> ingest_step L W s t"
| Track: "(on_video_track L i vp ap tx kind mime b :: (app, unit, bool) prog) s = (Inr fwd, t) \<Longrightarrow> ingest_step L W s t"
| PeerState: "(on_peer_state L pc st :: (app, unit, unit) prog) s = (Inr (), t) \<Longrightarrow> ingest_step L W s t"
| Watchdog: "(ingest_watchdog L i kind :: (app, unit, unit) prog) s = (Inr (), t) \<Longrightarrow> ingest_step L W s t"
| SourceDeleted: "(stop_guest_ingest L i :: (app, unit, unit) prog) s = (Inr (), t) \<Longrightarrow> ingest_step L W s t"
| Elsewhere: "guest_peers t = guest_peers s \<Longrightarrow> whip_sessions t = whip_sessions s \<Longrightarrow>
    (\<And>i. i \<in> W \<Longrightarrow> source_normalizers s i = None \<Longrightarrow> source_normalizers t i = None) \<Longrightarrow> ingest_step L W s t"

text \<open>What a step does to the peers, the sessions and the encoders.\<close>

inductive core_step :: "uuid set \<Rightarrow> app \<Rightarrow> app \<Rightarrow> bool" for W where
  Idle: "guest_peers t = guest_peers s \<Longrightarrow> whip_sessions t = whip_sessions s \<Longrightarrow>
    (\<And>i. i \<in> W \<Longrightarrow> source_normalizers t i \<noteq> None \<Longrightarrow> source_normalizers s i \<noteq> None \<or> guest_peers s i \<noteq> None) \<Longrightarrow>
    core_step W s t"
| Opens: "guest_peers s i = None \<Longrightarrow> guest_peers t = (guest_peers s)(i \<mapsto> pc) \<Longrightarrow>
    whip_sessions t = (drop_sessions_of i (whip_sessions s))(k \<mapsto> i) \<Longrightarrow>
    source_normalizers t = source_normalizers s \<Longrightarrow> core_step W s t"
| Joins: "guest_peers t = (guest_peers s)(i \<mapsto> pc) \<Longrightarrow> whip_sessions t = whip_sessions s \<Longrightarrow>
    source_normalizers t = source_normalizers s \<Longrightarrow> core_step W s t"
| Stops: "guest_peers t = (guest_peers s)(i := None) \<Longrightarrow> whip_sessions t = drop_sessions_of i (whip_sessions s) \<Longrightarrow>
    (\<And>j. j \<noteq> i \<Longrightarrow> j \<in> W \<Longrightarrow> source_normalizers t j \<noteq> None \<Longrightarrow> source_normalizers s j \<noteq> None \<or> guest_peers s j \<noteq> None) \<Longrightarrow>
    source_normalizers t i = None \<Longrightarrow> core_step W s t"

lemma core_step_pub: "core_step W s t \<Longrightarrow> pub_step\<^sup>*\<^sup>* (publications_of s) (publications_of t)"
proof (induction rule: core_step.induct)
  case (Opens s i t pc k)
  have "publications_of t = \<lparr>publishing = insert i (publishing (publications_of s)),
      open_sessions = insert (k, i) {x \<in> open_sessions (publications_of s). fst x \<noteq> k \<and> snd x \<noteq> i}\<rparr>"
    using Opens by (auto simp: publications_of_def drop_sessions_of_def split: if_splits)
  then show ?case using pub_step.Published [of i "publications_of s" k] Opens(1)
    by (simp add: publications_of_def domIff r_into_rtranclp)
next
  case (Joins t s i pc)
  have "publications_of t = (publications_of s)\<lparr>publishing := insert i (publishing (publications_of s))\<rparr>"
    using Joins by (auto simp: publications_of_def)
  then show ?case by (simp add: pub_step.Joined r_into_rtranclp)
next
  case (Stops t s i)
  have "publications_of t = \<lparr>publishing = publishing (publications_of s) - {i},
      open_sessions = {x \<in> open_sessions (publications_of s). snd x \<noteq> i}\<rparr>"
    using Stops(1,2) by (auto simp: publications_of_def drop_sessions_of_def split: if_splits)
  then show ?case by (simp add: pub_step.Ended r_into_rtranclp)
qed (simp add: publications_of_def)

definition encoders_attended :: "uuid set \<Rightarrow> app \<Rightarrow> bool" where
  "encoders_attended W s \<longleftrightarrow> (\<forall>i \<in> W. source_normalizers s i \<noteq> None \<longrightarrow> guest_peers s i \<noteq> None)"

lemma core_step_attended: "core_step W s t \<Longrightarrow> encoders_attended W s \<Longrightarrow> encoders_attended W t"
  by (induction rule: core_step.induct) (auto simp: encoders_attended_def split: if_splits)

lemma core_same: "ingest_view t = ingest_view s \<Longrightarrow> core_step W s t"
  by (rule core_step.Idle) (auto simp: ingest_view_def)

lemma core_stop:
  assumes "(stop_ingest L i kind :: (app, 'e, unit) prog) s = (r, t)"
  shows "core_step W s t"
  by (rule core_step.Stops [where i = i]) (use stop_ingest_effect [OF assms] in auto)

lemma whip_publish_core:
  assumes "(whip_publish L auth offer :: (app, 'e, http_answer) prog) s = (Inr a, t)"
  shows "core_step W s t"
proof -
  obtain gp mr sh ss ws sn pe np where view: "ingest_view s = (gp, mr, sh, ss, ws, sn, pe, np)"
    by (rule that [OF ingest_view_def])
  from whip_publish_cases [OF assms] consider "ingest_view t = ingest_view s"
    | i u where "ingest_view u = ingest_view s" "guest_peers s i = None"
        "(whip_open L i offer :: (app, 'e, http_answer) prog) u = (Inr a, t)"
    by blast
  then show ?thesis
  proof cases
    case 2
    then have "ingest_view u = (gp, mr, sh, ss, ws, sn, pe, np)" using view by simp
    from whip_open_cases [OF this 2(3)] consider
        k mr' where "ingest_view t = (gp(i \<mapsto> np), mr', sh, ss, (drop_sessions_of i ws)(k \<mapsto> i), sn, pe(np \<mapsto> (i, Persistent)), Suc np)"
      | mr' pe' np' where "ingest_view t = (gp(i := None), mr'(i := None), sh(i := None), ss(i \<mapsto> Disconnected),
          drop_sessions_of i ws, sn(i := None), pe', np')"
      by blast
    then show ?thesis
    proof cases
      case 1
      then show ?thesis using view 2(2) by (intro core_step.Opens [where i = i and pc = np and k = k]) (auto simp: ingest_view_def)
    next
      case (2 mr' pe' np')
      then show ?thesis using view by (intro core_step.Stops [where i = i]) (auto simp: ingest_view_def)
    qed
  qed (rule core_same)
qed

lemma guest_whip_core:
  assumes "(guest_whip L token offer :: (app, 'e, http_answer) prog) s = (Inr a, t)"
  shows "core_step W s t"
proof -
  obtain gp mr sh ss ws sn pe np where view: "ingest_view s = (gp, mr, sh, ss, ws, sn, pe, np)"
    by (rule that [OF ingest_view_def])
  from guest_whip_cases [OF assms view] consider "ingest_view t = ingest_view s"
    | i mr' where "ingest_view t = (gp(i \<mapsto> np), mr', sh, ss, ws, sn, pe(np \<mapsto> (i, Guest)), Suc np)"
    | i mr' pe' np' where "ingest_view t = (gp(i := None), mr'(i := None), sh(i := None), ss(i \<mapsto> Disconnected),
          drop_sessions_of i ws, sn(i := None), pe', np')"
    by blast
  then show ?thesis
  proof cases
    case (2 i mr')
    then show ?thesis using view by (intro core_step.Joins [where i = i and pc = np]) (auto simp: ingest_view_def)
  next
    case (3 i mr' pe' np')
    then show ?thesis using view by (intro core_step.Stops [where i = i]) (auto simp: ingest_view_def)
  qed (rule core_same)
qed

lemma teardown_core:
  assumes "(whip_teardown L session :: (app, 'e, http_answer) prog) s = (Inr a, t)"
  shows "core_step W s t"
proof (cases "parse_uuid L session")
  case None
  then show ?thesis using assms by (auto simp: whip_teardown_def intro: core_same)
next
  case (Some k)
  let ?s = "set_whip_sessions ((whip_sessions s)(k := None)) s"
  show ?thesis
  proof (cases "whip_sessions s k")
    case None
    then have "(whip_sessions s)(k := None) = whip_sessions s" by auto
    then have "t = s" using assms Some None by (simp add: whip_teardown_def) (simp add: set_whip_sessions_def)
    then show ?thesis by (simp add: core_same)
  next
    case source: (Some i)
    obtain r u where u: "(stop_ingest L i Persistent :: (app, 'e, unit) prog) ?s = (r, u)"
      by (cases "(stop_ingest L i Persistent :: (app, 'e, unit) prog) ?s")
    note effect = stop_ingest_effect [OF u]
    have "t = u" using assms Some source u effect(1) by (simp add: whip_teardown_def)
    moreover have "drop_sessions_of i ((whip_sessions s)(k := None)) = drop_sessions_of i (whip_sessions s)"
      using source by (auto simp: drop_sessions_of_def)
    ultimately show ?thesis using effect
      by (intro core_step.Stops [where i = i]) (auto simp: set_whip_sessions_def)
  qed
qed

lemma track_core:
  assumes "(on_video_track L i vp ap tx kind mime b :: (app, 'e, bool) prog) s = (Inr fwd, t)"
  shows "core_step W s t \<or> (\<exists>u. core_step W s u \<and> core_step W u t)"
proof (cases b)
  case True
  then show ?thesis using assms by (auto simp: on_video_track_def intro: core_same)
next
  case False
  obtain r u where r: "start_ffmpeg L i vp ap (codec_from_mime mime) tx kind s = (r, u)"
    by (cases "start_ffmpeg L i vp ap (codec_from_mime mime) tx kind s")
  have u: "core_step W s u"
    by (rule core_step.Idle) (use start_ffmpeg_effect [OF r] in \<open>auto split: if_splits\<close>)
  show ?thesis
  proof (cases r)
    case (Inl e)
    obtain x v where v: "(stop_ingest L i kind :: (app, 'e, unit) prog) u = (Inr x, v)"
      using stop_ingest_effect(1) by (metis surj_pair)
    then have "t = v" using assms r False Inl by (simp add: on_video_track_def)
    then show ?thesis using u core_stop [OF v] by blast
  next
    case (Inr x)
    then have "t = u" using assms r False by (simp add: on_video_track_def)
    then show ?thesis using u by blast
  qed
qed

lemma ingest_core: "ingest_step L W s t \<Longrightarrow> (core_step W)\<^sup>*\<^sup>* s t"
proof (induction rule: ingest_step.induct)
  case (Track i vp ap tx kind mime b s fwd t)
  then show ?case using track_core [OF Track] by (meson r_into_rtranclp rtranclp.rtrancl_into_rtrancl)
next
  case (PeerState pc st s t)
  show ?case
  proof (cases "peers (sys s) pc")
    case None
    then show ?thesis using PeerState by (auto simp: on_peer_state_def)
  next
    case (Some c)
    obtain i kind where c: "c = (i, kind)" by (cases c)
    show ?thesis
    proof (cases "st \<in> {PeerFailed, PeerDisconnected, PeerClosed}")
      case True
      then have "(stop_ingest L i kind :: (app, unit, unit) prog) s = (Inr (), t)"
        using PeerState Some c by (auto simp: on_peer_state_def)
      then show ?thesis using core_stop by blast
    next
      case False
      then show ?thesis using PeerState Some c by (auto simp: on_peer_state_def)
    qed
  qed
next
  case (Watchdog i kind s t)
  then show ?case by (auto simp: ingest_watchdog_def split: if_splits intro: core_stop)
next
  case (SourceDeleted i s t)
  then show ?case unfolding stop_guest_ingest_def using core_stop by blast
next
  case (Elsewhere t s)
  then show ?case by (intro r_into_rtranclp core_step.Idle) auto
qed (blast intro: whip_publish_core teardown_core guest_whip_core)+

lemma ingest_cores: "(ingest_step L W)\<^sup>*\<^sup>* s t \<Longrightarrow> (core_step W)\<^sup>*\<^sup>* s t"
  by (induction rule: rtranclp_induct) (auto intro: ingest_core rtranclp_trans)

text \<open>C6: The ingests implement the contract: whatever requests, tracks, callbacks,
  watchdogs and failing calls a run is made of, its publishers and sessions
  change only as the contract allows; so a source has at most one open session,
  and only while it has a publisher.\<close>
theorem ingests_refine_publications:
  assumes "(ingest_step L W)\<^sup>*\<^sup>* s t" "one_session_each (publications_of s)"
  shows "pub_step\<^sup>*\<^sup>* (publications_of s) (publications_of t) \<and> one_session_each (publications_of t)"
proof -
  have "(core_step W)\<^sup>*\<^sup>* s t" using assms(1) by (rule ingest_cores)
  then have "pub_step\<^sup>*\<^sup>* (publications_of s) (publications_of t)"
    by (induction rule: rtranclp_induct) (auto intro: core_step_pub rtranclp_trans)
  then show ?thesis using pub_steps_session assms(2) by blast
qed

text \<open>C7: In every run, whatever calls fail and in whatever order tracks arrive and
  connections drop, an encoder of an ingest is there only while its source has a
  publisher.\<close>
theorem ingest_encoders_attended:
  assumes "(ingest_step L W)\<^sup>*\<^sup>* s t" "encoders_attended W s"
  shows "encoders_attended W t"
proof -
  have "(core_step W)\<^sup>*\<^sup>* s t" using assms(1) by (rule ingest_cores)
  then show ?thesis using assms(2) by (induction rule: rtranclp_induct) (auto intro: core_step_attended)
qed

section \<open>Publishing with and without failing calls\<close>

text \<open>C8: A publication is answered 201 only to the token of a source that is no guest's
  and has no publisher; then the source has a peer, a relay and the session of
  the answer.\<close>
theorem whip_takes_its_token:
  assumes "(whip_publish L auth offer :: (app, 'e, http_answer) prog) s = (Inr a, t)" "answer_status a = 201"
  shows "\<exists>token i r k. whip_bearer_token auth = Some token \<and> r \<in> set (sources (db s)) \<and>
    parse_uuid L (sr_id r) = Some i \<and> kind_of_json L (sr_kind r) = Some (WebRtc token) \<and>
    (\<forall>g \<in> set (guests (db s)). gr_source_id g \<noteq> Some (sr_id r)) \<and>
    guest_peers s i = None \<and> source_states s i \<notin> {Some Live, Some Connecting} \<and>
    guest_peers t = (guest_peers s)(i \<mapsto> next_peer (sys s)) \<and> media_relays t i \<noteq> None \<and>
    whip_sessions t k = Some i \<and>
    a = sdp_created (''/api/v1/whip/'' @ show_uuid L k) (sdp_answer L offer)"
proof -
  obtain gp mr sh ss ws sn pe np where view: "ingest_view s = (gp, mr, sh, ss, ws, sn, pe, np)"
    by (rule that [OF ingest_view_def])
  from whip_publish_cases [OF assms(1)] assms(2) obtain token i u where token: "whip_bearer_token auth = Some token"
      and resolve: "resolve_whip_source L token s = (Inr i, u)" and u: "ingest_view u = ingest_view s"
      and free: "source_states s i \<notin> {Some Live, Some Connecting}" "guest_peers s i = None"
      and opens: "(whip_open L i offer :: (app, 'e, http_answer) prog) u = (Inr a, t)"
    by auto
  from whip_open_cases [OF _ opens] u view assms(2) obtain k mr' where
      "a = sdp_created (''/api/v1/whip/'' @ show_uuid L k) (sdp_answer L offer)" "mr' i \<noteq> None"
      "ingest_view t = (gp(i \<mapsto> np), mr', sh, ss, (drop_sessions_of i ws)(k \<mapsto> i), sn, pe(np \<mapsto> (i, Persistent)), Suc np)"
    by fastforce
  then have "guest_peers t = (guest_peers s)(i \<mapsto> next_peer (sys s)) \<and> media_relays t i \<noteq> None \<and> whip_sessions t k = Some i \<and>
      a = sdp_created (''/api/v1/whip/'' @ show_uuid L k) (sdp_answer L offer)"
    using view by (auto simp: ingest_view_def)
  then show ?thesis using token resolve_Inr [OF resolve] free by blast
qed

text \<open>What a publication leaves for the next one.\<close>

lemma whip_publish_201:
  assumes "(whip_publish L auth offer :: (app, 'e, http_answer) prog) s = (Inr a, t)" "answer_status a = 201"
  shows "\<exists>i k. guest_peers s i = None \<and> guest_peers t = (guest_peers s)(i \<mapsto> next_peer (sys s)) \<and>
    peers (sys t) = (peers (sys s))(next_peer (sys s) \<mapsto> (i, Persistent)) \<and> next_peer (sys t) = Suc (next_peer (sys s)) \<and>
    source_states t = source_states s \<and> whip_sessions t = (drop_sessions_of i (whip_sessions s))(k \<mapsto> i)"
proof -
  obtain gp mr sh ss ws sn pe np where view: "ingest_view s = (gp, mr, sh, ss, ws, sn, pe, np)"
    by (rule that [OF ingest_view_def])
  from whip_publish_cases [OF assms(1)] assms(2) obtain i u where u: "ingest_view u = ingest_view s"
      and free: "guest_peers s i = None"
      and opens: "(whip_open L i offer :: (app, 'e, http_answer) prog) u = (Inr a, t)"
    by auto
  from whip_open_cases [OF _ opens] u view assms(2) obtain k mr' where
      "ingest_view t = (gp(i \<mapsto> np), mr', sh, ss, (drop_sessions_of i ws)(k \<mapsto> i), sn, pe(np \<mapsto> (i, Persistent)), Suc np)"
    by fastforce
  then show ?thesis using view free by (intro exI [of _ i] exI [of _ k]) (auto simp: ingest_view_def)
qed

lemma stop_ingest_closes:
  assumes "guest_peers s i = Some pc" "(stop_ingest L i kind :: (app, 'e, unit) prog) s = (r, t)"
  shows "TClosePeer pc \<in> set (tasks (sys t))"
proof -
  have peer: "guest_peers (snd ((reg_stop Normalizers i :: (app, 'e, unit) prog) s)) i = Some pc"
    using assms(1) by (simp add: snd_reg_stop set_running_def set_sys_def split: option.split)
  have closes: "wp (case Some pc of None \<Rightarrow> ok () | Some pc \<Rightarrow> spawn_task (TClosePeer pc))
      (\<lambda>_ t. TClosePeer pc \<in> set (tasks (sys t))) (\<lambda>_ _. True) u" for u :: app
    by (simp add: spawn_task_def wp_simps set_sys_def)
  have "wp (stop_ingest L i kind :: (app, 'e, unit) prog) (\<lambda>_ t. TClosePeer pc \<in> set (tasks (sys t))) (\<lambda>_ _. True) s"
    unfolding stop_ingest_def
  proof (rule wp_seq [where R = "\<lambda>_ u. guest_peers u i = Some pc"])
    have "wp (reg_stop Normalizers i :: (app, 'e, unit) prog) (\<lambda>_ u. guest_peers u i = Some pc) (\<lambda>_ u. guest_peers u i = Some pc) s"
      by (simp add: wp_any peer)
    then show "wp (reg_stop Normalizers i :: (app, 'e, unit) prog) (\<lambda>_ u. guest_peers u i = Some pc) (\<lambda>_ _. True) s"
      by (rule wp_mono) simp_all
  qed (subst wp_andThen, simp only: wp_gets, (rule wp_skip)+, rule closes)
  then show ?thesis
    using assms(2) stop_ingest_effect(1) [OF assms(2)] by (simp add: wp_def)
qed

text \<open>A publisher that ends its session and publishes again is cut off again by what
  the first publication left behind: the closing of its connection is reported to
  the callback, and its watchdog finds the source not live yet; both stop the
  source's ingest, which is the new one by then.\<close>
theorem old_publication_ends_the_new_one:
  assumes "(whip_publish L auth offer :: (app, 'e, http_answer) prog) s = (Inr a, t)" "answer_status a = 201"
    and "guest_peers s i = None" "guest_peers t i = Some pc"
    and "parse_uuid L session = Some k" "whip_sessions t k = Some i"
    and "(whip_teardown L session :: (app, 'e, http_answer) prog) t = (Inr b, u)"
    and "(whip_publish L auth' offer' :: (app, 'e, http_answer) prog) u = (Inr c, v)" "answer_status c = 201"
    and "guest_peers v i \<noteq> None"
  shows "TClosePeer pc \<in> set (tasks (sys u)) \<and>
    (\<exists>w. (on_peer_state L pc PeerClosed :: (app, 'e, unit) prog) v = (Inr (), w) \<and>
      guest_peers w i = None \<and> (\<forall>k. whip_sessions w k \<noteq> Some i)) \<and>
    (\<exists>w. (ingest_watchdog L i Persistent :: (app, 'e, unit) prog) v = (Inr (), w) \<and>
      guest_peers w i = None \<and> (\<forall>k. whip_sessions w k \<noteq> Some i))"
proof -
  have stops: "\<exists>w. (stop_ingest L i kind :: (app, 'e, unit) prog) x = (Inr (), w) \<and> guest_peers w i = None \<and>
      (\<forall>k. whip_sessions w k \<noteq> Some i)" for kind x
  proof -
    obtain r w where "(stop_ingest L i kind :: (app, 'e, unit) prog) x = (r, w)" by (metis surj_pair)
    from this stop_ingest_effect [OF this] show ?thesis by (intro exI [of _ w]) (auto simp: drop_sessions_of_def)
  qed
  from whip_publish_201 [OF assms(1,2)] assms(3,4) have pc: "pc = next_peer (sys s)"
      and pe: "peers (sys t) pc = Some (i, Persistent)" and np: "next_peer (sys t) = Suc (next_peer (sys s))"
    by (auto split: if_splits)
  let ?t = "set_whip_sessions ((whip_sessions t)(k := None)) t"
  obtain r w where stop: "(stop_ingest L i Persistent :: (app, 'e, unit) prog) ?t = (r, w)" by (metis surj_pair)
  note effect = stop_ingest_effect [OF stop]
  have u: "u = w" using assms(5-7) stop effect(1) by (simp add: whip_teardown_def)
  have closing: "TClosePeer pc \<in> set (tasks (sys u))"
    using stop_ingest_closes [OF _ stop] assms(4) unfolding u by (simp add: set_whip_sessions_def)
  from whip_publish_201 [OF assms(8,9)] have "peers (sys v) pc = Some (i, Persistent)" "source_states v i = Some Disconnected"
    using effect pe np pc unfolding u by (auto simp: set_whip_sessions_def)
  then have "(on_peer_state L pc PeerClosed :: (app, 'e, unit) prog) v = stop_ingest L i Persistent v"
      "(ingest_watchdog L i Persistent :: (app, 'e, unit) prog) v = stop_ingest L i Persistent v"
    by (simp_all add: on_peer_state_def ingest_watchdog_def andThen_def)
  then show ?thesis
    using closing stops [of Persistent v] by simp
qed

lemma smooth_start_ingest:
  assumes "\<And>servers. ice_error L servers = None"
  shows "smooth (start_ingest L i offer kind)"
proof -
  have peer: "smooth (new_peer_connection L servers)" for servers
    unfolding new_peer_connection_def
    by (rule smooth_fallible) (simp add: assms smooth_def no_faults_def set_sys_def)
  have writes: "smooth (register_callback pc i kind)" "smooth (modify (\<lambda>s. set_peers ((guest_peers s)(i \<mapsto> pc)) s))" for pc
    by (simp_all add: register_callback_def set_peers_def smooth_def no_faults_def set_sys_def)
  have codecs: "smooth (forM (\<lambda>(what, c). map_err (\<lambda>e. what @ e) (fallible (ok ()))) registered_codecs)"
    by (intro smooth_forM smooth_case_prod smooth_wrap smooth_fallible smooth_pure)
  show ?thesis
    unfolding start_ingest_def alloc_ports_def build_peer_def open_ingest_def load_webrtc_config_def
    by (intro smooth_intros codecs peer writes)
qed

lemma keeps_start_ingest:
  assumes "frame f" "\<And>s m. f (set_peers m s) = f s" "\<And>s x n. f (s\<lparr>media_relays := x, next_chan := n\<rparr>) = f s"
  shows "keeps f (start_ingest L i offer kind)"
proof -
  have peer: "keeps f (new_peer_connection L servers)" for servers
    unfolding new_peer_connection_def
    by (rule keeps_fallible [OF assms(1)]) (simp add: keeps_def frame_set_sys [OF assms(1)] split: option.split)
  have relay: "keeps f (get_or_create_media_relay i)"
    by (simp add: keeps_def get_or_create_media_relay_def assms(3) split: option.split)
  have writes: "keeps f (register_callback pc i kind)" "keeps f (modify (\<lambda>s. set_peers ((guest_peers s)(i \<mapsto> pc)) s))" for pc
    by (simp_all add: keeps_def register_callback_def frame_set_sys [OF assms(1)] assms(2))
  show ?thesis
    unfolding start_ingest_def alloc_ports_def build_peer_def open_ingest_def load_webrtc_config_def
    by (intro keeps_core keeps_os keeps_fallible keeps_load_setting peer relay writes assms(1))
qed

text \<open>With no call failing a publication that may happen does happen.\<close>

lemma whip_publish_ok:
  assumes "no_faults s" "\<And>servers. ice_error L servers = None" "whip_bearer_token auth = Some token"
    and "resolve_whip_source L token s = (Inr i, s)"
    and "source_states s i \<notin> {Some Live, Some Connecting}" "guest_peers s i = None"
  shows "\<exists>a t. (whip_publish L auth offer :: (app, 'e, http_answer) prog) s = (Inr a, t) \<and> answer_status a = 201 \<and>
    no_faults t \<and> db t = db s"
proof -
  obtain sdp u where u: "start_ingest L i offer Persistent s = (Inr sdp, u)" "no_faults u"
    using smooth_start_ingest [OF assms(2), of i offer Persistent] assms(1) unfolding smooth_def by blast
  have "keeps db (start_ingest L i offer Persistent)"
    by (rule keeps_start_ingest) (simp_all add: set_peers_def)
  then have "db u = db s" using keeps_run u(1) by metis
  then show ?thesis
    using u assms by (simp add: whip_publish_def whip_open_def fresh_uuid_def sdp_created_def)
      (simp add: set_whip_sessions_def set_sys_def no_faults_def)
qed

section \<open>A guest joins\<close>

definition quiet_db :: "db \<Rightarrow> app \<Rightarrow> bool" where
  "quiet_db d s \<longleftrightarrow> no_faults s \<and> db s = d"

lemma quiet_calls:
  "preserves (quiet_db d) (reg_stop Normalizers i)" "preserves (quiet_db d) (announce i st)"
  "preserves (quiet_db d) (modify (\<lambda>s. set_peers ((guest_peers s)(i := None)) s))"
  "preserves (quiet_db d) (modify (\<lambda>s. set_whip_sessions (drop_sessions_of i (whip_sessions s)) s))"
  "preserves (quiet_db d) (modify (remove_media_relay i))" "preserves (quiet_db d) (modify (forget_headers i))"
  "preserves (quiet_db d) (ignore (remove_file p))" "preserves (quiet_db d) (gets f)"
  "preserves (quiet_db d) (spawn_task tk)"
  by (auto simp: preserves_def quiet_db_def snd_reg_stop set_running_def announce_def ws_send_def set_source_state_def
      set_peers_def set_whip_sessions_def remove_media_relay_def forget_headers_def remove_file_def fallible_def
      drop_fault_none set_sys_def no_faults_def spawn_task_def split: option.split)

lemma stop_persistent_quiet: "preserves (quiet_db d) (stop_ingest L i Persistent)"
  unfolding stop_ingest_def by (rule quiet_calls preserves_intros | simp)+

lemma wp_quiet:
  assumes "preserves P m" "never_fails m" "P s" "\<And>a t. P t \<Longrightarrow> wp (k a) Q E t"
  shows "wp (andThen m k) Q E s"
proof -
  obtain a where "m s = (Inr a, snd (m s))" using never_fails_run [OF assms(2)] by blast
  moreover have "P (snd (m s))" using preservesD assms(1,3) by metis
  ultimately show ?thesis using assms(4) by (simp add: wp_def)
qed

lemma stop_guest_db:
  assumes "no_faults s"
  shows "\<exists>t. (stop_guest_ingest L i :: (app, 'e, unit) prog) s = (Inr (), t) \<and> no_faults t \<and>
    db t = guest_left (show_uuid L i) (delete_source (show_uuid L i) (db s))"
proof -
  let ?d = "delete_source (show_uuid L i) (db s)"
  let ?Q = "\<lambda>_. quiet_db (guest_left (show_uuid L i) ?d)"
  note calm = quiet_calls
  have total: "never_fails (reg_stop Normalizers i :: (app, 'e, unit) prog)"
    "never_fails (announce i st :: (app, 'e, unit) prog)" for st
    by (auto simp: reg_stop_def announce_def intro!: total_intros) (simp add: never_fails_def reg_take_def)
  have close: "wp (case peer of None \<Rightarrow> ok () | Some pc \<Rightarrow> spawn_task (TClosePeer pc)) ?Q (\<lambda>_ _. False) u"
    if "quiet_db (guest_left (show_uuid L i) ?d) u" for peer and u :: app
    using that by (auto simp: wp_simps spawn_task_def quiet_db_def no_faults_def set_sys_def split: option.split)
  have rows: "wp (andThen (if Guest = Guest then then_do (ignore (sql_exec (delete_source (show_uuid L i))))
      (ignore (sql_exec (guest_left (show_uuid L i)))) else ok ()) k) ?Q (\<lambda>_ _. False) u"
    if "quiet_db (db s) u" "\<And>v. quiet_db (guest_left (show_uuid L i) ?d) v \<Longrightarrow> wp (k ()) ?Q (\<lambda>_ _. False) v"
    for u and k :: "unit \<Rightarrow> (app, 'e, unit) prog"
    using that by (simp add: wp_simps quiet_db_def sql_exec_def drop_fault_none)
  have start: "quiet_db (db s) s" using assms by (simp add: quiet_db_def)
  have "wp (stop_guest_ingest L i :: (app, 'e, unit) prog) ?Q (\<lambda>_ _. False) s"
    unfolding stop_guest_ingest_def stop_ingest_def
    by (rule wp_quiet [OF calm(1) total(1)], rule start, rule wp_quiet [OF calm(8) never_fails_pure(2)], assumption,
        rule wp_quiet [OF calm(3) never_fails_pure(3)], assumption, rule wp_quiet [OF calm(5) never_fails_pure(3)], assumption,
        rule wp_quiet [OF calm(6) never_fails_pure(3)], assumption, rule wp_quiet [OF calm(2) total(2)], assumption,
        rule rows, assumption, rule wp_quiet [OF calm(8) never_fails_pure(2)], assumption,
        rule wp_quiet [OF calm(7) never_fails_pure(4)], assumption, rule wp_quiet [OF calm(4) never_fails_pure(3)], assumption,
        erule close)
  then show ?thesis
    by (auto simp: wp_def quiet_db_def split: prod.splits sum.splits)
qed

lemma start_ingest_refused:
  assumes "no_faults s" "\<And>servers. ice_error L servers = Some e"
  shows "\<exists>m t. start_ingest L i offer kind s = (Inl m, t) \<and> no_faults t"
proof -
  have codecs: "smooth (forM (\<lambda>(what, c). map_err (\<lambda>e. what @ e) (fallible (ok ()))) registered_codecs)"
    by (intro smooth_forM smooth_case_prod smooth_wrap smooth_fallible smooth_pure)
  have ports: "smooth alloc_ports" unfolding alloc_ports_def by (intro smooth_intros)
  have settings: "smooth (load_webrtc_config L :: webrtc_config io)" unfolding load_webrtc_config_def by (intro smooth_intros)
  have ice: "smooth (map_err (\<lambda>e. ''interceptors: '' @ e) (fallible (ok ())))" by (intro smooth_intros)
  obtain p s1 where s1: "alloc_ports s = (Inr p, s1)" "no_faults s1" using ports assms(1) unfolding smooth_def by blast
  obtain x s2 where s2: "forM (\<lambda>(what, c). map_err (\<lambda>e. what @ e) (fallible (ok ()))) registered_codecs s1 = (Inr x, s2)" "no_faults s2"
    using codecs s1(2) unfolding smooth_def by blast
  obtain y s3 where s3: "map_err (\<lambda>e. ''interceptors: '' @ e) (fallible (ok ())) s2 = (Inr y, s3)" "no_faults s3"
    using ice s2(2) unfolding smooth_def by blast
  obtain c s4 where s4: "(load_webrtc_config L :: webrtc_config io) s3 = (Inr c, s4)" "no_faults s4"
    using settings s3(2) unfolding smooth_def by blast
  have "map_err (\<lambda>e. ''new peer connection: '' @ e) (new_peer_connection L (map rtc_ice_server c)) s4 =
      (Inl (''new peer connection: '' @ e), s4)"
    using s4(2) assms(2) by (simp add: new_peer_connection_def map_err_def fallible_def drop_fault_none)
  then have "build_peer L s1 = (Inl (''new peer connection: '' @ e), s4)"
    by (simp only: build_peer_def andThen_Inr s2(1) s3(1) s4(1))
  then show ?thesis
    unfolding start_ingest_def using s4(2) by (cases p) (simp add: s1(1))
qed


section \<open>Tokens and LIKE\<close>

lemma sql_like_caseless:
  "to_lowercase a = to_lowercase b \<Longrightarrow> CHR ''%'' \<notin> set a \<Longrightarrow> sql_like ps s \<Longrightarrow> sql_like (a @ ps) (b @ s)"
proof (induction a arbitrary: b)
  case Nil
  then show ?case by (simp add: to_lowercase_def)
next
  case (Cons c a)
  then obtain d b' where "b = d # b'" "lower_char c = lower_char d" "to_lowercase a = to_lowercase b'"
    by (auto simp: to_lowercase_def)
  then show ?case using Cons by (auto simp: sql_like.simps like_eq_def)
qed

text \<open>Of two sources whose tokens differ only in the case of letters, only the
  first in the table can be published to: LIKE finds its row for both tokens, and
  the exact comparison then refuses the other's publisher.\<close>
theorem case_twin_cannot_publish:
  assumes "sources (db s) = r # rs" "whip_bearer_token auth = Some token"
    and "sr_kind r = pre @ [CHR 0x22] @ ''token'' @ [CHR 0x22] @ '':'' @ [CHR 0x22] @ token1 @ [CHR 0x22] @ post"
    and "kind_of_json L (sr_kind r) = Some (WebRtc token1)"
    and "to_lowercase token1 = to_lowercase token" "token1 \<noteq> token" "CHR ''%'' \<notin> set token"
  shows "\<exists>a t. (whip_publish L auth offer :: (app, 'e, http_answer) prog) s = (Inr a, t) \<and>
    answer_status a = 401 \<and> ingest_view t = ingest_view s"
proof -
  let ?q = "[CHR 0x22] @ ''token'' @ [CHR 0x22] @ '':'' @ [CHR 0x22]"
  have "sql_like ((?q @ token @ [CHR 0x22]) @ ''%'') ((?q @ token1 @ [CHR 0x22]) @ post)"
    using assms(5,7) by (intro sql_like_caseless sql_like_percent_all) (auto simp: to_lowercase_def)
  then have "sql_like (''%'' @ (?q @ token @ [CHR 0x22]) @ ''%'') (pre @ (?q @ token1 @ [CHR 0x22]) @ post)"
    using sql_like_percentI by simp
  then have like: "sql_like (token_needle token) (sr_kind r)"
    unfolding token_needle_def assms(3) by simp
  obtain x t where x: "resolve_whip_source L token s = (x, t)" by (metis surj_pair)
  have "x = Inl 401"
  proof (cases x)
    case (Inl code)
    then show ?thesis using resolve_errors x by simp
  next
    case (Inr i)
    obtain row t' where row: "map_err (\<lambda>_. 401) (sql_read (\<lambda>d. find (\<lambda>r. sql_like (token_needle token) (sr_kind r)) (sources d))) s = (Inr row, t')"
        and kind: "\<And>x. row = Some x \<Longrightarrow> kind_of_json L (sr_kind x) = Some (WebRtc token)"
      using x unfolding Inr resolve_whip_source_def Inr_iffs by blast
    have "row = Some r"
      using row like assms(1) by (simp add: sql_read_def fallible_def map_err_def split: option.splits)
    then have "kind_of_json L (sr_kind r) = Some (WebRtc token)" using kind by simp
    then show ?thesis using assms(4,6) by simp
  qed
  moreover have "ingest_view t = ingest_view s" using keeps_run [OF ingest_view_resolve x] .
  ultimately show ?thesis using x assms(2) by (simp add: whip_publish_def text_answer_def)
qed

section \<open>Encoders and packets\<close>

text \<open>The reader publishes the stream of the encoder like the other readers.\<close>

lemma ingest_reader_sends:
  "sent (read_ingest_output L kind i ch out s) ch = sent s ch @
    (if length out < 13 then [] else map (\<lambda>t. snd (snd t)) (read_tags (drop 13 out)))"
proof -
  have rows: "sent (snd ((sql_exec f :: unit io) s)) = sent s \<and> sequence_headers (snd ((sql_exec f :: unit io) s)) = sequence_headers s"
    for f and s :: app
    by (auto simp: sql_exec_def fallible_def drop_fault_def set_sys_def split: option.split)
  have "quiet (\<lambda>s. snd ((ingest_is_live L i kind :: unit io) s))"
    by (simp add: quiet_def ingest_is_live_def announce_def ws_send_def set_source_state_def rows)
  then show ?thesis
    unfolding read_ingest_output_def by (rule sent_read_flv [OF _ quiet_id])
qed

text \<open>Whatever calls fail, starting and stopping an ingest's encoder leaves no
  process that no registry owns.\<close>

lemma start_ffmpeg_no_orphans: "preserves no_orphans (start_ffmpeg L i vp ap v tx kind)"
proof -
  have body: "wp (andThen (gets (\<lambda>s. guest_peers s i)) (\<lambda>peer.
      if peer = None then then_do (kill c) (throw ''peer torn down before ffmpeg start'')
      else then_do (reg_replace Normalizers i c)
          (then_do (announce i Connecting) (spawn_task (TReadIngest i tx kind)))))
      (\<lambda>_. orphans_only {}) (\<lambda>_. orphans_only {}) u" if u: "orphans_only {pid c} u" for c and u :: app
  proof (cases "guest_peers u i")
    case None
    then show ?thesis using wp_kill_two [OF u] by (simp add: wp_andThen wp_gets)
  next
    case (Some pc)
    have "wp (then_do (reg_replace Normalizers i c) (then_do (announce i Connecting) (spawn_task (TReadIngest i tx kind))))
      (\<lambda>_. orphans_only {}) (\<lambda>_. orphans_only {}) u"
      using u by (rule wp_seq [OF wp_reg_replace_orphans]) (rule wp_seq calm_wp calm_intros | assumption)+
    then show ?thesis using Some by (simp add: wp_andThen [of "gets f" for f] wp_gets)
  qed
  show ?thesis
    unfolding no_orphans_only [abs_def] start_ffmpeg_def
    by (rule preserves_wp) (rule body wp_seq map_err_spawn_orphans calm_wp calm_intros | assumption)+
qed

lemma stop_ingest_no_orphans: "preserves (orphans_only P) (stop_ingest L i kind)"
proof -
  have writes: "keeps proc_part (modify (\<lambda>s. set_peers ((guest_peers s)(i := None)) s))"
      "keeps proc_part (modify (\<lambda>s. set_whip_sessions (drop_sessions_of i (whip_sessions s)) s))"
    by (intro calm_modify; auto simp: set_peers_def set_whip_sessions_def intro!: proc_view_eqI)+
  show ?thesis
    unfolding stop_ingest_def by (intro preserves_intros orphans_calm calm_intros writes)
qed

text \<open>The pump forwards each SSRC once and never the SSRC 0.\<close>

lemma pump_poll_new:
  "pump_poll started ts = (fs, started') \<Longrightarrow> set started' = set started \<union> tr_ssrc ` set fs \<and>
    distinct (map tr_ssrc fs) \<and> (\<forall>t \<in> set fs. tr_ssrc t \<noteq> 0 \<and> tr_ssrc t \<notin> set started) \<and> set fs \<subseteq> set ts"
proof (induction started ts arbitrary: fs started' rule: pump_poll.induct)
  case (2 started t ts)
  show ?case
  proof (cases "tr_ssrc t = 0 \<or> tr_ssrc t \<in> set started")
    case True
    then have "pump_poll started ts = (fs, started')" using "2.prems" by simp
    from "2.IH"(1) [OF True this] show ?thesis by auto
  next
    case False
    obtain gs st where gs: "pump_poll (tr_ssrc t # started) ts = (gs, st)" by (metis surj_pair)
    then have "fs = t # gs" "started' = st" using "2.prems" False by simp_all
    moreover note "2.IH"(2) [OF False gs]
    ultimately show ?thesis using False by (auto simp: image_iff)
  qed
qed simp

lemma pump_polls_new:
  "distinct (map tr_ssrc (pump_polls started polls)) \<and>
   (\<forall>t \<in> set (pump_polls started polls). tr_ssrc t \<noteq> 0 \<and> tr_ssrc t \<notin> set started)"
proof (induction polls arbitrary: started)
  case (Cons ts polls)
  obtain fs st where p: "pump_poll started ts = (fs, st)" by (metis surj_pair)
  show ?case using pump_poll_new [OF p] Cons [of st] p by (auto simp: image_iff) metis
qed simp

text \<open>Of the tracks of a connection each is forwarded once: no SSRC twice, the SSRC 0
  not at all.\<close>
theorem each_track_forwarded_once:
  "distinct (map tr_ssrc (pump_tracks polls)) \<and> 0 \<notin> tr_ssrc ` set (pump_tracks polls)"
  using pump_polls_new [of "[]" "take 60 polls"] unfolding pump_tracks_def by force

section \<open>Concrete runs\<close>

definition web_json :: string where
  "web_json = [CHR 0x22] @ ''token'' @ [CHR 0x22] @ '':'' @ [CHR 0x22] @ ''abc'' @ [CHR 0x22]"

definition web_lib :: lib where
  "web_lib = sample_lib\<lparr>kind_of_json := (\<lambda>j. if j = web_json then Some (WebRtc ''abc'') else None)\<rparr>"

definition web_guest :: guest_row where
  "web_guest = \<lparr>gr_id = ''g'', gr_name = ''Ann'', gr_token = ''tok'', gr_created_at = ''I'', gr_status = ''invited'',
     gr_source_id = None\<rparr>"

definition web_state :: app where
  "web_state = sample_state\<lparr>db := empty_db\<lparr>sources := [\<lparr>sr_id = ''1'', sr_name = ''OBS'', sr_kind = web_json,
     sr_created_at = ''I''\<rparr>], guests := [web_guest]\<rparr>\<rparr>"

lemma web_facts:
  "no_faults web_state" "guest_peers web_state = (\<lambda>_. None)" "source_states web_state = (\<lambda>_. None)"
  "whip_sessions web_state = (\<lambda>_. None)" "uuids (sys web_state) = 0"
  "guests (db web_state) = [web_guest]" "source_normalizers web_state = (\<lambda>_. None)"
  "ice_error web_lib servers = None" "kind_of_json web_lib web_json = Some (WebRtc ''abc'')"
  "sources (db web_state) = [\<lparr>sr_id = ''1'', sr_name = ''OBS'', sr_kind = web_json, sr_created_at = ''I''\<rparr>]"
  "parse_uuid web_lib = parse_uuid sample_lib" "show_uuid web_lib = show_uuid sample_lib" "new_v4 web_lib 0 = 1000"
  by (simp_all add: web_state_def sample_state_def initial_state_def idle_os_def no_faults_def web_lib_def sample_lib_def)

lemma web_bearer: "whip_bearer_token (Some ''Bearer abc'') = Some ''abc''" "whip_bearer_token (Some ''Bearer ABC'') = Some ''ABC''"
  by code_simp+

lemma web_resolve:
  assumes "no_faults s" "db s = db web_state"
  shows "resolve_whip_source web_lib ''abc'' s = (Inr 1, s)"
proof -
  have "sql_like (token_needle ''abc'') web_json" by code_simp
  moreover have "parse_uuid web_lib ''1'' = Some 1" by (simp add: web_facts sample_ids)
  ultimately show ?thesis
    using assms(1) by (simp add: resolve_whip_source_def assms(2) web_facts map_err_def sql_read_def fallible_def
      drop_fault_none web_guest_def)
qed

lemma web_publish:
  assumes "no_faults s" "db s = db web_state" "source_states s 1 \<notin> {Some Live, Some Connecting}" "guest_peers s 1 = None"
  shows "\<exists>a t. (whip_publish web_lib (Some ''Bearer abc'') ''offer'' :: (app, unit, http_answer) prog) s = (Inr a, t) \<and>
    answer_status a = 201 \<and> no_faults t \<and> db t = db web_state"
  using whip_publish_ok [where 'e = unit, OF assms(1) web_facts(8) web_bearer(1) web_resolve [OF assms(1,2)] assms(3,4)] assms(2)
  by metis

theorem whip_takes_its_token_witness:
  "\<exists>a t i. (whip_publish web_lib (Some ''Bearer abc'') ''offer'' :: (app, unit, http_answer) prog) web_state = (Inr a, t) \<and>
    answer_status a = 201 \<and> guest_peers t i \<noteq> None \<and> media_relays t i \<noteq> None"
proof -
  obtain a t where t: "(whip_publish web_lib (Some ''Bearer abc'') ''offer'' :: (app, unit, http_answer) prog) web_state = (Inr a, t)"
      "answer_status a = 201"
    using web_publish [of web_state] web_facts by auto
  from whip_takes_its_token [OF t] obtain i where "guest_peers t = (guest_peers web_state)(i \<mapsto> next_peer (sys web_state))"
      "media_relays t i \<noteq> None" by blast
  then show ?thesis using t by (intro exI [of _ a] exI [of _ t] exI [of _ i]) simp
qed

theorem ingests_refine_publications_witness:
  "\<exists>t. (ingest_step web_lib UNIV)\<^sup>*\<^sup>* web_state t \<and> publishing (publications_of web_state) = {} \<and>
    publishing (publications_of t) \<noteq> {} \<and> one_session_each (publications_of t) \<and>
    pub_step\<^sup>*\<^sup>* (publications_of web_state) (publications_of t)"
proof -
  obtain a t where t: "(whip_publish web_lib (Some ''Bearer abc'') ''offer'' :: (app, unit, http_answer) prog) web_state = (Inr a, t)"
      "answer_status a = 201"
    using web_publish [of web_state] web_facts by auto
  have run: "(ingest_step web_lib UNIV)\<^sup>*\<^sup>* web_state t" using ingest_step.Whip [OF t(1)] by blast
  have start: "publishing (publications_of web_state) = {}" "one_session_each (publications_of web_state)"
    by (simp_all add: publications_of_def one_session_each_def web_facts)
  obtain i where "guest_peers t = (guest_peers web_state)(i \<mapsto> next_peer (sys web_state))"
    using whip_publish_201 [OF t] by blast
  then have "i \<in> publishing (publications_of t)" by (simp add: publications_of_def)
  then show ?thesis using run start ingests_refine_publications [OF run start(2)] by blast
qed

theorem ingest_encoders_attended_witness:
  "\<exists>t. (ingest_step web_lib UNIV)\<^sup>*\<^sup>* web_state t \<and> t \<noteq> web_state \<and> encoders_attended UNIV t"
proof -
  obtain a t where t: "(whip_publish web_lib (Some ''Bearer abc'') ''offer'' :: (app, unit, http_answer) prog) web_state = (Inr a, t)"
      "answer_status a = 201"
    using web_publish [of web_state] web_facts by auto
  have run: "(ingest_step web_lib UNIV)\<^sup>*\<^sup>* web_state t" using ingest_step.Whip [OF t(1)] by blast
  have "encoders_attended UNIV web_state" by (simp add: encoders_attended_def web_facts)
  moreover have "t \<noteq> web_state" using whip_publish_201 [OF t] web_facts(2) by (metis fun_upd_same option.distinct(1))
  ultimately show ?thesis using run ingest_encoders_attended [OF run] by blast
qed

theorem case_twin_cannot_publish_witness:
  "\<exists>a t. (whip_publish web_lib (Some ''Bearer ABC'') ''offer'' :: (app, unit, http_answer) prog) web_state = (Inr a, t) \<and>
    answer_status a = 401"
proof -
  have "to_lowercase ''abc'' = to_lowercase ''ABC''" by code_simp
  then show ?thesis
    using case_twin_cannot_publish [where 'e = unit, OF web_facts(10) web_bearer(2), of "''''" "''abc''" "''''" web_lib "''offer''"]
      web_facts(9) by (auto simp: web_json_def)
qed


theorem old_publication_ends_the_new_one_witness:
  "\<exists>u v w pc. TClosePeer pc \<in> set (tasks (sys u)) \<and>
    (\<exists>c. (whip_publish web_lib (Some ''Bearer abc'') ''offer'' :: (app, unit, http_answer) prog) u = (Inr c, v) \<and> answer_status c = 201) \<and>
    (on_peer_state web_lib pc PeerClosed :: (app, unit, unit) prog) v = (Inr (), w) \<and>
    guest_peers v 1 \<noteq> None \<and> guest_peers w 1 = None"
proof -
  let ?p = "whip_publish web_lib (Some ''Bearer abc'') ''offer'' :: (app, unit, http_answer) prog"
  obtain a t where t: "?p web_state = (Inr a, t)" "answer_status a = 201" and t': "no_faults t" "db t = db web_state"
    using web_publish [of web_state] web_facts by auto
  obtain r i k where r: "r \<in> set (sources (db web_state))" "parse_uuid web_lib (sr_id r) = Some i"
      and gp: "guest_peers t = (guest_peers web_state)(i \<mapsto> next_peer (sys web_state))" and ws: "whip_sessions t k = Some i"
    using whip_takes_its_token [OF t] by blast
  have i: "i = 1" using r by (simp add: web_facts sample_ids)
  let ?t = "set_whip_sessions ((whip_sessions t)(k := None)) t"
  obtain u where u: "(stop_ingest web_lib 1 Persistent :: (app, unit, unit) prog) ?t = (Inr (), u)"
    using stop_ingest_effect(1) by (metis surj_pair)
  have "quiet_db (db web_state) ?t" using t' by (simp add: quiet_db_def no_faults_def set_whip_sessions_def)
  then have "quiet_db (db web_state) u" using preservesD [OF stop_persistent_quiet] u by (metis snd_conv)
  then have u': "no_faults u" "db u = db web_state" by (simp_all add: quiet_db_def)
  obtain c v where v: "?p u = (Inr c, v)" "answer_status c = 201"
    using web_publish [OF u'] stop_ingest_effect(2,5) [OF u] by auto
  obtain r' i' where "r' \<in> set (sources (db u))" "parse_uuid web_lib (sr_id r') = Some i'" "guest_peers v i' \<noteq> None"
    using whip_takes_its_token [OF v] by fastforce
  then have gv: "guest_peers v 1 \<noteq> None" by (simp add: web_facts u' sample_ids)
  have down: "(whip_teardown web_lib (show_uuid sample_lib k) :: (app, unit, http_answer) prog) t = (Inr (status_answer 204), u)"
    using u ws by (simp add: whip_teardown_def web_facts sample_uuid i)
  have "parse_uuid web_lib (show_uuid sample_lib k) = Some k" by (simp add: web_facts sample_uuid)
  from old_publication_ends_the_new_one [OF t _ _ this _ down v, of 1] gp ws gv
  obtain w where "TClosePeer (next_peer (sys web_state)) \<in> set (tasks (sys u))" "guest_peers w 1 = None"
      "(on_peer_state web_lib (next_peer (sys web_state)) PeerClosed :: (app, unit, unit) prog) v = (Inr (), w)"
    by (auto simp: web_facts i)
  then show ?thesis using v gv by blast
qed

end
