(* ===== verification/Sources.thy ===== *)
theory Sources
  imports WebRtc
begin

text \<open>
  The tables the operator edits first: sources (\<open>routes/sources.rs\<close>) and
  destinations (\<open>routes/destinations.rs\<close>). A source is a row with the JSON of
  its kind and a state kept in memory; creating one may start its process,
  deleting one ends whatever runs for it.
\<close>

section \<open>routes/sources.rs\<close>

definition into_source :: "lib \<Rightarrow> source_row \<Rightarrow> source" where
  "into_source L r =
    \<lparr>src_id = unwrap_or 0 (parse_uuid L (sr_id r)), src_name = sr_name r,
     src_kind = unwrap_or TestPattern (kind_of_json L (sr_kind r)), src_state = Disconnected\<rparr>"

definition with_runtime_state :: "app \<Rightarrow> source \<Rightarrow> source" where
  "with_runtime_state s src = (case source_states s (src_id src) of
      None \<Rightarrow> src | Some st \<Rightarrow> src\<lparr>src_state := st\<rparr>)"

definition find_source :: "string \<Rightarrow> db \<Rightarrow> source_row option" where
  "find_source i d = find (\<lambda>r. sr_id r = i) (sources d)"

definition media_file_needle :: string where
  "media_file_needle = ''%'' @ [CHR 0x22] @ ''media_file'' @ [CHR 0x22] @ ''%''"

definition list_sources :: "lib \<Rightarrow> source list handler" where
  "list_sources L =
    andThen (q (sql_read (\<lambda>d. filter (\<lambda>r. \<not> sql_like media_file_needle (sr_kind r)) (sources d)))) (\<lambda>rs.
    gets (\<lambda>s. map (\<lambda>r. with_runtime_state s (into_source L r)) rs))"

definition generate_stream_key :: "lib \<Rightarrow> (app, 'e, string) prog" where
  "generate_stream_key L = random_token L 36 20"

definition ensure_stream_key :: "lib \<Rightarrow> source_kind \<Rightarrow> (app, 'e, source_kind) prog" where
  "ensure_stream_key L kind = (case kind of
      Rtmp key \<Rightarrow> if key = [] then andThen (generate_stream_key L) (\<lambda>k. ok (Rtmp k)) else ok kind
    | WebRtc token \<Rightarrow> if token = [] then andThen (generate_stream_key L) (\<lambda>k. ok (WebRtc k)) else ok kind
    | _ \<Rightarrow> ok kind)"

definition with_srt_port :: "lib \<Rightarrow> source_kind \<Rightarrow> (app, 'e, source_kind) prog" where
  "with_srt_port L kind = (case kind of
      Srt port passphrase \<Rightarrow>
        if port = 0 then andThen (assign_srt_port L) (\<lambda>p. ok (Srt p passphrase)) else ok kind
    | _ \<Rightarrow> ok kind)"

text \<open>What a new source starts: the SRT listener at once, the browser in a task.\<close>

definition start_source :: "lib \<Rightarrow> uuid \<Rightarrow> source_kind \<Rightarrow> (app, 'e, unit) prog" where
  "start_source L i kind = (case kind of
      Srt port passphrase \<Rightarrow> ignore (start_srt_listener L i port passphrase)
    | Browser url \<Rightarrow> spawn_task (TStartBrowser i url)
    | _ \<Rightarrow> ok ())"

definition create_source :: "lib \<Rightarrow> string \<Rightarrow> source_kind \<Rightarrow> source handler" where
  "create_source L name body_kind =
    andThen (fresh_uuid L) (\<lambda>i.
    andThen (ensure_stream_key L body_kind) (\<lambda>k.
    andThen (with_srt_port L k) (\<lambda>kind.
    then_do (q (insert_source_row L i name kind))
   (then_do (start_source L i kind)
            (ok \<lparr>src_id = i, src_name = name, src_kind = kind, src_state = Disconnected\<rparr>)))))"

definition get_source :: "lib \<Rightarrow> string \<Rightarrow> source handler" where
  "get_source L i =
    andThen (q (sql_read (find_source i))) (\<lambda>row.
    andThen (need (NotFound (''source '' @ i)) row) (\<lambda>r.
    gets (\<lambda>s. with_runtime_state s (into_source L r))))"

definition update_source :: "lib \<Rightarrow> string \<Rightarrow> string option \<Rightarrow> source_kind option \<Rightarrow> source handler" where
  "update_source L i body_name body_kind =
    andThen (q (sql_read (find_source i))) (\<lambda>row.
    andThen (need (NotFound (''source '' @ i)) row) (\<lambda>existing.
    andThen (case body_kind of
        Some k \<Rightarrow> ensure_stream_key L k
      | None \<Rightarrow> ok (unwrap_or TestPattern (kind_of_json L (sr_kind existing)))) (\<lambda>kind.
    then_do (q (sql_exec (\<lambda>d. d\<lparr>sources := update_where (\<lambda>r. sr_id r = i)
      (\<lambda>r. r\<lparr>sr_name := unwrap_or (sr_name existing) body_name, sr_kind := kind_to_json L kind\<rparr>) (sources d)\<rparr>)))
            (ok \<lparr>src_id = unwrap_or 0 (parse_uuid L (sr_id existing)),
                 src_name = unwrap_or (sr_name existing) body_name,
                 src_kind = kind, src_state = Disconnected\<rparr>))))"

definition remove_source :: "lib \<Rightarrow> string \<Rightarrow> unit handler" where
  "remove_source L i =
    andThen (q (sql_count (\<lambda>d. count_where (\<lambda>r. sr_id r = i) (sources d)) (delete_source i))) (\<lambda>rows.
    then_do (check (rows \<noteq> 0) (NotFound (''source '' @ i)))
            (case parse_uuid L i of
               None \<Rightarrow> ok ()
             | Some uid \<Rightarrow>
                 then_do (stop_srt_listener uid)
                (then_do (stop_media_playback uid)
                (then_do (stop_guest_ingest L uid)
                         (stop_browser_source uid)))))"

text \<open>A source made of an asset of the library; the source an earlier call made is
  answered again, and played if it is not playing. The answer carries its status.\<close>

definition asset_needle :: "string \<Rightarrow> string" where
  "asset_needle i = ''%'' @ [CHR 0x22] @ ''asset_id'' @ [CHR 0x22] @ '':'' @ [CHR 0x22] @ i @ [CHR 0x22] @ ''%''"

definition existing_asset_source :: "lib \<Rightarrow> asset_row \<Rightarrow> string \<Rightarrow> (u16 \<times> source) handler" where
  "existing_asset_source L a existing_id =
    andThen (q (sql_read (find_source existing_id))) (\<lambda>row.
    andThen (need (Database ''no rows returned'') row) (\<lambda>r.
    andThen (gets (\<lambda>s. with_runtime_state s (into_source L r))) (\<lambda>src.
    andThen (gets (\<lambda>s. media_players s (src_id src))) (\<lambda>player.
    then_do (if player = None
             then ignore (start_media_playback (src_id src) (ar_file_path a) (ar_loop_mode a)) else ok ())
            (ok (200, src))))))"

definition new_asset_source :: "lib \<Rightarrow> asset_row \<Rightarrow> string \<Rightarrow> string option \<Rightarrow> (u16 \<times> source) handler" where
  "new_asset_source L a asset_id body_name =
    andThen (fresh_uuid L) (\<lambda>i.
    andThen (need (BadRequest ''invalid asset uuid'') (parse_uuid L asset_id)) (\<lambda>asset_uuid.
    let kind = MediaFile asset_uuid (ar_file_path a) (ar_loop_mode a); name = unwrap_or (ar_name a) body_name in
    then_do (q (insert_source_row L i name kind))
   (then_do (modify (set_source_state i Live))
   (then_do (ignore (start_media_playback i (ar_file_path a) (ar_loop_mode a)))
            (ok (201, \<lparr>src_id = i, src_name = name, src_kind = kind, src_state = Live\<rparr>))))))"

definition create_from_asset :: "lib \<Rightarrow> string \<Rightarrow> string option \<Rightarrow> (u16 \<times> source) handler" where
  "create_from_asset L asset_id body_name =
    andThen (q (sql_read (\<lambda>d. find (\<lambda>a. ar_id a = asset_id) (assets d)))) (\<lambda>row.
    andThen (need (NotFound (''asset '' @ asset_id)) row) (\<lambda>a.
    andThen (q (sql_read (\<lambda>d. map_option sr_id (find (\<lambda>r. sql_like (asset_needle asset_id) (sr_kind r)) (sources d)))))
      (\<lambda>existing. case existing of
        Some existing_id \<Rightarrow> existing_asset_source L a existing_id
      | None \<Rightarrow> new_asset_source L a asset_id body_name)))"

section \<open>routes/destinations.rs\<close>

definition into_destination :: "lib \<Rightarrow> dest_row \<Rightarrow> destination" where
  "into_destination L r =
    \<lparr>dest_id = unwrap_or 0 (parse_uuid L (dr_id r)), dest_name = dr_name r,
     dest_kind = unwrap_or (DRtmp '''' '''') (dest_of_json L (dr_kind r)),
     dest_enabled = (dr_enabled r \<noteq> 0)\<rparr>"

definition list_destinations :: "lib \<Rightarrow> destination list handler" where
  "list_destinations L = andThen (q (sql_read destinations)) (\<lambda>rs. ok (map (into_destination L) rs))"

definition create_destination :: "lib \<Rightarrow> string \<Rightarrow> destination_kind \<Rightarrow> destination handler" where
  "create_destination L name kind =
    andThen (fresh_uuid L) (\<lambda>i.
    then_do (q (sql_try (\<lambda>d. map_option (\<lambda>rs. d\<lparr>destinations := rs\<rparr>)
      (insert_row dr_id \<lparr>dr_id = show_uuid L i, dr_name = name, dr_kind = dest_to_json L kind, dr_enabled = 1\<rparr>
        (destinations d)))))
            (ok \<lparr>dest_id = i, dest_name = name, dest_kind = kind, dest_enabled = True\<rparr>))"

definition update_destination ::
    "lib \<Rightarrow> string \<Rightarrow> string option \<Rightarrow> destination_kind option \<Rightarrow> destination handler" where
  "update_destination L i body_name body_kind =
    andThen (q (sql_read (\<lambda>d. find (\<lambda>r. dr_id r = i) (destinations d)))) (\<lambda>row.
    andThen (need (NotFound (''destination '' @ i)) row) (\<lambda>existing.
    let name = unwrap_or (dr_name existing) body_name;
        kind = unwrap_or (unwrap_or (DRtmp '''' '''') (dest_of_json L (dr_kind existing))) body_kind in
    then_do (q (sql_exec (\<lambda>d. d\<lparr>destinations := update_where (\<lambda>r. dr_id r = i)
      (\<lambda>r. r\<lparr>dr_name := name, dr_kind := dest_to_json L kind\<rparr>) (destinations d)\<rparr>)))
            (ok \<lparr>dest_id = unwrap_or 0 (parse_uuid L (dr_id existing)), dest_name = name, dest_kind = kind,
                 dest_enabled = (dr_enabled existing \<noteq> 0)\<rparr>)))"

definition delete_destination :: "string \<Rightarrow> unit handler" where
  "delete_destination i =
    andThen (q (sql_count (\<lambda>d. count_where (\<lambda>r. dr_id r = i) (destinations d))
      (\<lambda>d. d\<lparr>destinations := delete_where (\<lambda>r. dr_id r = i) (destinations d)\<rparr>))) (\<lambda>rows.
    check (rows \<noteq> 0) (NotFound (''destination '' @ i)))"

definition set_destination_enabled :: "lib \<Rightarrow> string \<Rightarrow> bool \<Rightarrow> unit handler" where
  "set_destination_enabled L i enabled =
    andThen (q (sql_count (\<lambda>d. count_where (\<lambda>r. dr_id r = i) (destinations d))
      (\<lambda>d. d\<lparr>destinations := update_where (\<lambda>r. dr_id r = i)
        (\<lambda>r. r\<lparr>dr_enabled := (if enabled then 1 else 0)\<rparr>) (destinations d)\<rparr>))) (\<lambda>rows.
    then_do (check (rows \<noteq> 0) (NotFound (''destination '' @ i)))
            (ws_send (EvDestinationState (unwrap_or 0 (parse_uuid L i)) (if enabled then ''enabled'' else ''disabled''))))"

definition enable_destination :: "lib \<Rightarrow> string \<Rightarrow> unit handler" where
  "enable_destination L i = set_destination_enabled L i True"

definition disable_destination :: "lib \<Rightarrow> string \<Rightarrow> unit handler" where
  "disable_destination L i = set_destination_enabled L i False"

section \<open>Reading back what was created\<close>

text \<open>What serde promises of the kinds: the JSON of a kind is read back as it.\<close>

definition kind_text :: "lib \<Rightarrow> bool" where
  "kind_text L \<longleftrightarrow> (\<forall>k. kind_of_json L (kind_to_json L k) = Some k)"

lemma length_random_token: "random_token L base n s = (Inr x, t) \<Longrightarrow> length x = n"
  by (auto simp: random_token_def)

lemma ensure_stream_key_Inr:
  assumes "(ensure_stream_key L kind :: (app, 'e, source_kind) prog) s = (Inr k, t)"
  shows "k \<noteq> Rtmp [] \<and> k \<noteq> WebRtc [] \<and> db t = db s \<and> source_states t = source_states s \<and> proc_view t = proc_view s \<and>
    tasks (sys t) = tasks (sys s) \<and> running (sys t) = running (sys s) \<and>
    (kind \<noteq> Rtmp [] \<and> kind \<noteq> WebRtc [] \<longrightarrow> k = kind) \<and>
    (kind = Rtmp [] \<longrightarrow> (\<exists>key. k = Rtmp key \<and> length key = 20)) \<and>
    (kind = WebRtc [] \<longrightarrow> (\<exists>key. k = WebRtc key \<and> length key = 20))"
proof -
  have key: "(generate_stream_key L :: (app, 'e, string) prog) s = (Inr x, u) \<Longrightarrow> length x = 20 \<and> db u = db s \<and>
      source_states u = source_states s \<and> proc_view u = proc_view s \<and> tasks (sys u) = tasks (sys s) \<and>
      running (sys u) = running (sys s)" for x u
    by (auto simp: generate_stream_key_def random_token_def) (simp_all add: set_sys_def)
  show ?thesis
    using assms by (cases kind) (auto simp: ensure_stream_key_def Inr_iffs dest: key split: if_splits)
qed

lemma q_insert_source:
  assumes "q (insert_source_row L i name kind) s = (Inr x, t)"
  shows "\<exists>r. sr_id r = show_uuid L i \<and> sr_name r = name \<and> sr_kind r = kind_to_json L kind \<and>
    sr_id r \<notin> sr_id ` set (sources (db s)) \<and> db t = (db s)\<lparr>sources := sources (db s) @ [r]\<rparr>"
proof -
  let ?r = "\<lparr>sr_id = show_uuid L i, sr_name = name, sr_kind = kind_to_json L kind,
    sr_created_at = sql_datetime L (clock (sys s))\<rparr>"
  have "sr_id ?r \<notin> sr_id ` set (sources (db s)) \<and> db t = (db s)\<lparr>sources := sources (db s) @ [?r]\<rparr>"
    using assms by (auto simp: insert_source_row_def now_def map_err_Inr_iff sql_try_def fallible_def insert_row_Some
        split: option.splits)
  then show ?thesis by (intro exI [of _ ?r]) simp
qed

lemma keeps_db_starts: "keeps db (start_srt_listener L i port pw)" "keeps db (start_media_playback i p m)"
proof -
  have relay: "keeps db (get_or_create_media_relay i)"
    by (simp add: keeps_def get_or_create_media_relay_def split: option.split)
  have regs: "keeps db (reg_replace k i c)" for k c
    by (simp add: keeps_def snd_reg_replace set_running_def Let_def split: option.split) (cases k; simp)
  have announce: "keeps db (announce i st)" for st
    by (simp add: keeps_def announce_def ws_send_def set_source_state_def)
  show "keeps db (start_srt_listener L i port pw)" "keeps db (start_media_playback i p m)"
    unfolding start_srt_listener_def start_media_playback_def
    by (intro keeps_core keeps_os keeps_load_output_config relay regs announce; simp)+
qed

lemma keeps_db_start_source: "keeps db (start_source L i kind)"
  unfolding start_source_def
  by (cases kind) (simp_all, (intro keeps_core keeps_os keeps_db_starts; simp)+)


lemma q_read_run: "q (sql_read f) s = (Inr x, t) \<Longrightarrow> t = drop_fault s"
  by (auto simp: map_err_def sql_read_def fallible_def split: option.splits)

lemma q_exec_run: "q (sql_exec f) s = (Inr x, t) \<Longrightarrow> t = (drop_fault s)\<lparr>db := f (db s)\<rparr>"
  by (auto simp: map_err_def sql_exec_def fallible_def split: option.splits)

lemma unmoved_by_db:
  "proc_view (s\<lparr>db := d\<rparr>) = proc_view s" "proc_view (drop_fault s) = proc_view s"
  "source_states (drop_fault s) = source_states s"
proof -
  show "proc_view (s\<lparr>db := d\<rparr>) = proc_view s" by (rule proc_view_eqI; simp)
  show "proc_view (drop_fault s) = proc_view s" by (simp only: drop_fault_def proc_view_set_sys)
  show "source_states (drop_fault s) = source_states s" by (simp add: drop_fault_def set_sys_def)
qed

lemma update_where_kind:
  "(\<forall>r \<in> set (update_where (\<lambda>r. sr_id r = i) (\<lambda>r. r\<lparr>sr_name := n, sr_kind := j\<rparr>) rs). sr_id r = i \<longrightarrow> sr_kind r = j)"
  by (induction rs) (auto simp: update_where_def)

text \<open>An update changes the row and answers the new kind, but what runs for the
  source runs on as it was started: an SRT listener keeps its old port and
  passphrase, a browser its old page. The answer always says disconnected.\<close>
theorem update_leaves_the_process:
  assumes "update_source L i body_name (Some kind) s = (Inr src, t)" "kind \<noteq> Rtmp []" "kind \<noteq> WebRtc []"
  shows "src_kind src = kind \<and> src_state src = Disconnected \<and> proc_view t = proc_view s \<and>
    running (sys t) = running (sys s) \<and> tasks (sys t) = tasks (sys s) \<and> source_states t = source_states s \<and>
    (\<forall>r \<in> set (sources (db t)). sr_id r = i \<longrightarrow> sr_kind r = kind_to_json L kind)"
proof -
  from assms(1) obtain row s1 existing k s2 x where row: "q (sql_read (find_source i)) s = (Inr row, s1)" "row = Some existing"
    and k: "(ensure_stream_key L kind :: source_kind handler) s1 = (Inr k, s2)"
    and up: "q (sql_exec (\<lambda>d. d\<lparr>sources := update_where (\<lambda>r. sr_id r = i)
      (\<lambda>r. r\<lparr>sr_name := unwrap_or (sr_name existing) body_name, sr_kind := kind_to_json L k\<rparr>) (sources d)\<rparr>)) s2 = (Inr x, t)"
    and src: "src = \<lparr>src_id = unwrap_or 0 (parse_uuid L (sr_id existing)),
      src_name = unwrap_or (sr_name existing) body_name, src_kind = k, src_state = Disconnected\<rparr>"
    unfolding update_source_def option.case Inr_iffs by blast
  have s1: "s1 = drop_fault s" using row(1) by (rule q_read_run)
  have t: "t = (drop_fault s2)\<lparr>db := (db s2)\<lparr>sources := update_where (\<lambda>r. sr_id r = i)
      (\<lambda>r. r\<lparr>sr_name := unwrap_or (sr_name existing) body_name, sr_kind := kind_to_json L k\<rparr>) (sources (db s2))\<rparr>\<rparr>"
    using up by (rule q_exec_run)
  note key = ensure_stream_key_Inr [OF k]
  have kind: "k = kind" using key assms(2,3) by blast
  have "proc_view s2 = proc_view s1" using key by blast
  then have "proc_view t = proc_view s" unfolding t unmoved_by_db s1 .
  moreover have "source_states s2 = source_states s1" using key by blast
  then have "source_states t = source_states s" by (simp add: t s1 unmoved_by_db(3))
  moreover have "running (sys s2) = running (sys s1)" "tasks (sys s2) = tasks (sys s1)" using key by blast+
  then have "running (sys t) = running (sys s)" "tasks (sys t) = tasks (sys s)" by (simp_all add: t s1)
  moreover have "\<forall>r \<in> set (sources (db t)). sr_id r = i \<longrightarrow> sr_kind r = kind_to_json L k"
    by (simp add: t update_where_kind)
  ultimately show ?thesis using src kind by simp
qed


section \<open>Deleting a source\<close>

lemma preserves_db_sql:
  "(\<And>d. P d \<Longrightarrow> P (f d)) \<Longrightarrow> preserves (\<lambda>s. P (db s)) (sql_exec f)"
  "(\<And>d. P d \<Longrightarrow> P (f d)) \<Longrightarrow> preserves (\<lambda>s. P (db s)) (sql_count n f)"
  "(\<And>d x. P d \<Longrightarrow> g d = Some x \<Longrightarrow> P x) \<Longrightarrow> preserves (\<lambda>s. P (db s)) (sql_try g)"
  by (auto simp: preserves_def sql_exec_def sql_count_def sql_try_def fallible_def split: option.split)

text \<open>What the four stops of \<open>delete\_source\<close> leave of a source, outside the tables.\<close>

definition source_parts :: "app \<Rightarrow> (uuid \<Rightarrow> child option) \<times> (uuid \<Rightarrow> child option) \<times> (uuid \<Rightarrow> child option)" where
  "source_parts s = (media_players s, srt_listeners s, browser_sources s)"

lemma acts_stops:
  "acts source_parts (\<lambda>(mp, sl, bs). (mp, sl(i := None), bs)) (stop_srt_listener i)"
  "acts source_parts (\<lambda>(mp, sl, bs). (mp(i := None), sl, bs)) (stop_media_playback i)"
  "acts source_parts (\<lambda>(mp, sl, bs). (mp, sl, bs(i := None))) (stop_browser_source i)"
  by (simp_all add: acts_def stop_srt_listener_def stop_media_playback_def stop_browser_source_def reg_stop_def
      reg_take_def andThen_def kill_opt_def kill_def source_parts_def set_sys_def remove_media_relay_def forget_headers_def
      set_source_state_def split: option.split)

lemma acts_ingest_view_stops:
  "acts ingest_view (\<lambda>(gp, mr, sh, p). (gp, mr(i := None), sh(i := None), p)) (stop_srt_listener i)"
  "acts ingest_view (\<lambda>(gp, mr, sh, p). (gp, mr(i := None), sh(i := None), p)) (stop_media_playback i)"
  "acts ingest_view (\<lambda>(gp, mr, sh, ss, ws, sn, p).
     (gp, mr(i := None), sh(i := None), ss(i \<mapsto> Disconnected), ws, sn(i := None), p)) (stop_browser_source i)"
  by (simp_all add: acts_def stop_srt_listener_def stop_media_playback_def stop_browser_source_def reg_stop_def
      reg_take_def andThen_def kill_opt_def kill_def ingest_view_def set_sys_def remove_media_relay_def forget_headers_def
      set_source_state_def split: option.split)

lemma keeps_parts_stop_guest: "keeps source_parts (stop_guest_ingest L i)"
proof -
  have frame: "frame source_parts" by (simp add: frame_def source_parts_def)
  have regs: "keeps source_parts (reg_stop Normalizers i)"
    by (simp add: keeps_def snd_reg_stop source_parts_def set_running_def set_sys_def split: option.split)
  have says: "keeps source_parts (announce i st)" for st
    by (simp add: keeps_def announce_def ws_send_def set_source_state_def source_parts_def)
  have sql: "keeps source_parts (sql_exec f)" for f
    using frame by (rule keeps_sql_write) (simp add: source_parts_def)
  show ?thesis
    unfolding stop_guest_ingest_def stop_ingest_def
    by (intro keeps_core keeps_modify keeps_os regs says sql frame;
        simp add: source_parts_def set_peers_def remove_media_relay_def forget_headers_def set_whip_sessions_def)
qed

definition row_gone :: "string \<Rightarrow> db \<Rightarrow> bool" where
  "row_gone i d \<longleftrightarrow> i \<notin> sr_id ` set (sources d) \<and> i \<notin> lr_source_id ` set (layers d)"

lemma preserves_db_stop_ingest:
  assumes "\<And>k d. P d \<Longrightarrow> P (delete_source k d)" "\<And>k d. P d \<Longrightarrow> P (guest_left k d)"
  shows "preserves (\<lambda>s. P (db s)) (stop_ingest L j kind)"
proof -
  have regs: "keeps db (reg_stop Normalizers j)" by (simp add: keeps_def snd_reg_stop set_running_def split: option.split)
  have says: "keeps db (announce j st)" for st by (simp add: keeps_def announce_def ws_send_def set_source_state_def)
  note frames = keeps_os [where f = db] regs says
  show ?thesis
    unfolding stop_ingest_def
    by (intro preserves_intros preserves_db_sql preserves_modify assms frames [THEN preserves_by_keeps]
        keeps_pure [where f = db, THEN preserves_by_keeps];
        simp add: set_peers_def set_whip_sessions_def remove_media_relay_def forget_headers_def)
qed

lemma row_gone_stops: "preserves (\<lambda>s. row_gone i (db s)) (stop_guest_ingest L j)"
  unfolding stop_guest_ingest_def
  by (rule preserves_db_stop_ingest) (auto simp: row_gone_def delete_source_def delete_where_def guest_left_def)

lemma keeps_db_stops:
  "keeps db (stop_srt_listener i)" "keeps db (stop_media_playback i)" "keeps db (stop_browser_source i)"
  unfolding stop_srt_listener_def stop_media_playback_def stop_browser_source_def
  by (intro keeps_core keeps_modify;
      simp add: keeps_def snd_reg_stop set_running_def remove_media_relay_def forget_headers_def set_source_state_def
        split: option.split)+

text \<open>C12: A deletion that is answered with success has taken the source out of the
  tables with its layers, and whatever fed it is gone, whatever calls fail: no
  player, listener, browser, encoder or peer, no relay, no cached headers.\<close>
theorem deleted_source_is_gone:
  assumes "remove_source L i s = (Inr (), t)" "parse_uuid L i = Some uid"
  shows "i \<in> sr_id ` set (sources (db s)) \<and> row_gone i (db t) \<and> media_players t uid = None \<and>
    srt_listeners t uid = None \<and> browser_sources t uid = None \<and> source_normalizers t uid = None \<and>
    guest_peers t uid = None \<and> media_relays t uid = None \<and> sequence_headers t uid = None \<and>
    source_states t uid = Some Disconnected"
proof -
  let ?stops = "then_do (stop_srt_listener uid) (then_do (stop_media_playback uid)
    (then_do (stop_guest_ingest L uid) (stop_browser_source uid))) :: unit handler"
  from assms(1) obtain n s1 where del: "q (sql_count (\<lambda>d. count_where (\<lambda>r. sr_id r = i) (sources d)) (delete_source i)) s = (Inr n, s1)"
    and n: "n \<noteq> 0" and stops: "?stops s1 = (Inr (), t)"
    unfolding remove_source_def assms(2) option.case Inr_iffs by auto
  note q = q_count_Inr [OF del]
  have "i \<in> sr_id ` set (sources (db s))" using q n by (auto simp: count_where_def filter_empty_conv)
  moreover have "row_gone i (db s1)" using q calculation by (auto simp: row_gone_def delete_source_def delete_where_def)
  moreover have "preserves (\<lambda>s. row_gone i (db s)) ?stops"
    by (intro preserves_andThen row_gone_stops keeps_db_stops [THEN preserves_by_keeps])
  ultimately have tables: "i \<in> sr_id ` set (sources (db s)) \<and> row_gone i (db t)"
    using stops preservesD by (metis snd_conv)
  have "acts source_parts (\<lambda>x. x) (stop_guest_ingest L uid :: unit handler)"
    using keeps_parts_stop_guest acts_stop_ingest unfolding acts_def keeps_def stop_guest_ingest_def by (metis snd_conv)
  note parts = actsD [OF acts_then [OF acts_stops(1) [of uid] acts_then [OF acts_stops(2) [of uid]
    acts_then [OF this acts_stops(3) [of uid]]]], where s = s1]
  have children: "media_players t uid = None \<and> srt_listeners t uid = None \<and> browser_sources t uid = None"
    using parts stops by (auto simp: source_parts_def)
  note guest = acts_stop_ingest [where 'e = mux_error, of uid L Guest, folded stop_guest_ingest_def]
  note view = actsD [OF acts_then [OF acts_ingest_view_stops(1) [of uid] acts_then [OF acts_ingest_view_stops(2) [of uid]
    acts_then [OF guest acts_ingest_view_stops(3) [of uid]]]], where s = s1]
  have "source_normalizers t uid = None \<and> guest_peers t uid = None \<and> media_relays t uid = None \<and>
      sequence_headers t uid = None \<and> source_states t uid = Some Disconnected"
    using view stops by (auto simp: ingest_view_def split: prod.splits)
  with tables children show ?thesis by simp
qed

section \<open>The rows are well typed\<close>

text \<open>Every source row has the text of a UUID for its key and the JSON of a kind:
  what the readers replace by a default does not occur.\<close>

definition sources_typed :: "lib \<Rightarrow> db \<Rightarrow> bool" where
  "sources_typed L d \<longleftrightarrow> (\<forall>r \<in> set (sources d).
     (\<exists>u. parse_uuid L (sr_id r) = Some u \<and> sr_id r = show_uuid L u) \<and> kind_of_json L (sr_kind r) \<noteq> None)"

text \<open>The operations that write the table.\<close>

inductive source_step :: "lib \<Rightarrow> app \<Rightarrow> app \<Rightarrow> bool" for L where
  Create: "create_source L name kind s = (r, t) \<Longrightarrow> source_step L s t"
| Update: "update_source L i body_name body_kind s = (r, t) \<Longrightarrow> source_step L s t"
| Remove: "remove_source L i s = (r, t) \<Longrightarrow> source_step L s t"
| FromAsset: "create_from_asset L asset body s = (r, t) \<Longrightarrow> source_step L s t"
| Join: "(guest_whip L token offer :: (app, unit, http_answer) prog) s = (r, t) \<Longrightarrow> source_step L s t"
| Leave: "(stop_ingest L u kind :: (app, unit, unit) prog) s = (r, t) \<Longrightarrow> source_step L s t"

lemma typed_source_rows:
  assumes "kind_text L" "uuid_text L"
  shows "sources_typed L d \<Longrightarrow> sources_typed L (delete_source i d)"
    "sources_typed L d \<Longrightarrow> sources_typed L (guest_left i d)" "sources_typed L d \<Longrightarrow> sources_typed L (guest_connecting tk i d)"
    "sources_typed L d \<Longrightarrow> sources_typed L (d\<lparr>sources := update_where (\<lambda>r. sr_id r = i)
       (\<lambda>r. r\<lparr>sr_name := n, sr_kind := kind_to_json L k\<rparr>) (sources d)\<rparr>)"
    "preserves (\<lambda>s. sources_typed L (db s)) (insert_source_row L u n k)"
proof -
  show "sources_typed L d \<Longrightarrow> sources_typed L (delete_source i d)"
    "sources_typed L d \<Longrightarrow> sources_typed L (guest_left i d)" "sources_typed L d \<Longrightarrow> sources_typed L (guest_connecting tk i d)"
    by (simp_all add: sources_typed_def delete_source_def delete_where_def guest_left_def guest_connecting_def)
  show "sources_typed L d \<Longrightarrow> sources_typed L (d\<lparr>sources := update_where (\<lambda>r. sr_id r = i)
       (\<lambda>r. r\<lparr>sr_name := n, sr_kind := kind_to_json L k\<rparr>) (sources d)\<rparr>)"
    using assms(1) by (auto simp: sources_typed_def update_where_def kind_text_def)
  show "preserves (\<lambda>s. sources_typed L (db s)) (insert_source_row L u n k)"
    unfolding insert_source_row_def
  proof (rule preserves_andThen)
    show "preserves (\<lambda>s. sources_typed L (db s)) now" by (rule preserves_by_keeps) (simp add: keeps_os)
    fix t
    show "preserves (\<lambda>s. sources_typed L (db s)) (sql_try (\<lambda>d. map_option (\<lambda>rs. d\<lparr>sources := rs\<rparr>)
      (insert_row sr_id \<lparr>sr_id = show_uuid L u, sr_name = n, sr_kind = kind_to_json L k,
        sr_created_at = sql_datetime L t\<rparr> (sources d))))"
      using assms by (intro preserves_db_sql) (auto simp: insert_row_Some sources_typed_def kind_text_def uuid_text_def)
  qed
qed

lemma typed_handlers:
  assumes "kind_text L" "uuid_text L"
  shows "preserves (\<lambda>s. sources_typed L (db s)) (create_source L name kind)"
    "preserves (\<lambda>s. sources_typed L (db s)) (update_source L i body_name body_kind)"
    "preserves (\<lambda>s. sources_typed L (db s)) (remove_source L i)"
    "preserves (\<lambda>s. sources_typed L (db s)) (create_from_asset L asset body)"
    "preserves (\<lambda>s. sources_typed L (db s)) (stop_ingest L u ikind)"
proof -
  note rows = typed_source_rows [OF assms]
  have dbs: "keeps db (ensure_stream_key L k :: source_kind handler)" for k
    unfolding ensure_stream_key_def generate_stream_key_def by (cases k) (simp_all split del: if_split, (intro keeps_core keeps_os; simp)+)
  have port: "keeps db (with_srt_port L k :: source_kind handler)" for k
    unfolding with_srt_port_def assign_srt_port_def by (cases k) (simp_all split del: if_split, (intro keeps_core keeps_sql_read; simp)+)
  have set: "keeps db (modify (set_source_state i Live))" for i by (simp add: keeps_def set_source_state_def)
  note frames = keeps_os [where f = db] dbs port set keeps_db_start_source keeps_db_starts keeps_db_stops keeps_sql_read [where f = db]
    keeps_pure [where f = db]
  show "preserves (\<lambda>s. sources_typed L (db s)) (create_source L name kind)"
    unfolding create_source_def
    by (intro preserves_intros rows frames [THEN preserves_by_keeps]; simp)
  show "preserves (\<lambda>s. sources_typed L (db s)) (update_source L i body_name body_kind)"
    unfolding update_source_def
    by (intro preserves_intros preserves_db_sql rows frames [THEN preserves_by_keeps]; simp)
  have leave: "preserves (\<lambda>s. sources_typed L (db s)) (stop_ingest L v il)" for v il
    by (rule preserves_db_stop_ingest) (simp_all add: rows)
  show "preserves (\<lambda>s. sources_typed L (db s)) (stop_ingest L u ikind)"
    by (rule preserves_db_stop_ingest) (simp_all add: rows)
  show "preserves (\<lambda>s. sources_typed L (db s)) (remove_source L i)"
    unfolding remove_source_def stop_guest_ingest_def
    by (intro preserves_intros preserves_db_sql rows leave frames [THEN preserves_by_keeps]; simp)
  show "preserves (\<lambda>s. sources_typed L (db s)) (create_from_asset L asset body)"
    unfolding create_from_asset_def existing_asset_source_def new_asset_source_def Let_def
    by (intro preserves_intros rows frames [THEN preserves_by_keeps]; simp)
qed

lemma typed_join:
  assumes "kind_text L" "uuid_text L"
  shows "preserves (\<lambda>s. sources_typed L (db s)) (guest_whip L token offer)"
proof -
  note rows = typed_source_rows [OF assms]
  have start: "preserves (\<lambda>s. sources_typed L (db s)) (start_ingest L v x Guest)" for v x
    by (rule preserves_by_keeps [OF keeps_start_ingest]) (simp_all add: set_peers_def)
  have stop: "preserves (\<lambda>s. sources_typed L (db s)) (stop_ingest L v il)" for v il
    by (rule preserves_db_stop_ingest) (simp_all add: rows)
  show ?thesis
    unfolding guest_whip_def start_guest_ingest_def stop_guest_ingest_def
    by (intro preserves_intros preserves_db_sql rows start stop keeps_os [where f = db, THEN preserves_by_keeps]
        keeps_sql_read [where f = db, THEN preserves_by_keeps] keeps_pure [where f = db, THEN preserves_by_keeps]; simp)
qed

lemma run_preserves: "preserves I m \<Longrightarrow> m s = (r, t) \<Longrightarrow> I s \<Longrightarrow> I t"
  by (metis preservesD snd_conv)

text \<open>C11: No operation on the sources, successful or not, breaks the types of the rows:
  the defaults that stand for an unreadable id or kind are never answered.\<close>
theorem sources_stay_typed:
  assumes "(source_step L)\<^sup>*\<^sup>* s t" "kind_text L" "uuid_text L" "sources_typed L (db s)" "r \<in> set (sources (db t))"
  shows "show_uuid L (src_id (into_source L r)) = sr_id r \<and>
    kind_of_json L (sr_kind r) = Some (src_kind (into_source L r))"
proof -
  have "sources_typed L (db t)"
    using assms(1,4)
  proof (induction rule: rtranclp_induct)
    case (step t u)
    from step.hyps(2) step.IH [OF step.prems] show ?case
      by cases (auto dest: run_preserves [OF typed_handlers(1) [OF assms(2,3)]] run_preserves [OF typed_handlers(2) [OF assms(2,3)]]
        run_preserves [OF typed_handlers(3) [OF assms(2,3)]] run_preserves [OF typed_handlers(4) [OF assms(2,3)]]
        run_preserves [OF typed_handlers(5) [OF assms(2,3)]] run_preserves [OF typed_join [OF assms(2,3)]])
  qed simp
  then show ?thesis using assms(5) by (auto simp: sources_typed_def into_source_def unwrap_or_def)
qed


section \<open>Concrete runs\<close>

text \<open>An instance whose kinds are read back: the kind as a list of texts.\<close>

definition kind_texts :: "source_kind \<Rightarrow> string list" where
  "kind_texts k = (case k of
      Rtmp key \<Rightarrow> [''rtmp'', key]
    | Srt port None \<Rightarrow> [''srt'', show_word port]
    | Srt port (Some pw) \<Rightarrow> [''srt'', show_word port, pw]
    | WebRtc token \<Rightarrow> [''webrtc'', token]
    | TestPattern \<Rightarrow> [''test'']
    | MediaFile a p m \<Rightarrow> [''file'', show_uuid sample_lib a, p, m]
    | Browser u \<Rightarrow> [''browser'', u])"

definition kind_of_texts :: "string list \<Rightarrow> source_kind option" where
  "kind_of_texts ts = (case ts of
      [tag] \<Rightarrow> if tag = ''test'' then Some TestPattern else None
    | [tag, a] \<Rightarrow> if tag = ''rtmp'' then Some (Rtmp a) else if tag = ''webrtc'' then Some (WebRtc a)
        else if tag = ''browser'' then Some (Browser a) else map_option (\<lambda>p. Srt p None) (parse_u16 a)
    | [tag, a, b] \<Rightarrow> map_option (\<lambda>p. Srt p (Some b)) (parse_u16 a)
    | [tag, a, b, c] \<Rightarrow> map_option (\<lambda>i. MediaFile i b c) (parse_uuid sample_lib a)
    | _ \<Rightarrow> None)"

definition typed_lib :: lib where
  "typed_lib = sample_lib\<lparr>
     kind_to_json := (\<lambda>k. strings_to_json sample_lib (kind_texts k)),
     kind_of_json := (\<lambda>j. Option.bind (strings_of_json sample_lib j) kind_of_texts)\<rparr>"

lemma typed_lib_text: "kind_text typed_lib" "uuid_text typed_lib"
proof -
  have "parse_u16 (show_word (p :: u16)) = Some p" for p
    using parse_show_nat [of "unat p" "2 ^ 16"] unsigned_less [where 'a = nat, of p] by (simp add: parse_u16_def show_word_def)
  then have "kind_of_texts (kind_texts k) = Some k" for k
    by (simp add: kind_texts_def kind_of_texts_def sample_uuid split: source_kind.split option.split)
  then show "kind_text typed_lib"
    using sample_strings by (simp add: kind_text_def typed_lib_def)
  show "uuid_text typed_lib"
    using sample_uuid by (simp add: uuid_text_def typed_lib_def)
qed

lemma q_insert_source_ok:
  assumes "no_faults s" "show_uuid L i \<notin> sr_id ` set (sources (db s))"
  shows "\<exists>t. q (insert_source_row L i name kind) s = (Inr (), t) \<and> no_faults t \<and> sources (db t) \<noteq> []"
  using assms by (simp add: insert_source_row_def now_def q_try_ok map_err_def sql_try_def fallible_def drop_fault_none insert_row_def)

lemma create_test_source:
  assumes "no_faults s" "show_uuid L (new_v4 L (uuids (sys s))) \<notin> sr_id ` set (sources (db s))"
  shows "\<exists>src t. create_source L name TestPattern s = (Inr src, t) \<and> no_faults t \<and>
    sources (db t) \<noteq> []"
proof -
  let ?i = "new_v4 L (uuids (sys s))" and ?s = "set_sys (\<lambda>o1. o1\<lparr>uuids := Suc (uuids o1)\<rparr>) s"
  have "no_faults ?s" using assms(1) by (simp add: no_faults_def set_sys_def)
  then obtain t where "q (insert_source_row L ?i name TestPattern) ?s = (Inr (), t)" "no_faults t" "sources (db t) \<noteq> []"
    using q_insert_source_ok [of ?s L ?i name TestPattern] assms(2) by auto
  then show ?thesis
    by (simp add: create_source_def fresh_uuid_def ensure_stream_key_def with_srt_port_def start_source_def)
qed

lemma bars_created:
  "\<exists>src t. create_source typed_lib ''bars'' TestPattern sample_state = (Inr src, t) \<and> no_faults t \<and> sources (db t) \<noteq> []"
  by (rule create_test_source) (simp_all add: sample_state_def initial_state_def idle_os_def no_faults_def empty_db_def)


theorem update_leaves_the_process_witness:
  "\<exists>src t. update_source web_lib ''1'' None (Some (Srt 9000 None)) web_state = (Inr src, t) \<and> src_kind src = Srt 9000 None \<and>
    proc_view t = proc_view web_state"
proof -
  have "find_source ''1'' (db web_state) = Some \<lparr>sr_id = ''1'', sr_name = ''OBS'', sr_kind = web_json, sr_created_at = ''I''\<rparr>"
    by (simp add: find_source_def web_facts)
  then obtain src t where "update_source web_lib ''1'' None (Some (Srt 9000 None)) web_state = (Inr src, t)"
    using web_facts(1) by (simp add: update_source_def q_read_ok q_exec_ok ensure_stream_key_def)
  then show ?thesis using update_leaves_the_process by blast
qed

theorem deleted_source_is_gone_witness:
  "\<exists>t. remove_source web_lib ''1'' web_state = (Inr (), t) \<and> row_gone ''1'' (db t) \<and> media_relays t 1 = None"
proof -
  let ?stops = "then_do (stop_srt_listener 1) (then_do (stop_media_playback 1)
    (then_do (stop_guest_ingest web_lib 1) (stop_browser_source 1))) :: unit handler"
  have uid: "parse_uuid web_lib ''1'' = Some 1" by (simp add: web_facts sample_ids)
  note guest = acts_stop_ingest [where 'e = mux_error, of 1 web_lib Guest, folded stop_guest_ingest_def]
  have "\<exists>t. ?stops u = (Inr (), t)" for u
    using actsD [OF acts_then [OF acts_ingest_view_stops(1) [of 1] acts_then [OF acts_ingest_view_stops(2) [of 1]
      acts_then [OF guest acts_ingest_view_stops(3) [of 1]]]], where s = u] by auto
  then obtain t where "remove_source web_lib ''1'' web_state = (Inr (), t)"
    using web_facts(1) by (auto simp: remove_source_def uid q_count_ok web_facts(1,10) count_where_def)
  then show ?thesis using deleted_source_is_gone [OF _ uid] by blast
qed

theorem sources_stay_typed_witness:
  "\<exists>t r. (source_step typed_lib)\<^sup>*\<^sup>* sample_state t \<and> r \<in> set (sources (db t)) \<and>
    kind_of_json typed_lib (sr_kind r) = Some (src_kind (into_source typed_lib r))"
proof -
  obtain src t where t: "create_source typed_lib ''bars'' TestPattern sample_state = (Inr src, t)" "sources (db t) \<noteq> []"
    using bars_created by blast
  then have run: "(source_step typed_lib)\<^sup>*\<^sup>* sample_state t" using source_step.Create by blast
  obtain r where r: "r \<in> set (sources (db t))" using t(2) by (cases "sources (db t)") auto
  have "sources_typed typed_lib (db sample_state)"
    by (simp add: sources_typed_def sample_state_def initial_state_def empty_db_def)
  then show ?thesis using sources_stay_typed [OF run typed_lib_text _ r] run r by blast
qed

end
