(* ===== verification/Rtmp.thy ===== *)
theory Rtmp
  imports Ingest
begin

text \<open>
  The RTMP server (\<open>rtmp/server.rs\<close>) and the feed of a normalizer's input
  (\<open>source\_normalizer.rs\<close>). The protocol itself is the crate \<open>rml\_rtmp\<close>: a
  record of functions that answer the handshake, turn the bytes read into
  results and answer requests. A connection is the list of what its reads
  return, the empty one the close by the client; any read and any write can fail.
\<close>

section \<open>The crate and a connection\<close>

record stream_metadata =
  md_width :: "u32 option"
  md_height :: "u32 option"
  md_frame_rate :: "f32 option"
  md_video_bitrate_kbps :: "u32 option"
  md_audio_bitrate_kbps :: "u32 option"
  md_audio_sample_rate :: "u32 option"
  md_encoder :: "string option"

datatype rtmp_event =
    ConnectionRequested nat string
  | ReleaseStreamRequested nat string
  | PublishStreamRequested nat string
  | PublishStreamFinished string
  | AudioDataReceived bytes u32
  | VideoDataReceived bytes u32
  | StreamMetadataChanged stream_metadata
  | OtherEvent

datatype rtmp_result =
    OutboundResponse bytes
  | RaisedEvent rtmp_event
  | UnhandleableMessageReceived

datatype handshake_result = InProgress bytes | Completed bytes bytes

record ('hs, 'ss) rtmp_crate =
  generate_p0_and_p1 :: "string + 'hs \<times> bytes"
  process_bytes :: "'hs \<Rightarrow> bytes \<Rightarrow> string + 'hs \<times> handshake_result"
  new_session :: "string + 'ss \<times> rtmp_result list"
  handle_input :: "'ss \<Rightarrow> bytes \<Rightarrow> string + 'ss \<times> rtmp_result list"
  accept_request :: "'ss \<Rightarrow> nat \<Rightarrow> string + 'ss \<times> rtmp_result list"
  reject_request :: "'ss \<Rightarrow> nat \<Rightarrow> string \<Rightarrow> string \<Rightarrow> string + 'ss \<times> rtmp_result list"

record 'ss rtmp_conn =
  rc_session :: 'ss
  rc_written :: "bytes list"
  rc_stream_key :: "string option"
  rc_source :: "uuid option"
  rc_media_tx :: "nat option"

definition from_crate :: "string + 'a \<Rightarrow> 'a io" where
  "from_crate r = (case r of Inl e \<Rightarrow> throw e | Inr a \<Rightarrow> ok a)"

fun foldM :: "('a \<Rightarrow> 'b \<Rightarrow> ('s, 'e, 'b) prog) \<Rightarrow> 'a list \<Rightarrow> 'b \<Rightarrow> ('s, 'e, 'b) prog" where
  "foldM f [] c = ok c"
| "foldM f (x # xs) c = andThen (f x c) (foldM f xs)"

section \<open>Answers\<close>

definition write_all :: "bytes \<Rightarrow> 'ss rtmp_conn \<Rightarrow> 'ss rtmp_conn io" where
  "write_all b c = then_do (fallible (ok ())) (ok (c\<lparr>rc_written := rc_written c @ [b]\<rparr>))"

definition write_responses :: "rtmp_result list \<Rightarrow> 'ss rtmp_conn \<Rightarrow> 'ss rtmp_conn io" where
  "write_responses rs = foldM (\<lambda>r c. case r of OutboundResponse b \<Rightarrow> write_all b c | _ \<Rightarrow> ok c) rs"

definition answer_request :: "(string + 'ss \<times> rtmp_result list) \<Rightarrow> 'ss rtmp_conn \<Rightarrow> 'ss rtmp_conn io" where
  "answer_request r c =
    andThen (from_crate r) (\<lambda>(ss, rs). write_responses rs (c\<lparr>rc_session := ss\<rparr>))"

section \<open>Events\<close>

definition stream_key_needle :: "string \<Rightarrow> string" where
  "stream_key_needle key = ''%'' @ [CHR 0x22] @ ''stream_key'' @ [CHR 0x22] @ '':'' @ [CHR 0x22] @ key @ [CHR 0x22] @ ''%%''"

definition find_stream_key :: "string \<Rightarrow> db \<Rightarrow> source_row option" where
  "find_stream_key key d = find (\<lambda>r. sql_like (stream_key_needle key) (sr_kind r)) (sources d)"

definition end_publication :: "uuid \<Rightarrow> (app, 'e, unit) prog" where
  "end_publication sid =
    then_do (stop_normalizer sid)
   (then_do (modify (remove_media_relay sid))
   (then_do (modify (forget_headers sid))
            (announce sid Disconnected)))"

text \<open>The normalizer's channel, or without a normalizer the relay itself.\<close>

definition open_media :: "lib \<Rightarrow> uuid \<Rightarrow> nat io" where
  "open_media L sid = andThen (attempt (start_normalizer L sid)) (\<lambda>r. case r of
      Inr raw_tx \<Rightarrow> ok raw_tx
    | Inl (e :: string) \<Rightarrow> get_or_create_media_relay sid)"

definition publish_accepted ::
    "('hs, 'ss) rtmp_crate \<Rightarrow> lib \<Rightarrow> nat \<Rightarrow> string \<Rightarrow> source_row \<Rightarrow> 'ss rtmp_conn \<Rightarrow> 'ss rtmp_conn io" where
  "publish_accepted R L request_id key row c =
    (let sid = unwrap_or 0 (parse_uuid L (sr_id row)) in
     andThen (open_media L sid) (\<lambda>tx.
     andThen (answer_request (accept_request R (rc_session c) request_id)
       (c\<lparr>rc_stream_key := Some key, rc_source := Some sid, rc_media_tx := Some tx\<rparr>)) (\<lambda>c2.
     then_do (announce sid Live) (ok c2))))"

definition publish_rejected :: "('hs, 'ss) rtmp_crate \<Rightarrow> nat \<Rightarrow> 'ss rtmp_conn \<Rightarrow> 'ss rtmp_conn io" where
  "publish_rejected R request_id c =
    then_do (answer_request (reject_request R (rc_session c) request_id
      ''NetStream.Publish.Denied'' ''Invalid stream key'') c)
   (then_do (fallible (ok ())) (throw ''invalid stream key''))"

definition on_publish ::
    "('hs, 'ss) rtmp_crate \<Rightarrow> lib \<Rightarrow> nat \<Rightarrow> string \<Rightarrow> 'ss rtmp_conn \<Rightarrow> 'ss rtmp_conn io" where
  "on_publish R L request_id key c =
    andThen (attempt (sql_read (find_stream_key key))) (\<lambda>row. case row of
      Inr (Some r) \<Rightarrow> publish_accepted R L request_id key r c
    | _ \<Rightarrow> publish_rejected R request_id c)"

definition on_finished :: "'ss rtmp_conn \<Rightarrow> 'ss rtmp_conn io" where
  "on_finished c =
    then_do (case rc_source c of None \<Rightarrow> ok () | Some sid \<Rightarrow> end_publication sid)
            (ok (c\<lparr>rc_source := None, rc_stream_key := None, rc_media_tx := None\<rparr>))"

definition send_media :: "bytes \<Rightarrow> 'ss rtmp_conn \<Rightarrow> (app, 'e, 'ss rtmp_conn) prog" where
  "send_media tag c =
    then_do (case rc_media_tx c of None \<Rightarrow> ok () | Some tx \<Rightarrow> modify (relay_send tx tag)) (ok c)"

text \<open>\<open>f as f64\<close> on the bits: the exponent is rebased and the fraction widened; the
  subnormals of \<open>f32\<close> become normal.\<close>

fun normalise_f32 :: "nat \<Rightarrow> nat \<Rightarrow> nat \<Rightarrow> nat \<times> nat" where
  "normalise_f32 0 m e = (m, e)"
| "normalise_f32 (Suc n) m e = (if 2 ^ 23 \<le> m then (m, e) else normalise_f32 n (2 * m) (e - 1))"

definition f32_to_f64 :: "f32 \<Rightarrow> u64" where
  "f32_to_f64 w =
    (let sign = unat (drop_bit 31 w);
         e = unat (drop_bit 23 w AND 0xFF); m = unat (w AND 0x7FFFFF)
     in if e = 255
        then of_nat (sign * 2 ^ 63 + 2047 * 2 ^ 52 + (if m = 0 then 0 else 2 ^ 51) + m mod 2 ^ 22 * 2 ^ 29)
        else if e = 0 \<and> m = 0 then of_nat (sign * 2 ^ 63)
        else (let (m', e') = (if e = 0 then normalise_f32 23 m 897 else (2 ^ 23 + m, e + 896))
              in of_nat (sign * 2 ^ 63 + e' * 2 ^ 52 + (m' - 2 ^ 23) * 2 ^ 29)))"

definition media_info_of :: "stream_metadata \<Rightarrow> media_info" where
  "media_info_of md =
    \<lparr>mi_width = md_width md, mi_height = md_height md, mi_fps = map_option f32_to_f64 (md_frame_rate md),
     mi_video_bitrate = md_video_bitrate_kbps md, mi_audio_bitrate = md_audio_bitrate_kbps md,
     mi_audio_sample_rate = md_audio_sample_rate md, mi_encoder = md_encoder md\<rparr>"

definition on_metadata :: "stream_metadata \<Rightarrow> 'ss rtmp_conn \<Rightarrow> (app, 'e, 'ss rtmp_conn) prog" where
  "on_metadata md c =
    then_do (case rc_source c of None \<Rightarrow> ok ()
      | Some sid \<Rightarrow> modify (\<lambda>s. s\<lparr>source_media_info := (source_media_info s)(sid \<mapsto> media_info_of md)\<rparr>))
            (ok c)"

fun handle_event ::
    "('hs, 'ss) rtmp_crate \<Rightarrow> lib \<Rightarrow> rtmp_event \<Rightarrow> 'ss rtmp_conn \<Rightarrow> 'ss rtmp_conn io" where
  "handle_event R L (ConnectionRequested i app_name) c = answer_request (accept_request R (rc_session c) i) c"
| "handle_event R L (ReleaseStreamRequested i key) c = answer_request (accept_request R (rc_session c) i) c"
| "handle_event R L (PublishStreamRequested i key) c = on_publish R L i key c"
| "handle_event R L (PublishStreamFinished key) c = on_finished c"
| "handle_event R L (AudioDataReceived data ts) c = send_media (flv_audio_tag data ts) c"
| "handle_event R L (VideoDataReceived data ts) c = send_media (flv_video_tag data ts) c"
| "handle_event R L (StreamMetadataChanged md) c = on_metadata md c"
| "handle_event R L OtherEvent c = ok c"

definition process_results ::
    "('hs, 'ss) rtmp_crate \<Rightarrow> lib \<Rightarrow> rtmp_result list \<Rightarrow> 'ss rtmp_conn \<Rightarrow> 'ss rtmp_conn io" where
  "process_results R L = foldM (\<lambda>r c. case r of
      OutboundResponse b \<Rightarrow> write_all b c
    | RaisedEvent ev \<Rightarrow> handle_event R L ev c
    | UnhandleableMessageReceived \<Rightarrow> ok c)"

section \<open>The session and its connection\<close>

definition session_input ::
    "('hs, 'ss) rtmp_crate \<Rightarrow> lib \<Rightarrow> bytes \<Rightarrow> 'ss rtmp_conn \<Rightarrow> 'ss rtmp_conn io" where
  "session_input R L b c =
    andThen (from_crate (handle_input R (rc_session c) b)) (\<lambda>(ss, rs).
    process_results R L rs (c\<lparr>rc_session := ss\<rparr>))"

text \<open>\<open>stream.read\<close> answers no bytes at the end of the connection.\<close>

fun session_loop ::
    "('hs, 'ss) rtmp_crate \<Rightarrow> lib \<Rightarrow> bytes list \<Rightarrow> 'ss rtmp_conn \<Rightarrow> 'ss rtmp_conn io" where
  "session_loop R L [] c = then_do (fallible (ok ())) (ok c)"
| "session_loop R L (b # bs) c = then_do (fallible (ok ()))
     (if b = [] then ok c else andThen (session_input R L b c) (session_loop R L bs))"

definition handle_session ::
    "('hs, 'ss) rtmp_crate \<Rightarrow> lib \<Rightarrow> bytes option \<Rightarrow> bytes list \<Rightarrow> bytes list \<Rightarrow> unit io" where
  "handle_session R L initial_bytes written bs =
    andThen (from_crate (new_session R)) (\<lambda>(ss, initial_results).
    andThen (write_responses initial_results
      \<lparr>rc_session = ss, rc_written = written, rc_stream_key = None, rc_source = None, rc_media_tx = None\<rparr>) (\<lambda>c0.
    andThen (case initial_bytes of None \<Rightarrow> ok c0 | Some b \<Rightarrow> session_input R L b c0) (\<lambda>c1.
    andThen (session_loop R L bs c1) (\<lambda>c.
    case rc_source c of None \<Rightarrow> ok () | Some sid \<Rightarrow> end_publication sid))))"

fun handshake_loop ::
    "('hs, 'ss) rtmp_crate \<Rightarrow> lib \<Rightarrow> 'hs \<Rightarrow> bytes list \<Rightarrow> bytes list \<Rightarrow> unit io" where
  "handshake_loop R L hs written [] = fallible (ok ())"
| "handshake_loop R L hs written (b # bs) = then_do (fallible (ok ()))
     (if b = [] then ok ()
      else andThen (from_crate (process_bytes R hs b)) (\<lambda>(hs', r). case r of
        InProgress response \<Rightarrow>
          then_do (fallible (ok ())) (handshake_loop R L hs' (written @ [response]) bs)
      | Completed response remaining \<Rightarrow>
          then_do (fallible (ok ()))
            (handle_session R L (if remaining = [] then None else Some remaining) (written @ [response]) bs)))"

definition handle_connection :: "('hs, 'ss) rtmp_crate \<Rightarrow> lib \<Rightarrow> bytes list \<Rightarrow> unit io" where
  "handle_connection R L bs =
    andThen (from_crate (generate_p0_and_p1 R)) (\<lambda>(hs, s0s1).
    then_do (fallible (ok ())) (handshake_loop R L hs [s0s1] bs))"

section \<open>The input of a normalizer\<close>

text \<open>What ffmpeg's standard input is written, when it takes \<open>n\<close> writes before it
  is closed.\<close>

fun pipe_raw :: "nat \<Rightarrow> recv list \<Rightarrow> bytes" where
  "pipe_raw n [] = []"
| "pipe_raw n (Got d # ms) = (case n of 0 \<Rightarrow> [] | Suc m \<Rightarrow> d @ pipe_raw m ms)"
| "pipe_raw n (Lagged k # ms) = pipe_raw n ms"
| "pipe_raw n (Closed # ms) = []"

definition normalizer_stdin :: "nat \<Rightarrow> recv list \<Rightarrow> bytes" where
  "normalizer_stdin n ms = (case n of 0 \<Rightarrow> [] | Suc m \<Rightarrow> flv_header @ pipe_raw m ms)"


section \<open>Media\<close>

fun media_tag :: "rtmp_event \<Rightarrow> (byte \<times> bytes \<times> u32) option" where
  "media_tag (AudioDataReceived d ts) = Some (FLV_TAG_AUDIO, d, ts)"
| "media_tag (VideoDataReceived d ts) = Some (FLV_TAG_VIDEO, d, ts)"
| "media_tag _ = None"

lemma handle_media:
  assumes "media_tag ev = Some (tt, d, ts)" "rc_media_tx c = Some tx"
  shows "handle_event R L ev c s = (Inr c, relay_send tx (flv_tag tt d ts) s)"
  using assms by (cases ev) (auto simp: send_media_def flv_audio_tag_def flv_video_tag_def)

lemma process_media:
  assumes "\<forall>ev \<in> set evs. media_tag ev \<noteq> None" "rc_media_tx c = Some tx"
  shows "process_results R L (map RaisedEvent evs) c s =
    (Inr c, s\<lparr>sent := (sent s)(tx := sent s tx @ map (\<lambda>(tt, d, ts). flv_tag tt d ts) (map (the \<circ> media_tag) evs))\<rparr>)"
  using assms(1)
proof (induction evs arbitrary: s)
  case Nil
  then show ?case by (simp add: process_results_def)
next
  case (Cons ev evs)
  then obtain tt d ts where ev: "media_tag ev = Some (tt, d, ts)" by auto
  have "process_results R L (map RaisedEvent (ev # evs)) c s =
      process_results R L (map RaisedEvent evs) c (relay_send tx (flv_tag tt d ts) s)"
    using handle_media [OF ev assms(2), of R L s] by (simp add: process_results_def)
  then show ?case using Cons ev by (simp add: relay_send_def comp_def cong: if_cong)
qed

lemma pipe_raw_got: "pipe_raw (length ts) (map Got ts) = concat ts"
  by (induction ts) auto

text \<open>C13: The media of a publication reach its encoder: what the events of a
  connection send is the data in order with their timestamps, and nothing else
  changes; the standard input of the normalizer, read as a FLV stream, is
  exactly these tags.\<close>
theorem rtmp_media_reaches_encoder:
  assumes "\<forall>ev \<in> set evs. \<exists>tt d ts. media_tag ev = Some (tt, d, ts) \<and> length d < 2 ^ 24"
    and "rc_media_tx c = Some tx"
  shows "\<exists>tags. process_results R L (map RaisedEvent evs) c s = (Inr c, s\<lparr>sent := (sent s)(tx := sent s tx @ tags)\<rparr>) \<and>
    (\<exists>rest. read_exact 13 (normalizer_stdin (Suc (length tags)) (map Got tags)) = Some (flv_header, rest) \<and>
      map (\<lambda>(tt, d, tag). (tt, d, the (read_tag_timestamp tag))) (read_tags rest) = map (the \<circ> media_tag) evs)"
proof -
  let ?fs = "map (the \<circ> media_tag) evs"
  let ?tags = "map (\<lambda>(tt, d, ts). flv_tag tt d ts) ?fs"
  have run: "process_results R L (map RaisedEvent evs) c s = (Inr c, s\<lparr>sent := (sent s)(tx := sent s tx @ ?tags)\<rparr>)"
    using assms by (intro process_media) auto
  have small: "\<forall>(tt, d, ts) \<in> set ?fs. length d < 2 ^ 24"
    using assms(1) by fastforce
  have "read_tags (concat ?tags) = map (\<lambda>(tt, d, ts). (tt, d, flv_tag tt d ts)) ?fs"
    using read_tags_built [OF small, of "[]"] by (simp add: next_tag_def read_exact_def)
  then have "map (\<lambda>(tt, d, tag). (tt, d, the (read_tag_timestamp tag))) (read_tags (concat ?tags)) = ?fs"
    by (simp add: comp_def case_prod_beta' read_timestamp_flv_tag)
  moreover have "read_exact 13 (normalizer_stdin (Suc (length ?tags)) (map Got ?tags)) = Some (flv_header, concat ?tags)"
    using pipe_raw_got [of ?tags] by (simp add: normalizer_stdin_def read_exact_def flv_header_def put_u32_def)
  ultimately show ?thesis using run by blast
qed


section \<open>Who may publish\<close>

text \<open>A pattern without \<open>%\<close> matches text of its length, letter by letter.\<close>

definition like_text :: "string \<Rightarrow> string \<Rightarrow> bool" where
  "like_text p t \<longleftrightarrow> list_all2 (\<lambda>a b. a = CHR ''_'' \<or> like_eq a b) p t"

lemma sql_like_split:
  "CHR ''%'' \<notin> set p \<Longrightarrow> sql_like (p @ ps) t \<Longrightarrow> \<exists>u v. t = u @ v \<and> like_text p u \<and> sql_like ps v"
proof (induction p arbitrary: t)
  case Nil
  then show ?case by (auto simp: like_text_def)
next
  case (Cons a p)
  then obtain x xs where t: "t = x # xs" by (cases t) (auto simp: sql_like.simps)
  then have "sql_like (p @ ps) xs" "a = CHR ''_'' \<or> like_eq a x"
    using Cons.prems by (auto simp: sql_like.simps split: if_splits)
  then obtain u v where "xs = u @ v" "like_text p u" "sql_like ps v" using Cons.IH [OF _ \<open>sql_like (p @ ps) xs\<close>] Cons.prems(1) by (meson list.set_intros(2))
  then show ?case
    using t \<open>a = CHR ''_'' \<or> like_eq a x\<close> by (intro exI [of _ "x # u"] exI [of _ v]) (simp add: like_text_def)
qed

lemma sql_like_percentD: "sql_like (CHR ''%'' # ps) t \<Longrightarrow> \<exists>u v. t = u @ v \<and> sql_like ps v"
proof (induction t)
  case (Cons x t)
  then consider "sql_like ps (x # t)" | "sql_like (CHR ''%'' # ps) t" by (auto simp: sql_like.simps)
  then show ?case
  proof cases
    case 2
    then obtain u v where "t = u @ v" "sql_like ps v" using Cons.IH by blast
    then show ?thesis by (intro exI [of _ "x # u"] exI [of _ v]) simp
  qed (metis append_Nil)
qed (simp add: sql_like.simps)

lemma like_text_plain: "CHR ''_'' \<notin> set p \<Longrightarrow> like_text p t \<Longrightarrow> to_lowercase t = to_lowercase p"
  by (induction p arbitrary: t) (auto simp: like_text_def to_lowercase_def like_eq_def list_all2_Cons1)

definition stream_key_label :: string where
  "stream_key_label = [CHR 0x22] @ ''stream_key'' @ [CHR 0x22] @ '':'' @ [CHR 0x22]"

lemma stream_key_needle_alt:
  "stream_key_needle key = CHR ''%'' # (stream_key_label @ key @ [CHR 0x22]) @ ''%%''"
  by (simp add: stream_key_needle_def stream_key_label_def)

lemma lower_char_quote: "lower_char z = CHR 0x22 \<Longrightarrow> z = CHR 0x22"
proof (rule ccontr)
  assume z: "lower_char z = CHR 0x22" "z \<noteq> CHR 0x22"
  then have up: "CHR ''A'' \<le> z" "z \<le> CHR ''Z''" "char_of (of_char z + 32 :: nat) = CHR 0x22"
    by (auto simp: lower_char_def split: if_splits)
  then have "65 \<le> (of_char z :: nat)" "of_char z \<le> (90 :: nat)" by (simp_all add: less_eq_char_def)
  moreover have "of_char (char_of (of_char z + 32 :: nat)) = (34 :: nat)" unfolding up(3) by simp
  ultimately show False by simp
qed

lemma find_stream_key_Some:
  assumes "find_stream_key key d = Some r" "CHR ''%'' \<notin> set key" "CHR ''_'' \<notin> set key"
  shows "\<exists>a m k b. r \<in> set (sources d) \<and> sr_kind r = a @ m @ k @ [CHR 0x22] @ b \<and>
    like_text stream_key_label m \<and> to_lowercase k = to_lowercase key"
proof -
  have r: "r \<in> set (sources d)" "sql_like (stream_key_needle key) (sr_kind r)"
    using assms(1) find_key_Some_in unfolding find_stream_key_def by fastforce+
  let ?p = "stream_key_label @ key @ [CHR 0x22]"
  obtain a v where a: "sr_kind r = a @ v" "sql_like (?p @ ''%%'') v"
    using sql_like_percentD r(2) unfolding stream_key_needle_alt by blast
  have "CHR ''%'' \<notin> set ?p" using assms(2) by (simp add: stream_key_label_def)
  then obtain u b where u: "v = u @ b" "like_text ?p u" using sql_like_split [OF _ a(2)] by blast
  then obtain m k e where m: "u = m @ k @ e" "like_text stream_key_label m" "like_text key k" "like_text [CHR 0x22] e"
    unfolding like_text_def list_all2_append1 by blast
  from m(4) obtain z where "e = [z]" "lower_char z = lower_char (CHR 0x22)"
    by (auto simp: like_text_def list_all2_Cons1 like_eq_def)
  then have "e = [CHR 0x22]" using lower_char_quote [of z] by (simp add: lower_char_def)
  then show ?thesis using r(1) a u m like_text_plain [OF assms(3)] by auto
qed


lemma answer_request_keeps:
  assumes "answer_request r c s = (Inr c', t)"
  shows "rc_source c' = rc_source c \<and> rc_media_tx c' = rc_media_tx c \<and> rc_stream_key c' = rc_stream_key c"
proof -
  have fold: "rc_source c2 = rc_source c1 \<and> rc_media_tx c2 = rc_media_tx c1 \<and> rc_stream_key c2 = rc_stream_key c1"
    if "write_responses rs c1 s1 = (Inr c2, t1)" for rs and c1 c2 :: "'a rtmp_conn" and s1 t1
    using that
  proof (induction rs arbitrary: c1 s1)
    case (Cons r rs)
    then obtain c3 s3 where "(case r of OutboundResponse b \<Rightarrow> write_all b c1 | _ \<Rightarrow> ok c1) s1 = (Inr c3, s3)"
        "write_responses rs c3 s3 = (Inr c2, t1)"
      by (auto simp: write_responses_def andThen_Inr_iff)
    moreover from this(1) have "rc_source c3 = rc_source c1 \<and> rc_media_tx c3 = rc_media_tx c1 \<and> rc_stream_key c3 = rc_stream_key c1"
      by (auto simp: write_all_def Inr_iffs split: rtmp_result.splits)
    ultimately show ?case using Cons.IH by metis
  qed (simp add: write_responses_def)
  then show ?thesis
    using assms by (fastforce simp: answer_request_def andThen_Inr_iff split: prod.splits)
qed

lemma publish_accepted_Inr:
  assumes "publish_accepted R L i key r c s = (Inr c', t)"
  shows "rc_source c' = Some (unwrap_or 0 (parse_uuid L (sr_id r))) \<and> rc_media_tx c' \<noteq> None \<and>
    rc_stream_key c' = Some key \<and> source_states t (unwrap_or 0 (parse_uuid L (sr_id r))) = Some Live"
proof -
  let ?sid = "unwrap_or 0 (parse_uuid L (sr_id r))"
  from assms obtain tx s1 c2 s2 y where
    c2: "answer_request (accept_request R (rc_session c) i)
      (c\<lparr>rc_stream_key := Some key, rc_source := Some ?sid, rc_media_tx := Some tx\<rparr>) s1 = (Inr c2, s2)"
    and live: "(announce ?sid Live :: unit io) s2 = (Inr y, t)" and "c' = c2"
    unfolding publish_accepted_def Let_def Inr_iffs by blast
  moreover have "source_states t ?sid = Some Live"
    using live by (auto simp: announce_def ws_send_def set_source_state_def)
  ultimately show ?thesis using answer_request_keeps [OF c2] by simp
qed

lemma on_publish_Inr:
  assumes "on_publish R L i key c s = (Inr c', t)"
  shows "\<exists>r. find_stream_key key (db s) = Some r \<and> publish_accepted R L i key r c (drop_fault s) = (Inr c', t)"
proof -
  have rejected: "publish_rejected R i c u \<noteq> (Inr c', t)" for u
    by (auto simp: publish_rejected_def andThen_Inr_iff)
  show ?thesis
    using assms rejected
    by (auto simp: on_publish_def sql_read_def fallible_def split: option.splits)
qed


lemma smooth_write_responses: "smooth (write_responses rs c)"
proof -
  have "smooth (write_all b c)" for b and c :: "'a rtmp_conn"
    unfolding write_all_def by (intro smooth_intros)
  then have one: "smooth (case r of OutboundResponse b \<Rightarrow> write_all b c | _ \<Rightarrow> ok c)" for r and c :: "'a rtmp_conn"
    by (cases r) (simp_all add: smooth_pure)
  show ?thesis
    unfolding write_responses_def by (induction rs arbitrary: c) (simp_all add: smooth_pure smooth_andThen one)
qed

lemma smooth_open_media: "smooth (open_media L i)"
proof -
  have "smooth (start_normalizer L i)"
    unfolding start_normalizer_def by (intro smooth_intros; simp add: no_faults_def)
  then show ?thesis
    unfolding open_media_def by (intro smooth_andThen smooth_wrap) (auto intro!: smooth_intros split: sum.split)
qed

lemma on_publish_ok:
  assumes "no_faults s" "find_stream_key key (db s) = Some r" "accept_request R (rc_session c) i = Inr (ss, rs)"
  shows "\<exists>c' t. on_publish R L i key c s = (Inr c', t) \<and> no_faults t \<and> publish_accepted R L i key r c s = (Inr c', t)"
proof -
  have "smooth (publish_accepted R L i key r c)"
    unfolding publish_accepted_def Let_def answer_request_def announce_def ws_send_def
    by (intro smooth_andThen smooth_open_media)
      (auto simp: assms(3) from_crate_def set_source_state_def intro!: smooth_intros smooth_write_responses)
  then obtain c' t where "publish_accepted R L i key r c s = (Inr c', t)" "no_faults t"
    using assms(1) unfolding smooth_def by blast
  then show ?thesis
    using assms(1,2) by (simp add: on_publish_def sql_read_def fallible_def drop_fault_none)
qed

text \<open>The key given is a pattern: with \<open>%\<close> for a key anyone publishes to the first
  source that has any stream key.\<close>
theorem percent_publishes_without_a_key:
  assumes "r \<in> set (sources (db s))" "sr_kind r = a @ stream_key_label @ k @ [CHR 0x22] @ b"
    and "no_faults s" "accept_request R (rc_session c) i = Inr (ss, rs)"
  shows "\<exists>c' t r'. on_publish R L i ''%'' c s = (Inr c', t) \<and> r' \<in> set (sources (db s)) \<and>
    rc_source c' = Some (unwrap_or 0 (parse_uuid L (sr_id r'))) \<and> rc_media_tx c' \<noteq> None \<and>
    source_states t (unwrap_or 0 (parse_uuid L (sr_id r'))) = Some Live"
proof -
  have "sql_like (''%'' @ [CHR 0x22] @ ''%%'') (k @ [CHR 0x22] @ b)"
    using sql_like_percentI [OF sql_like_literal [of "[CHR 0x22]" "''%%''" b], of k] sql_like_percentI [OF sql_like_percent_all, of "[]"]
    by simp
  then have "sql_like (stream_key_label @ ''%'' @ [CHR 0x22] @ ''%%'') (stream_key_label @ k @ [CHR 0x22] @ b)"
    by (intro sql_like_literal) (simp_all add: stream_key_label_def)
  from sql_like_percentI [OF this, of a] have "sql_like (stream_key_needle ''%'') (sr_kind r)"
    by (simp add: stream_key_needle_alt assms(2))
  then obtain r' where r': "find_stream_key ''%'' (db s) = Some r'"
    using assms(1) unfolding find_stream_key_def by (metis (no_types, lifting) find_None_iff option.exhaust)
  then have "r' \<in> set (sources (db s))" using find_key_Some_in unfolding find_stream_key_def by fastforce
  then show ?thesis
    using on_publish_ok [OF assms(3) r' assms(4)] publish_accepted_Inr by metis
qed


section \<open>The end of a connection\<close>

definition not_fed :: "uuid \<Rightarrow> app \<Rightarrow> bool" where
  "not_fed i s \<longleftrightarrow> source_normalizers s i = None \<and> media_relays s i = None \<and> sequence_headers s i = None \<and>
     source_states s i \<noteq> Some Live"

text \<open>What the connections share; the fields of a source a frame leaves alone.\<close>

definition feed_view ::
    "app \<Rightarrow> db \<times> (uuid \<Rightarrow> child option) \<times> (uuid \<Rightarrow> nat option) \<times> (uuid \<Rightarrow> seq_headers option) \<times> (uuid \<Rightarrow> source_state option)" where
  "feed_view s = (db s, source_normalizers s, media_relays s, sequence_headers s, source_states s)"

lemma frame_feed_view [simp]: "frame feed_view"
  by (simp add: frame_def feed_view_def)

lemma not_fed_view: "feed_view t = feed_view s \<Longrightarrow> not_fed i t = not_fed i s"
  by (simp add: feed_view_def not_fed_def)

lemma keeps_answer_request:
  fixes c :: "'a rtmp_conn"
  assumes "frame f"
  shows "keeps f (write_all b c)" "keeps f (write_responses rs c)" "keeps f (answer_request r c)"
proof -
  have w: "keeps f (write_all b c)" for b and c :: "'a rtmp_conn"
    unfolding write_all_def by (intro keeps_core keeps_fallible assms)
  then have one: "keeps f (case r of OutboundResponse b \<Rightarrow> write_all b c | _ \<Rightarrow> ok c)" for r and c :: "'a rtmp_conn"
    by (cases r) (simp_all add: keeps_pure)
  have rs: "keeps f (write_responses rs c)" for rs and c :: "'a rtmp_conn"
    unfolding write_responses_def by (induction rs arbitrary: c) (simp_all add: keeps_pure keeps_andThen one)
  show "keeps f (write_all b c)" by (rule w)
  show "keeps f (write_responses rs c)" by (rule rs)
  show "keeps f (answer_request r c)"
    unfolding answer_request_def from_crate_def
    by (cases r) (auto intro!: keeps_andThen rs keeps_pure split: prod.split)
qed

lemma end_publication_run:
  "\<exists>t. (end_publication i :: (app, 'e, unit) prog) s = (Inr (), t) \<and> not_fed i t \<and> db t = db s"
proof -
  obtain u where u: "(stop_normalizer i :: (app, 'e, unit) prog) s = (Inr (), u)" "source_normalizers u i = None" "db u = db s"
    by (cases "source_normalizers s i")
      (simp_all add: stop_normalizer_def reg_stop_def reg_take_def andThen_def kill_opt_def kill_def set_sys_def)
  then show ?thesis
    by (simp add: end_publication_def announce_def ws_send_def set_source_state_def not_fed_def
      remove_media_relay_def forget_headers_def)
qed

lemma keeps_db_publish: "keeps db (publish_accepted R L i key r c)"
proof -
  have relay: "keeps db (get_or_create_media_relay i)" for i
    by (simp add: keeps_def get_or_create_media_relay_def split: option.split)
  have chan: "keeps db new_channel" by (simp add: keeps_def new_channel_def)
  have regs: "keeps db (reg_replace k i c)" for k i c
    by (simp add: keeps_def snd_reg_replace set_running_def Let_def split: option.split) (cases k; simp)
  have norm: "keeps db (start_normalizer L i)" for i
    unfolding start_normalizer_def by (intro keeps_core keeps_os keeps_load_output_config relay chan regs; simp)
  have media: "keeps db (open_media L i)" for i
    unfolding open_media_def by (intro keeps_andThen keeps_wrap norm) (auto intro: relay keeps_pure split: sum.split)
  have says: "keeps db (announce i st :: unit io)" for i st
    by (simp add: keeps_def announce_def ws_send_def set_source_state_def)
  show ?thesis
    unfolding publish_accepted_def Let_def by (intro keeps_andThen media keeps_answer_request says keeps_pure) simp
qed

text \<open>Whatever key is given, no source but \<open>sid\<close> is found.\<close>

definition only_source :: "lib \<Rightarrow> db \<Rightarrow> uuid \<Rightarrow> bool" where
  "only_source L d sid \<longleftrightarrow> (\<forall>key r. find_stream_key key d = Some r \<longrightarrow> unwrap_or 0 (parse_uuid L (sr_id r)) = sid)"

definition conn_inv :: "db \<Rightarrow> uuid \<Rightarrow> 'ss rtmp_conn \<Rightarrow> app \<Rightarrow> bool" where
  "conn_inv d sid c s \<longleftrightarrow> db s = d \<and> rc_source c \<in> {None, Some sid} \<and> (rc_source c = None \<longrightarrow> not_fed sid s)"

lemma conn_inv_view:
  "conn_inv d sid c s \<Longrightarrow> feed_view t = feed_view s \<Longrightarrow> rc_source c' = rc_source c \<Longrightarrow> conn_inv d sid c' t"
  by (auto simp: conn_inv_def feed_view_def not_fed_def)

lemma conn_inv_fault: "conn_inv d sid c s \<Longrightarrow> conn_inv d sid c (drop_fault s)"
  by (erule conn_inv_view) (simp_all add: frame_drop_fault)

lemma from_crate_Inr_iff: "from_crate r s = (Inr a, t) \<longleftrightarrow> r = Inr a \<and> t = s"
  by (auto simp: from_crate_def split: sum.split)

lemma event_inv:
  assumes "handle_event R L ev c s = (Inr c', t)" "conn_inv d sid c s"
    and "only_source L d sid"
  shows "conn_inv d sid c' t"
proof -
  have answer: "conn_inv d sid c' t" if run: "answer_request r c s = (Inr c', t)" for r
  proof (rule conn_inv_view [OF assms(2)])
    show "feed_view t = feed_view s" by (rule keeps_run [OF keeps_answer_request(3) [OF frame_feed_view] run])
    show "rc_source c' = rc_source c" using answer_request_keeps [OF run] by simp
  qed
  have same: "conn_inv d sid c' t" if "feed_view t = feed_view s" "c' = c"
    by (rule conn_inv_view [OF assms(2)]) (simp_all add: that)
  have media: "conn_inv d sid c' t" if "send_media tag c s = (Inr c', t)" for tag
    using that by (intro same) (auto simp: send_media_def relay_send_def feed_view_def split: option.splits)
  have publish: "conn_inv d sid c' t" if run: "on_publish R L i key c s = (Inr c', t)" for i key
  proof -
    obtain r where r: "find_stream_key key (db s) = Some r" "publish_accepted R L i key r c (drop_fault s) = (Inr c', t)"
      using on_publish_Inr [OF run] by blast
    have "db t = db s" using keeps_run [OF keeps_db_publish r(2)] by simp
    then show ?thesis
      using publish_accepted_Inr [OF r(2)] r(1) assms(2,3) by (auto simp: conn_inv_def only_source_def)
  qed
  have finish: "conn_inv d sid c' t" if run: "on_finished c s = (Inr c', t)"
    using run assms(2) end_publication_run [where 'e = string, of sid s]
    by (auto simp: on_finished_def conn_inv_def)
  have meta: "conn_inv d sid c' t" if run: "on_metadata md c s = (Inr c', t)" for md
    using run by (intro same) (auto simp: on_metadata_def feed_view_def split: option.splits)
  show ?thesis
    using assms(1) by (cases ev) (simp_all only: handle_event.simps answer publish finish media meta run_ok same prod.inject sum.inject)
qed


lemma foldM_inv:
  assumes "\<And>x c s c' t. f x c s = (Inr c', t) \<Longrightarrow> I c s \<Longrightarrow> I c' t"
  shows "foldM f xs c s = (Inr c', t) \<Longrightarrow> I c s \<Longrightarrow> I c' t"
proof (induction xs arbitrary: c s)
  case (Cons x xs)
  then obtain c1 s1 where "f x c s = (Inr c1, s1)" "foldM f xs c1 s1 = (Inr c', t)"
    by (auto simp: andThen_Inr_iff)
  then show ?case using assms Cons.IH Cons.prems(2) by blast
qed simp

lemma results_inv:
  assumes "only_source L d sid"
    and "process_results R L rs c s = (Inr c', t)" "conn_inv d sid c s"
  shows "conn_inv d sid c' t"
proof (rule foldM_inv [where I = "conn_inv d sid", OF _ assms(2) [unfolded process_results_def] assms(3)])
  fix x and c :: "'a rtmp_conn" and s c' t
  assume run: "(case x of OutboundResponse b \<Rightarrow> write_all b c | RaisedEvent ev \<Rightarrow> handle_event R L ev c
      | UnhandleableMessageReceived \<Rightarrow> ok c) s = (Inr c', t)" and inv: "conn_inv d sid c s"
  have sends: "conn_inv d sid c' t" if w: "write_all b c s = (Inr c', t)" for b
  proof (rule conn_inv_view [OF inv])
    show "feed_view t = feed_view s" by (rule keeps_run [OF keeps_answer_request(1) [OF frame_feed_view] w])
    show "rc_source c' = rc_source c" using w by (auto simp: write_all_def Inr_iffs)
  qed
  show "conn_inv d sid c' t"
    using run sends event_inv [OF _ inv assms(1)] inv by (cases x) auto
qed

lemma input_inv:
  assumes "only_source L d sid"
    and "session_input R L b c s = (Inr c', t)" "conn_inv d sid c s"
  shows "conn_inv d sid c' t"
proof -
  from assms(2) obtain ss rs where "process_results R L rs (c\<lparr>rc_session := ss\<rparr>) s = (Inr c', t)"
    by (auto simp: session_input_def from_crate_def split: sum.splits)
  then show ?thesis
    using results_inv [OF assms(1)] assms(3) by (fastforce simp: conn_inv_def)
qed

lemma loop_inv:
  assumes "only_source L d sid"
  shows "session_loop R L bs c s = (Inr c', t) \<Longrightarrow> conn_inv d sid c s \<Longrightarrow> conn_inv d sid c' t"
proof (induction bs arbitrary: c s)
  case Nil
  then show ?case by (auto simp: andThen_Inr_iff fallible_def split: option.splits intro: conn_inv_fault)
next
  case (Cons b bs)
  then have inv: "conn_inv d sid c (drop_fault s)" by (auto intro: conn_inv_fault)
  from Cons.prems(1) consider "b = []" "c' = c" "t = drop_fault s"
    | c1 s1 where "session_input R L b c (drop_fault s) = (Inr c1, s1)" "session_loop R L bs c1 s1 = (Inr c', t)"
    by (auto simp: andThen_Inr_iff fallible_def split: option.splits if_splits)
  then show ?case
    using inv input_inv [OF assms] Cons.IH by cases blast+
qed

lemma session_end:
  assumes "only_source L (db s) sid"
    and "handle_session R L initial w bs s = (Inr (), t)" "not_fed sid s"
  shows "not_fed sid t"
proof -
  obtain ss rs where ns: "new_session R = Inr (ss, rs)"
    using assms(2) by (cases "new_session R") (auto simp: handle_session_def from_crate_def)
  from assms(2) obtain c0 s0 c1 s1 c s2 where
    start: "write_responses rs \<lparr>rc_session = ss, rc_written = w, rc_stream_key = None, rc_source = None, rc_media_tx = None\<rparr> s
      = (Inr c0, s0)"
    and first: "(case initial of None \<Rightarrow> ok c0 | Some b \<Rightarrow> session_input R L b c0) s0 = (Inr c1, s1)"
    and loop: "session_loop R L bs c1 s1 = (Inr c, s2)"
    and last: "(case rc_source c of None \<Rightarrow> ok () | Some sid \<Rightarrow> (end_publication sid :: unit io)) s2 = (Inr (), t)"
    unfolding handle_session_def ns from_crate_def sum.case andThen_ok prod.case andThen_Inr_iff by blast
  have "conn_inv (db s) sid c0 s0"
  proof (rule conn_inv_view)
    show "conn_inv (db s) sid \<lparr>rc_session = ss, rc_written = w, rc_stream_key = None, rc_source = None, rc_media_tx = None\<rparr> s"
      using assms(3) by (simp add: conn_inv_def)
    show "feed_view s0 = feed_view s" by (rule keeps_run [OF keeps_answer_request(2) [OF frame_feed_view] start])
    have "answer_request (Inr (ss, rs)) \<lparr>rc_session = ss, rc_written = w, rc_stream_key = None, rc_source = None, rc_media_tx = None\<rparr> s
      = (Inr c0, s0)" using start by (simp add: answer_request_def from_crate_def)
    then show "rc_source c0 = rc_source \<lparr>rc_session = ss, rc_written = w, rc_stream_key = None, rc_source = None, rc_media_tx = None\<rparr>"
      using answer_request_keeps by fastforce
  qed
  then have "conn_inv (db s) sid c1 s1"
    using first input_inv [OF assms(1)] by (cases initial) auto
  then have "conn_inv (db s) sid c s2" using loop_inv [OF assms(1) loop] by blast
  then show ?thesis
    using last end_publication_run [where 'e = string, of sid s2] by (auto simp: conn_inv_def)
qed

lemma handshake_end:
  assumes "only_source L d sid"
  shows "handshake_loop R L hs w bs s = (Inr (), t) \<Longrightarrow> db s = d \<Longrightarrow> not_fed sid s \<Longrightarrow> not_fed sid t"
proof (induction bs arbitrary: hs w s)
  case Nil
  then show ?case by (auto simp: fallible_def not_fed_view [OF frame_drop_fault [OF frame_feed_view]] split: option.splits)
next
  case (Cons b bs)
  note fault = not_fed_view [OF frame_drop_fault [OF frame_feed_view]]
  show ?case
  proof (cases "b = []")
    case True
    then show ?thesis using Cons.prems fault by (auto simp: andThen_Inr_iff fallible_def split: option.splits)
  next
    case False
    then obtain hs' r where r: "process_bytes R hs b = Inr (hs', r)"
      using Cons.prems(1) by (cases "process_bytes R hs b") (auto simp: andThen_Inr_iff from_crate_def fallible_def split: option.splits)
    let ?s = "drop_fault (drop_fault s)"
    have still: "db ?s = d" "not_fed sid ?s" using Cons.prems(2,3) fault by simp_all
    show ?thesis
    proof (cases r)
      case (InProgress response)
      then have "handshake_loop R L hs' (w @ [response]) bs ?s = (Inr (), t)"
        using Cons.prems(1) False r by (auto simp: andThen_Inr_iff from_crate_def fallible_def split: option.splits)
      then show ?thesis using Cons.IH still by blast
    next
      case (Completed response remaining)
      then have "handle_session R L (if remaining = [] then None else Some remaining) (w @ [response]) bs ?s = (Inr (), t)"
        using Cons.prems(1) False r by (auto simp: andThen_Inr_iff from_crate_def fallible_def split: option.splits)
      then show ?thesis using session_end assms still by metis
    qed
  qed
qed

text \<open>C15: With one source to publish to, a connection that ends without an error has
  left nothing behind, whatever the client sent and however often it published:
  the source has no normalizer, no relay, no cached headers and is not live.\<close>
theorem closed_connection_leaves_nothing:
  assumes "handle_connection R L bs s = (Inr (), t)" "not_fed sid s"
    and "only_source L (db s) sid"
  shows "not_fed sid t"
proof -
  from assms(1) obtain hs w where "handshake_loop R L hs w bs (drop_fault s) = (Inr (), t)"
    by (auto simp: handle_connection_def andThen_Inr_iff from_crate_Inr_iff fallible_def split: option.splits)
  then show ?thesis
    using handshake_end [of L "db s" sid] assms(2,3) not_fed_view [OF frame_drop_fault [OF frame_feed_view]]
    by (metis db_drop_fault)
qed

text \<open>An error on the connection after the publication ends the session without
  the clean-up: the source stays live for good, with nobody publishing.\<close>
theorem broken_connection_stays_live:
  assumes "new_session R = Inr (ss, [])" "handle_input R ss b = Inr (ss', [RaisedEvent (PublishStreamRequested i key)])"
    and "on_publish R L i key
      \<lparr>rc_session = ss', rc_written = w, rc_stream_key = None, rc_source = None, rc_media_tx = None\<rparr> s = (Inr c, t)"
    and "next_fault t = Some e"
  shows "\<exists>sid u. handle_session R L (Some b) w bs s = (Inl e, u) \<and> rc_source c = Some sid \<and> source_states u sid = Some Live"
proof -
  obtain r where r: "publish_accepted R L i key r
      \<lparr>rc_session = ss', rc_written = w, rc_stream_key = None, rc_source = None, rc_media_tx = None\<rparr> (drop_fault s) = (Inr c, t)"
    using on_publish_Inr [OF assms(3)] by blast
  have "session_loop R L bs c t = (Inl e, drop_fault t)"
    using assms(4) by (cases bs) (simp_all add: fallible_def)
  then have "handle_session R L (Some b) w bs s = (Inl e, drop_fault t)"
    using assms(1-3) by (simp add: handle_session_def from_crate_def write_responses_def session_input_def process_results_def)
  moreover have "source_states (drop_fault t) = source_states t" using frame_drop_fault [of source_states t] by simp
  ultimately show ?thesis using publish_accepted_Inr [OF r] by metis
qed

text \<open>Two connections may publish the same source. When the first of them ends,
  the source of the second is torn down under it.\<close>
theorem first_publisher_cuts_the_second:
  assumes "on_publish R L i key c1 s = (Inr d1, s1)" "on_publish R L j key c2 s1 = (Inr d2, s2)"
  shows "\<exists>sid e1 s3. rc_source d1 = Some sid \<and> rc_source d2 = Some sid \<and> rc_media_tx d2 \<noteq> None \<and> source_states s2 sid = Some Live \<and>
    on_finished d1 s2 = (Inr e1, s3) \<and> not_fed sid s3"
proof -
  obtain r1 where r1: "find_stream_key key (db s) = Some r1" "publish_accepted R L i key r1 c1 (drop_fault s) = (Inr d1, s1)"
    using on_publish_Inr [OF assms(1)] by blast
  obtain r2 where r2: "find_stream_key key (db s1) = Some r2" "publish_accepted R L j key r2 c2 (drop_fault s1) = (Inr d2, s2)"
    using on_publish_Inr [OF assms(2)] by blast
  have "db s1 = db s" using keeps_run [OF keeps_db_publish r1(2)] by simp
  then have "r2 = r1" using r1(1) r2(1) by simp
  then show ?thesis
    using publish_accepted_Inr [OF r1(2)] publish_accepted_Inr [OF r2(2)]
      end_publication_run [where 'e = string, of "unwrap_or 0 (parse_uuid L (sr_id r1))" s2]
    by (auto simp: on_finished_def)
qed


section \<open>Concrete runs\<close>

text \<open>A crate without a protocol: one byte asks to publish, another ends it.\<close>

definition sample_crate :: "(unit, unit) rtmp_crate" where
  "sample_crate =
    \<lparr>generate_p0_and_p1 = Inr ((), [3]),
     process_bytes = (\<lambda>_ b. Inr ((), Completed b [])),
     new_session = Inr ((), []),
     handle_input = (\<lambda>_ b. Inr ((), if b = [1] then [RaisedEvent (PublishStreamRequested 1 ''abc'')]
       else [RaisedEvent (PublishStreamFinished ''abc'')])),
     accept_request = (\<lambda>_ _. Inr ((), [OutboundResponse [0]])),
     reject_request = (\<lambda>_ _ _ _. Inr ((), []))\<rparr>"

definition rtmp_row :: source_row where
  "rtmp_row = \<lparr>sr_id = ''1'', sr_name = ''OBS'', sr_kind = stream_key_label @ ''abc'' @ [CHR 0x22], sr_created_at = ''I''\<rparr>"

definition rtmp_lib :: lib where
  "rtmp_lib = sample_lib\<lparr>parse_uuid := (\<lambda>t. if t = ''1'' then Some 1 else None)\<rparr>"

definition rtmp_state :: "string option list \<Rightarrow> app" where
  "rtmp_state fs = sample_state\<lparr>db := empty_db\<lparr>sources := [rtmp_row]\<rparr>, sys := idle_os\<lparr>faults := fs\<rparr>\<rparr>"

definition idle_conn :: "unit rtmp_conn" where
  "idle_conn = \<lparr>rc_session = (), rc_written = [], rc_stream_key = None, rc_source = None, rc_media_tx = None\<rparr>"

lemma rtmp_facts:
  "no_faults (rtmp_state [])" "sources (db (rtmp_state fs)) = [rtmp_row]" "parse_uuid rtmp_lib ''1'' = Some 1"
  "find_stream_key ''abc'' (db (rtmp_state fs)) = Some rtmp_row" "not_fed 1 (rtmp_state fs)"
proof -
  have "sql_like (stream_key_needle ''abc'') (sr_kind rtmp_row)" by code_simp
  then show "find_stream_key ''abc'' (db (rtmp_state fs)) = Some rtmp_row"
    by (simp add: find_stream_key_def rtmp_state_def)
qed (simp_all add: rtmp_state_def no_faults_def idle_os_def rtmp_lib_def not_fed_def sample_state_def initial_state_def)

lemma rtmp_publish:
  assumes "no_faults s" "db s = db (rtmp_state [])"
  shows "\<exists>d t. on_publish sample_crate rtmp_lib i ''abc'' c s = (Inr d, t) \<and> no_faults t \<and> db t = db (rtmp_state []) \<and> rc_source d = Some 1"
proof -
  have "accept_request sample_crate (rc_session c) i = Inr ((), [OutboundResponse [0]])" by (simp add: sample_crate_def)
  then obtain d t where t: "on_publish sample_crate rtmp_lib i ''abc'' c s = (Inr d, t)" "no_faults t"
      "publish_accepted sample_crate rtmp_lib i ''abc'' rtmp_row c s = (Inr d, t)"
    using on_publish_ok assms rtmp_facts(4) by metis
  then show ?thesis
    using keeps_run [OF keeps_db_publish t(3)] publish_accepted_Inr [OF t(3)] assms(2)
    by (simp add: rtmp_row_def rtmp_facts unwrap_or_def)
qed

theorem rtmp_media_reaches_encoder_witness:
  "\<exists>tags. process_results sample_crate rtmp_lib (map RaisedEvent [VideoDataReceived [0x17, 0] 40, AudioDataReceived [0xAF] 43])
      (idle_conn\<lparr>rc_media_tx := Some 5\<rparr>) (rtmp_state []) =
    (Inr (idle_conn\<lparr>rc_media_tx := Some 5\<rparr>), (rtmp_state [])\<lparr>sent := (sent (rtmp_state []))(5 := sent (rtmp_state []) 5 @ tags)\<rparr>)"
proof -
  have "\<forall>ev \<in> set [VideoDataReceived [0x17, 0] 40, AudioDataReceived [0xAF] 43]. \<exists>tt d ts. media_tag ev = Some (tt, d, ts) \<and> length d < 2 ^ 24"
    by simp
  from rtmp_media_reaches_encoder [OF this, of "idle_conn\<lparr>rc_media_tx := Some 5\<rparr>" 5 sample_crate rtmp_lib "rtmp_state []"]
  show ?thesis by auto
qed


theorem percent_publishes_without_a_key_witness:
  "\<exists>d t. on_publish sample_crate rtmp_lib 1 ''%'' idle_conn (rtmp_state []) = (Inr d, t) \<and> rc_media_tx d \<noteq> None"
proof -
  have "sr_kind rtmp_row = [] @ stream_key_label @ ''abc'' @ [CHR 0x22] @ []" by (simp add: rtmp_row_def)
  moreover have "accept_request sample_crate (rc_session idle_conn) 1 = Inr ((), [OutboundResponse [0]])" by (simp add: sample_crate_def)
  ultimately show ?thesis
    using percent_publishes_without_a_key [OF _ _ rtmp_facts(1), of rtmp_row] rtmp_facts(2) by (metis list.set_intros(1))
qed

theorem closed_connection_leaves_nothing_witness:
  "\<exists>t. handle_connection sample_crate rtmp_lib [[9], [1]] (rtmp_state []) = (Inr (), t) \<and> not_fed 1 t"
proof -
  let ?c = "\<lparr>rc_session = (), rc_written = [[3], [9]], rc_stream_key = None, rc_source = None, rc_media_tx = None\<rparr>"
  obtain d t where t: "on_publish sample_crate rtmp_lib 1 ''abc'' ?c (rtmp_state []) = (Inr d, t)" "no_faults t" "rc_source d = Some 1"
    using rtmp_publish [OF rtmp_facts(1) refl] by metis
  obtain u where "(end_publication 1 :: unit io) t = (Inr (), u)" using end_publication_run by blast
  then have "handle_connection sample_crate rtmp_lib [[9], [1]] (rtmp_state []) = (Inr (), u)"
    using rtmp_facts(1) t by (simp add: handle_connection_def sample_crate_def from_crate_def fallible_def drop_fault_none
      handle_session_def write_responses_def session_input_def process_results_def)
  moreover have "only_source rtmp_lib (db (rtmp_state [])) 1"
    using find_key_Some_in
    by (fastforce simp: only_source_def find_stream_key_def rtmp_facts rtmp_row_def unwrap_or_def)
  ultimately show ?thesis using closed_connection_leaves_nothing rtmp_facts(5) by blast
qed

theorem broken_connection_stays_live_witness:
  "\<exists>u. handle_session sample_crate rtmp_lib (Some [1]) [] [] (rtmp_state [None, None, None, None, Some ''reset'']) = (Inl ''reset'', u) \<and>
    source_states u 1 = Some Live"
proof -
  let ?s = "rtmp_state [None, None, None, None, Some ''reset'']"
  let ?run = "on_publish sample_crate rtmp_lib 1 ''abc'' idle_conn ?s"
  have eval: "(case fst ?run of Inl _ \<Rightarrow> False | Inr c \<Rightarrow> rc_source c = Some 1) \<and> next_fault (snd ?run) = Some ''reset''"
  proof -
    have key: "find_stream_key ''abc'' (db ?s) = Some rtmp_row" "parse_uuid rtmp_lib ''1'' = Some 1" by (rule rtmp_facts)+
    have "faults (sys ?s) = [None, None, None, None, Some ''reset'']" "settings (db ?s) = (\<lambda>_. None)"
        "source_normalizers ?s = (\<lambda>_. None)" "media_relays ?s = (\<lambda>_. None)"
      by (simp_all add: rtmp_state_def empty_db_def sample_state_def initial_state_def)
    then show ?thesis
      using key
      by (simp add: on_publish_def publish_accepted_def open_media_def start_normalizer_def load_output_config_def
        load_setting_def read_setting_def ok_flatten_def answer_request_def from_crate_def write_responses_def write_all_def
        sql_read_def fallible_def next_fault_def andThen_def map_err_def attempt_def spawn_child_def
        new_channel_def get_or_create_media_relay_def reg_replace_def reg_stop_def reg_take_def kill_opt_def spawn_task_def
        announce_def ws_send_def set_source_state_def sample_crate_def rtmp_row_def unwrap_or_def Let_def set_sys_def drop_fault_def)
  qed
  obtain c t where run: "?run = (Inr c, t)" "rc_source c = Some 1" "next_fault t = Some ''reset''"
    using eval by (cases ?run) (auto split: sum.splits)
  from broken_connection_stays_live [of sample_crate "()" "[1]" "()" 1 "''abc''" rtmp_lib "[]" ?s c t "''reset''" "[]"] run
  show ?thesis by (auto simp: sample_crate_def idle_conn_def)
qed

theorem first_publisher_cuts_the_second_witness:
  "\<exists>d1 s1 d2 s2 e s3. on_publish sample_crate rtmp_lib 1 ''abc'' idle_conn (rtmp_state []) = (Inr d1, s1) \<and>
    on_publish sample_crate rtmp_lib 1 ''abc'' idle_conn s1 = (Inr d2, s2) \<and> rc_media_tx d2 \<noteq> None \<and>
    on_finished d1 s2 = (Inr e, s3) \<and> not_fed 1 s3"
proof -
  obtain d1 s1 where d1: "on_publish sample_crate rtmp_lib 1 ''abc'' idle_conn (rtmp_state []) = (Inr d1, s1)" "no_faults s1"
      "db s1 = db (rtmp_state [])" "rc_source d1 = Some 1"
    using rtmp_publish [OF rtmp_facts(1) refl] by blast
  obtain d2 s2 where d2: "on_publish sample_crate rtmp_lib 1 ''abc'' idle_conn s1 = (Inr d2, s2)"
    using rtmp_publish [OF d1(2,3)] by blast
  show ?thesis using first_publisher_cuts_the_second [OF d1(1) d2] d1 d2 by force
qed

end
