(* ===== verification/Auth.thy ===== *)
theory Auth
  imports Sample "HOL-Library.List_Lexorder" "HOL-Library.Char_ord"
begin

text \<open>
  Who may do what: the authentication of requests (\<open>auth.rs\<close>), log-in, users and
  their passwords (\<open>routes/auth.rs\<close>), API keys (\<open>routes/keys.rs\<close>), the first
  set-up (\<open>routes/setup.rs\<close>), the WebSocket (\<open>routes/ws.rs\<close>) and the table of
  routes with what guards each of them (\<open>routes/mod.rs\<close>). Hashes are those of
  the sha2 and bcrypt crates, random texts draw from the operating system.
\<close>

section \<open>auth.rs\<close>

text \<open>What the middleware reads of a request: a header by its name, when its value
  is text, and a parameter of the query.\<close>

record request =
  rq_header :: "string \<Rightarrow> string option"
  rq_param :: "string \<Rightarrow> string option"

definition hash_key :: "lib \<Rightarrow> string \<Rightarrow> string" where
  "hash_key L key = sha256_hex L key"

definition hash_password :: "lib \<Rightarrow> string \<Rightarrow> string io" where
  "hash_password L password = fallible (\<lambda>s. (Inr (bcrypt_hash L (rands (sys s)) password),
     set_sys (\<lambda>o1. o1\<lparr>rands := Suc (rands o1)\<rparr>) s))"

definition verify_password :: "lib \<Rightarrow> string \<Rightarrow> string \<Rightarrow> bool" where
  "verify_password L password h = (case bcrypt_verify L password h of None \<Rightarrow> False | Some b \<Rightarrow> b)"

definition generate_session_token :: "lib \<Rightarrow> (app, 'e, string) prog" where
  "generate_session_token L = random_token L 36 48"

definition generate_api_key :: "lib \<Rightarrow> (app, 'e, string) prog" where
  "generate_api_key L = andThen (random_token L 36 32) (\<lambda>chars. ok (''mxs_'' @ chars))"

definition validate_system_token :: "lib \<Rightarrow> string \<Rightarrow> string \<Rightarrow> bool" where
  "validate_system_token L system_token_hash provided = (hash_key L provided = system_token_hash)"

text \<open>A session that has not expired at the time text \<open>t\<close>.\<close>

definition session_open :: "string \<Rightarrow> session_row \<Rightarrow> string \<Rightarrow> bool" where
  "session_open token r t \<longleftrightarrow> se_token r = token \<and> t < se_expires_at r"

definition validate_session :: "lib \<Rightarrow> string \<Rightarrow> (app, 'e, bool) prog" where
  "validate_session L token = andThen now (\<lambda>t.
     andThen (or_else 0 (sql_read (\<lambda>d. count_where (\<lambda>r. session_open token r (sql_datetime L t)) (sessions d))))
       (\<lambda>n. ok (0 < n)))"

definition validate_api_key :: "lib \<Rightarrow> string \<Rightarrow> (app, 'e, bool) prog" where
  "validate_api_key L key =
     andThen (or_else 0 (sql_read (\<lambda>d. count_where (\<lambda>r. kr_key_hash r = hash_key L key) (api_keys d))))
       (\<lambda>n. ok (0 < n))"

definition extract_bearer_token :: "request \<Rightarrow> string option" where
  "extract_bearer_token r = Option.bind (rq_header r ''Authorization'') (strip_prefix ''Bearer '')"

text \<open>One check of the middleware: when the credential is there and valid the
  request runs, else the next check is made.\<close>

definition or_check :: "string option \<Rightarrow> (string \<Rightarrow> (app, 'e, bool) prog) \<Rightarrow> (app, 'e, bool) prog \<Rightarrow> (app, 'e, bool) prog" where
  "or_check cred valid next_check = (case cred of None \<Rightarrow> next_check
     | Some c \<Rightarrow> andThen (valid c) (\<lambda>b. if b then ok True else next_check))"

text \<open>\<open>auth\_middleware\<close>: whether the request is passed on (else 401).\<close>

definition auth_middleware :: "lib \<Rightarrow> request \<Rightarrow> (app, 'e, bool) prog" where
  "auth_middleware L r =
    andThen (gets system_token) (\<lambda>sys_token.
    if (case (rq_header r ''X-API-Key'', sys_token) of (Some key, Some h) \<Rightarrow> validate_system_token L h key | _ \<Rightarrow> False)
    then ok True
    else or_check (extract_bearer_token r) (validate_session L)
        (or_check (rq_param r ''token'') (validate_session L)
        (or_check (rq_header r ''X-API-Key'') (validate_api_key L)
        (or_check (rq_param r ''key'') (validate_api_key L)
        (ok False)))))"

definition management_auth :: "lib \<Rightarrow> request \<Rightarrow> (app, 'e, bool) prog" where
  "management_auth L r = gets (\<lambda>s.
     case (rq_header r ''X-Management-Token'', system_token s) of
       (Some provided, Some expected) \<Rightarrow> validate_system_token L expected provided
     | _ \<Rightarrow> False)"

section \<open>routes/auth.rs\<close>

definition find_user :: "(user_row \<Rightarrow> bool) \<Rightarrow> user_row option io" where
  "find_user P = sql_read (\<lambda>d. find P (users d))"

record login_response =
  lo_token :: string
  lo_username :: string
  lo_role :: string
  lo_expires_at :: string

text \<open>A session refers to a user, and its token is not taken (the foreign key and
  UNIQUE of the table).\<close>

definition insert_session :: "session_row \<Rightarrow> db \<Rightarrow> db option" where
  "insert_session r d =
    (if se_user_id r \<notin> ur_id ` set (users d) \<or> se_token r \<in> se_token ` set (sessions d) then None
     else map_option (\<lambda>rs. d\<lparr>sessions := rs\<rparr>) (insert_row se_id r (sessions d)))"

definition session_lifetime :: nat where
  "session_lifetime = from_secs (30 * 24 * 60 * 60)"

definition login :: "lib \<Rightarrow> string \<Rightarrow> string \<Rightarrow> login_response handler" where
  "login L username password =
    andThen (q (find_user (\<lambda>r. ur_username r = username))) (\<lambda>row.
    andThen (need (Unauthorized ''invalid credentials'') row) (\<lambda>user.
    then_do (check (verify_password L password (ur_password_hash user)) (Unauthorized ''invalid credentials''))
   (andThen (generate_session_token L) (\<lambda>token.
    andThen (fresh_uuid L) (\<lambda>i.
    andThen now (\<lambda>t.
    (let expires = sql_datetime L (t + session_lifetime) in
     then_do (q (sql_try (insert_session
       \<lparr>se_id = show_uuid L i, se_user_id = ur_id user, se_token = token, se_expires_at = expires\<rparr>)))
     (ok \<lparr>lo_token = token, lo_username = ur_username user, lo_role = ur_role user, lo_expires_at = expires\<rparr>))))))))"

definition logout :: "string \<Rightarrow> unit handler" where
  "logout token = q (sql_exec (\<lambda>d. d\<lparr>sessions := delete_where (\<lambda>r. se_token r = token) (sessions d)\<rparr>))"

text \<open>The user of an open session (the JOIN of sessions and users).\<close>

definition session_user :: "string \<Rightarrow> string \<Rightarrow> db \<Rightarrow> user_row option" where
  "session_user token t d =
    List.find (\<lambda>u. \<exists>r \<in> set (sessions d). session_open token r t \<and> se_user_id r = ur_id u) (users d)"

definition current_user :: "lib \<Rightarrow> request \<Rightarrow> mux_error \<Rightarrow> mux_error \<Rightarrow> user_row handler" where
  "current_user L r no_token no_session =
    andThen (need no_token (extract_bearer_token r)) (\<lambda>token.
    andThen now (\<lambda>t.
    andThen (q (sql_read (session_user token (sql_datetime L t)))) (need no_session)))"

definition me :: "lib \<Rightarrow> request \<Rightarrow> (string \<times> string \<times> string) handler" where
  "me L r = andThen (current_user L r (Unauthorized ''no session token'') (Unauthorized ''invalid or expired session''))
     (\<lambda>u. ok (ur_id u, ur_username u, ur_role u))"

text \<open>\<open>body\<close> is the body of the request: unreadable, not the JSON it should be, or
  the current and the new password.\<close>

datatype password_body = Unreadable | NotJson | Passwords string string

definition change_password :: "lib \<Rightarrow> request \<Rightarrow> password_body \<Rightarrow> unit handler" where
  "change_password L r body =
    andThen (current_user L r (Unauthorized ''no session'') (Unauthorized ''invalid session'')) (\<lambda>session.
    case body of
      Unreadable \<Rightarrow> throw (BadRequest ''invalid body'')
    | NotJson \<Rightarrow> throw (BadRequest ''invalid json'')
    | Passwords current new_password \<Rightarrow>
       then_do (check (6 \<le> length new_password) (BadRequest ''password must be at least 6 characters''))
      (andThen (q (find_user (\<lambda>u. ur_id u = ur_id session))) (\<lambda>row.
       andThen (need (Database ''no rows returned'') row) (\<lambda>user.
       then_do (check (verify_password L current (ur_password_hash user)) (BadRequest ''current password is incorrect''))
      (andThen (map_err Internal (hash_password L new_password)) (\<lambda>h.
       q (sql_exec (\<lambda>d. d\<lparr>users := update_where (\<lambda>u. ur_id u = ur_id user) (\<lambda>u. u\<lparr>ur_password_hash := h\<rparr>) (users d)\<rparr>))))))))"

record user_response =
  us_id :: string
  us_username :: string
  us_role :: string
  us_created_at :: string

definition user_answer :: "user_row \<Rightarrow> user_response" where
  "user_answer r = \<lparr>us_id = ur_id r, us_username = ur_username r, us_role = ur_role r, us_created_at = ur_created_at r\<rparr>"

definition list_users :: "user_response list handler" where
  "list_users = andThen (q (sql_read (\<lambda>d. sort_key ur_created_at (users d)))) (\<lambda>rs. ok (map user_answer rs))"

text \<open>User names are UNIQUE, which an INSERT and an UPDATE can break.\<close>

definition insert_user :: "user_row \<Rightarrow> db \<Rightarrow> db option" where
  "insert_user r d = (if ur_username r \<in> ur_username ` set (users d) then None
     else map_option (\<lambda>rs. d\<lparr>users := rs\<rparr>) (insert_row ur_id r (users d)))"

definition rename_user :: "string \<Rightarrow> (user_row \<Rightarrow> user_row) \<Rightarrow> string \<Rightarrow> db \<Rightarrow> db option" where
  "rename_user i f name d = (if \<exists>r \<in> set (users d). ur_username r = name \<and> ur_id r \<noteq> i then None
     else Some (d\<lparr>users := update_where (\<lambda>r. ur_id r = i) f (users d)\<rparr>))"

definition role_ok :: "string \<Rightarrow> bool" where
  "role_ok role \<longleftrightarrow> role = ''admin'' \<or> role = ''write'' \<or> role = ''read''"

definition create_user :: "lib \<Rightarrow> string \<Rightarrow> string \<Rightarrow> string \<Rightarrow> user_response handler" where
  "create_user L username password role =
    then_do (check (trim username \<noteq> []) (BadRequest ''username required''))
   (then_do (check (6 \<le> length password) (BadRequest ''password must be at least 6 characters''))
   (then_do (check (role_ok role) (BadRequest ''role must be admin, write, or read''))
   (andThen (q (find_user (\<lambda>r. ur_username r = username))) (\<lambda>existing.
    then_do (check (existing = None) (BadRequest ''username already exists''))
   (andThen (fresh_uuid L) (\<lambda>i.
    andThen (map_err Internal (hash_password L password)) (\<lambda>h.
    andThen now (\<lambda>t.
    then_do (q (sql_try (insert_user \<lparr>ur_id = show_uuid L i, ur_username = username, ur_password_hash = h,
       ur_role = role, ur_created_at = sql_datetime L t\<rparr>)))
   (andThen now (\<lambda>t.
    ok \<lparr>us_id = show_uuid L i, us_username = username, us_role = role, us_created_at = sql_datetime L t\<rparr>))))))))))"

definition update_user :: "lib \<Rightarrow> string \<Rightarrow> string option \<Rightarrow> string option \<Rightarrow> string option \<Rightarrow> user_response handler" where
  "update_user L i username password role =
    andThen (q (find_user (\<lambda>r. ur_id r = i))) (\<lambda>row.
    andThen (need (NotFound (''user '' @ i)) row) (\<lambda>existing.
    (let name = unwrap_or (ur_username existing) username;
         new_role = unwrap_or (ur_role existing) role
     in then_do (check (role_ok new_role) (BadRequest ''role must be admin, write, or read''))
       (then_do (case password of
           Some pw \<Rightarrow> then_do (check (6 \<le> length pw) (BadRequest ''password must be at least 6 characters''))
             (andThen (map_err Internal (hash_password L pw)) (\<lambda>h.
              q (sql_try (rename_user i (\<lambda>r. r\<lparr>ur_username := name, ur_password_hash := h, ur_role := new_role\<rparr>) name))))
         | None \<Rightarrow> q (sql_try (rename_user i (\<lambda>r. r\<lparr>ur_username := name, ur_role := new_role\<rparr>) name)))
        (ok \<lparr>us_id = i, us_username = name, us_role = new_role, us_created_at = ur_created_at existing\<rparr>)))))"

definition admin_count :: "db \<Rightarrow> nat" where
  "admin_count d = count_where (\<lambda>r. ur_role r = ''admin'') (users d)"

definition delete_user :: "string \<Rightarrow> unit handler" where
  "delete_user i =
    andThen (q (sql_read admin_count)) (\<lambda>admins.
    andThen (q (find_user (\<lambda>r. ur_id r = i))) (\<lambda>row.
    andThen (need (NotFound (''user '' @ i)) row) (\<lambda>user.
    then_do (check (\<not> (ur_role user = ''admin'' \<and> admins \<le> 1)) (BadRequest ''cannot delete the last admin user''))
   (then_do (q (sql_exec (\<lambda>d. d\<lparr>sessions := delete_where (\<lambda>r. se_user_id r = i) (sessions d)\<rparr>)))
            (q (sql_exec (delete_user_row i)))))))"

section \<open>routes/keys.rs\<close>

text \<open>The hash of a key is UNIQUE.\<close>

definition insert_key :: "key_row \<Rightarrow> db \<Rightarrow> db option" where
  "insert_key r d = (if kr_key_hash r \<in> kr_key_hash ` set (api_keys d) then None
     else map_option (\<lambda>rs. d\<lparr>api_keys := rs\<rparr>) (insert_row kr_id r (api_keys d)))"

record key_response =
  kp_id :: string
  kp_name :: string
  kp_scopes :: "string list"
  kp_created_at :: string
  kp_last_used_at :: "string option"

definition list_keys :: "lib \<Rightarrow> key_response list handler" where
  "list_keys L = andThen (q (sql_read api_keys)) (\<lambda>rs. ok (map (\<lambda>r.
     \<lparr>kp_id = kr_id r, kp_name = kr_name r, kp_scopes = unwrap_or [] (strings_of_json L (kr_scopes r)),
      kp_created_at = kr_created_at r, kp_last_used_at = kr_last_used_at r\<rparr>) rs))"

record created_key =
  ck_id :: string
  ck_name :: string
  ck_key :: string
  ck_scopes :: "string list"

definition add_key :: "lib \<Rightarrow> string \<Rightarrow> string \<Rightarrow> string \<Rightarrow> string \<Rightarrow> unit handler" where
  "add_key L i name h scopes_json = andThen now (\<lambda>t. q (sql_try (insert_key
     \<lparr>kr_id = i, kr_name = name, kr_key_hash = h, kr_scopes = scopes_json,
      kr_created_at = sql_datetime L t, kr_last_used_at = None\<rparr>)))"

definition create_key :: "lib \<Rightarrow> string \<Rightarrow> string list \<Rightarrow> created_key handler" where
  "create_key L name scopes =
    andThen (fresh_uuid L) (\<lambda>i.
    andThen (generate_api_key L) (\<lambda>key.
    then_do (add_key L (show_uuid L i) name (hash_key L key) (strings_to_json L scopes))
    (ok \<lparr>ck_id = show_uuid L i, ck_name = name, ck_key = key, ck_scopes = scopes\<rparr>)))"

definition delete_key :: "string \<Rightarrow> unit handler" where
  "delete_key i =
    andThen (q (sql_count (\<lambda>d. count_where (\<lambda>r. kr_id r = i) (api_keys d))
      (\<lambda>d. d\<lparr>api_keys := delete_where (\<lambda>r. kr_id r = i) (api_keys d)\<rparr>))) (\<lambda>affected.
    check (affected \<noteq> 0) (NotFound (''api key '' @ i)))"

section \<open>routes/setup.rs\<close>

definition setup_status :: "bool handler" where
  "setup_status = andThen (q (sql_read (\<lambda>d. length (users d)))) (\<lambda>n. ok (n = 0))"

record init_response =
  in_username :: string
  in_api_key :: string

definition setup_init :: "lib \<Rightarrow> string option \<Rightarrow> init_response handler" where
  "setup_init L instance_name =
    andThen (q (sql_read (\<lambda>d. length (users d)))) (\<lambda>n.
    then_do (check (n = 0) (BadRequest ''setup already completed''))
   (andThen (fresh_uuid L) (\<lambda>i.
    andThen (map_err (\<lambda>e. Internal (''password hash failed: '' @ e)) (hash_password L ''admin'')) (\<lambda>h.
    andThen now (\<lambda>t.
    then_do (q (sql_try (insert_user \<lparr>ur_id = show_uuid L i, ur_username = ''admin'', ur_password_hash = h,
       ur_role = ''admin'', ur_created_at = sql_datetime L t\<rparr>)))
   (andThen (generate_api_key L) (\<lambda>key.
    andThen (fresh_uuid L) (\<lambda>k.
    then_do (add_key L (show_uuid L k) ''admin'' (hash_key L key) (strings_to_json L [''read'', ''control'', ''admin'']))
   (then_do (case instance_name of None \<Rightarrow> ok ()
      | Some name \<Rightarrow> q (sql_exec (put_setting ''instance_name'' name)))
    (ok \<lparr>in_username = ''admin'', in_api_key = key\<rparr>))))))))))"

section \<open>routes/ws.rs\<close>

definition validate_ws_auth :: "lib \<Rightarrow> string option \<Rightarrow> string option \<Rightarrow> (app, 'e, bool) prog" where
  "validate_ws_auth L api_key session_token =
    or_check session_token (validate_session L)
   (or_check api_key (validate_api_key L) (ok False))"

datatype ws_input = WsEvent ws_event | WsLagged | WsClosed | WsClientClosed | WsClientOther

text \<open>The loop sends the events until a send fails (after \<open>n\<close> messages), the channel
  closes or the client leaves. Before it, the state of the pipeline and of
  every source are sent, whose failures are ignored; \<open>order\<close> is the order in
  which the map of source states is iterated. Nothing is sent to a client
  without a valid credential but the request to close (\<open>None\<close>).\<close>

fun ws_loop :: "nat \<Rightarrow> ws_input list \<Rightarrow> ws_event list" where
  "ws_loop n [] = []"
| "ws_loop n (WsEvent e # es) = (case n of 0 \<Rightarrow> [] | Suc m \<Rightarrow> e # ws_loop m es)"
| "ws_loop n (WsLagged # es) = ws_loop n es"
| "ws_loop n (WsClosed # es) = []"
| "ws_loop n (WsClientClosed # es) = []"
| "ws_loop n (WsClientOther # es) = ws_loop n es"

definition ws_snapshot :: "uuid list \<Rightarrow> app \<Rightarrow> ws_event list" where
  "ws_snapshot order s = EvPipelineState (pipe_state s) #
     List.map_filter (\<lambda>i. map_option (EvSourceState i) (source_states s i)) order"

definition handle_socket ::
    "lib \<Rightarrow> string option \<Rightarrow> string option \<Rightarrow> uuid list \<Rightarrow> nat \<Rightarrow> ws_input list \<Rightarrow> (app, 'e, ws_event list option) prog" where
  "handle_socket L api_key session_token order n es =
    andThen (validate_ws_auth L api_key session_token) (\<lambda>valid.
    if \<not> valid then ok None
    else gets (\<lambda>s. (let first = ws_snapshot order s
      in Some (take n first @ ws_loop (n - length first) es))))"

section \<open>routes/mod.rs\<close>

datatype http_method = GET | POST | PUT | DELETE

text \<open>What guards a route: \<open>auth\_middleware\<close>, nothing but what the handler does
  itself, or \<open>management\_auth\<close>.\<close>

datatype guard = Authenticated | Open | Management

definition authenticated_routes :: "(string \<times> http_method list) list" where
  "authenticated_routes =
    [(''/sources'', [GET, POST]), (''/sources/from-asset'', [POST]), (''/sources/{id}'', [GET, PUT, DELETE]),
     (''/scenes'', [GET, POST]), (''/scenes/{id}'', [GET, PUT, DELETE]), (''/scenes/{id}/activate'', [POST]),
     (''/scenes/{id}/layers'', [POST]), (''/scenes/{scene_id}/layers/{layer_id}'', [PUT, DELETE]),
     (''/assets'', [GET]), (''/assets/{id}'', [GET, PUT, DELETE]),
     (''/folders'', [GET, POST]), (''/folders/{id}'', [PUT, DELETE]),
     (''/library'', [GET, POST]), (''/library/{id}'', [GET, PUT, DELETE]),
     (''/stingers'', [GET, POST]), (''/stingers/{id}'', [GET, PUT, DELETE]),
     (''/transition/stinger'', [POST]),
     (''/destinations'', [GET, POST]), (''/destinations/{id}'', [PUT, DELETE]),
     (''/destinations/{id}/enable'', [POST]), (''/destinations/{id}/disable'', [POST]),
     (''/output/config'', [GET, PUT]), (''/failover'', [GET, PUT]),
     (''/schedules'', [GET, POST]), (''/schedules/{id}'', [PUT, DELETE]), (''/schedules/{id}/run'', [POST]),
     (''/schedules/stop'', [POST]), (''/settings/timezone'', [GET, PUT]), (''/webrtc/config'', [GET, PUT]),
     (''/output/stats'', [GET]), (''/channel'', [GET, PUT]), (''/channel/regenerate-token'', [POST]),
     (''/channel/logo'', [POST, DELETE]), (''/channel/password'', [PUT]), (''/broadcast/config'', [GET, PUT]),
     (''/audio/routing'', [GET, PUT]), (''/audio/source'', [POST]), (''/audio/follows-video'', [POST]),
     (''/audio/mute/{source_id}'', [POST]), (''/audio/unmute/{source_id}'', [POST]),
     (''/program'', [GET]), (''/preview/{source_id}'', [POST]), (''/cut/{source_id}'', [POST]), (''/auto'', [POST]),
     (''/stream/start'', [POST]), (''/stream/stop'', [POST]),
     (''/record/start'', [POST]), (''/record/stop'', [POST]), (''/record/status'', [GET]),
     (''/guests/invite'', [POST]), (''/guests'', [GET]), (''/guests/{id}'', [DELETE]),
     (''/status'', [GET]), (''/keys'', [GET, POST]), (''/keys/{id}'', [DELETE]),
     (''/auth/me'', [GET]), (''/auth/logout'', [POST]), (''/auth/change-password'', [POST]),
     (''/users'', [GET, POST]), (''/users/{id}'', [PUT, DELETE])]"

definition open_routes :: "(string \<times> http_method list) list" where
  "open_routes =
    [(''/ws'', [GET]), (''/sources/{id}/preview'', [GET]), (''/assets/upload'', [POST]),
     (''/assets/{id}/file'', [GET]), (''/assets/{id}/thumbnail'', [GET]), (''/library/upload'', [POST]),
     (''/auth/login'', [POST]), (''/setup/status'', [GET]), (''/setup/init'', [POST]),
     (''/public/channel/{token}'', [GET]), (''/public/channel/{token}/unlock'', [POST]),
     (''/public/channel/{token}/index.m3u8'', [GET]), (''/public/channel/{token}/logo'', [GET]),
     (''/public/channel/{token}/{segment}'', [GET]),
     (''/guest/{token}'', [GET]), (''/guest/{token}/whip'', [POST]),
     (''/whip'', [POST]), (''/whip/{session}'', [DELETE])]"

definition management_routes :: "(string \<times> http_method list) list" where
  "management_routes =
    [(''/health'', [GET]), (''/stats'', [GET]), (''/connectivity'', [GET]), (''/restart'', [POST]),
     (''/config'', [GET, PUT])]"

text \<open>The routes under \<open>/api/v1\<close>; the management group exists only with a
  management token.\<close>

definition api_routes :: "app \<Rightarrow> (string \<times> http_method list \<times> guard) list" where
  "api_routes s =
    map (\<lambda>(p, ms). (p, ms, Authenticated)) authenticated_routes @
    map (\<lambda>(p, ms). (p, ms, Open)) open_routes @
    (if system_token s \<noteq> None then map (\<lambda>(p, ms). (''/admin'' @ p, ms, Management)) management_routes else [])"

definition admitted :: "lib \<Rightarrow> guard \<Rightarrow> request \<Rightarrow> (app, 'e, bool) prog" where
  "admitted L g r = (case g of
      Authenticated \<Rightarrow> auth_middleware L r
    | Open \<Rightarrow> ok True
    | Management \<Rightarrow> management_auth L r)"

section \<open>Which requests are let through\<close>

text \<open>What a check looks at, and the programs that decide a condition on it: they
  answer yes only when it holds, and exactly then when no call fails.\<close>

definition auth_view :: "app \<Rightarrow> db \<times> instant \<times> string option" where
  "auth_view s = (db s, clock (sys s), system_token s)"

definition decides :: "(db \<times> instant \<times> string option \<Rightarrow> bool) \<Rightarrow> (app, 'e, bool) prog \<Rightarrow> bool" where
  "decides P m \<longleftrightarrow> (\<forall>s. \<exists>b t. m s = (Inr b, t) \<and> auth_view t = auth_view s \<and> (b \<longrightarrow> P (auth_view s)) \<and>
     (no_faults s \<longrightarrow> b = P (auth_view s) \<and> no_faults t))"

lemma decides_ok: "decides (\<lambda>_. b) (ok b)"
  by (simp add: decides_def)

lemma decides_count:
  fixes n :: "db \<Rightarrow> nat"
  shows "decides (\<lambda>v. 0 < n (fst v)) (andThen (or_else 0 (sql_read n)) (\<lambda>k. ok (0 < k)) :: (app, 'e, bool) prog)"
proof -
  have "\<exists>b t. (andThen (or_else 0 (sql_read n)) (\<lambda>k. ok (0 < k)) :: (app, 'e, bool) prog) s = (Inr b, t) \<and> auth_view t = auth_view s \<and>
    (b \<longrightarrow> 0 < n (db s)) \<and> (no_faults s \<longrightarrow> b = (0 < n (db s)) \<and> no_faults t)" for s
  proof (cases "next_fault s")
    case (Some e)
    then have "\<not> no_faults s" by auto
    then show ?thesis
      using Some by (simp add: andThen_def or_else_def sql_read_def fallible_def auth_view_def drop_fault_def set_sys_def) blast
  next
    case None
    then show ?thesis
      by (simp add: andThen_def or_else_def sql_read_def fallible_def auth_view_def drop_fault_def set_sys_def no_faults_def)
  qed
  then show ?thesis by (simp add: decides_def auth_view_def)
qed

lemma decides_or_check:
  assumes "\<And>c. decides (P c) (valid c)" "decides Q m"
  shows "decides (\<lambda>v. (\<exists>c. cred = Some c \<and> P c v) \<or> Q v) (or_check cred valid m)"
proof (cases cred)
  case (Some c)
  show ?thesis
    unfolding decides_def
  proof
    fix s
    obtain b t where b: "valid c s = (Inr b, t)" "auth_view t = auth_view s" "b \<longrightarrow> P c (auth_view s)"
        "no_faults s \<longrightarrow> b = P c (auth_view s) \<and> no_faults t"
      using assms(1) [of c, unfolded decides_def, rule_format, of s] by blast
    obtain d u where d: "m t = (Inr d, u)" "auth_view u = auth_view t" "d \<longrightarrow> Q (auth_view t)"
        "no_faults t \<longrightarrow> d = Q (auth_view t) \<and> no_faults u"
      using assms(2) [unfolded decides_def, rule_format, of t] by blast
    have run: "or_check cred valid m s = (if b then (Inr True, t) else (Inr d, u))"
      using b(1) d(1) by (simp add: or_check_def Some)
    show "\<exists>b t. or_check cred valid m s = (Inr b, t) \<and> auth_view t = auth_view s \<and>
        (b \<longrightarrow> (\<exists>c. cred = Some c \<and> P c (auth_view s)) \<or> Q (auth_view s)) \<and>
        (no_faults s \<longrightarrow> b = ((\<exists>c. cred = Some c \<and> P c (auth_view s)) \<or> Q (auth_view s)) \<and> no_faults t)"
    proof (cases b)
      case True
      then show ?thesis
        using b run Some by (intro exI [of _ True] exI [of _ t]) simp
    next
      case False
      then show ?thesis
        using b d run Some by (intro exI [of _ d] exI [of _ u]) simp
    qed
  qed
qed (use assms(2) in \<open>simp add: or_check_def\<close>)

definition has_session :: "lib \<Rightarrow> string \<Rightarrow> db \<times> instant \<times> string option \<Rightarrow> bool" where
  "has_session L token v \<longleftrightarrow> (\<exists>r \<in> set (sessions (fst v)). session_open token r (sql_datetime L (fst (snd v))))"

definition has_key :: "lib \<Rightarrow> string \<Rightarrow> db \<times> instant \<times> string option \<Rightarrow> bool" where
  "has_key L key v \<longleftrightarrow> hash_key L key \<in> kr_key_hash ` set (api_keys (fst v))"

lemma count_pos: "0 < count_where P rs \<longleftrightarrow> (\<exists>r \<in> set rs. P r)"
  by (auto simp: count_where_def filter_empty_conv)

lemma decides_session: "decides (has_session L token) (validate_session L token :: (app, 'e, bool) prog)"
  unfolding decides_def
proof
  fix s :: app
  let ?n = "\<lambda>d. count_where (\<lambda>r. session_open token r (sql_datetime L (clock (sys s)))) (sessions d)"
  have eq: "0 < ?n (fst (auth_view s)) \<longleftrightarrow> has_session L token (auth_view s)"
    by (simp add: has_session_def count_pos auth_view_def)
  have run: "(validate_session L token :: (app, 'e, bool) prog) s =
      (andThen (or_else 0 (sql_read ?n)) (\<lambda>k. ok (0 < k)) :: (app, 'e, bool) prog) s"
    by (simp add: validate_session_def now_def)
  show "\<exists>b t. (validate_session L token :: (app, 'e, bool) prog) s = (Inr b, t) \<and> auth_view t = auth_view s \<and>
      (b \<longrightarrow> has_session L token (auth_view s)) \<and>
      (no_faults s \<longrightarrow> b = has_session L token (auth_view s) \<and> no_faults t)"
    unfolding run eq [symmetric]
    by (rule decides_count [of ?n, unfolded decides_def, rule_format])
qed

lemma decides_key: "decides (has_key L key) (validate_api_key L key)"
proof -
  have "has_key L key = (\<lambda>v. 0 < (\<lambda>d. count_where (\<lambda>r. kr_key_hash r = hash_key L key) (api_keys d)) (fst v))"
    by (rule ext) (auto simp: has_key_def count_pos image_iff eq_commute [of "hash_key L key"])
  then show ?thesis unfolding validate_api_key_def using decides_count by simp
qed

text \<open>The credentials a request can carry.\<close>

definition credential :: "lib \<Rightarrow> request \<Rightarrow> db \<times> instant \<times> string option \<Rightarrow> bool" where
  "credential L r v \<longleftrightarrow>
     (\<exists>key. rq_header r ''X-API-Key'' = Some key \<and> snd (snd v) = Some (hash_key L key)) \<or>
     (\<exists>token. extract_bearer_token r = Some token \<and> has_session L token v) \<or>
     (\<exists>token. rq_param r ''token'' = Some token \<and> has_session L token v) \<or>
     (\<exists>key. rq_header r ''X-API-Key'' = Some key \<and> has_key L key v) \<or>
     (\<exists>key. rq_param r ''key'' = Some key \<and> has_key L key v)"

lemma middleware_decides: "decides (credential L r) (auth_middleware L r :: (app, 'e, bool) prog)"
proof -
  let ?m = "or_check (extract_bearer_token r) (validate_session L)
        (or_check (rq_param r ''token'') (validate_session L)
        (or_check (rq_header r ''X-API-Key'') (validate_api_key L)
        (or_check (rq_param r ''key'') (validate_api_key L)
        (ok False)))) :: (app, 'e, bool) prog"
  let ?Q = "\<lambda>v. (\<exists>c. extract_bearer_token r = Some c \<and> has_session L c v) \<or>
    (\<exists>c. rq_param r ''token'' = Some c \<and> has_session L c v) \<or>
    (\<exists>c. rq_header r ''X-API-Key'' = Some c \<and> has_key L c v) \<or>
    (\<exists>c. rq_param r ''key'' = Some c \<and> has_key L c v) \<or> False"
  have m: "decides ?Q ?m"
    by (intro decides_or_check decides_session decides_key decides_ok)
  have "\<exists>b t. (auth_middleware L r :: (app, 'e, bool) prog) s = (Inr b, t) \<and> auth_view t = auth_view s \<and>
      (b \<longrightarrow> credential L r (auth_view s)) \<and> (no_faults s \<longrightarrow> b = credential L r (auth_view s) \<and> no_faults t)" for s
  proof (cases "\<exists>key. rq_header r ''X-API-Key'' = Some key \<and> system_token s = Some (hash_key L key)")
    case True
    then show ?thesis
      by (auto simp: auth_middleware_def validate_system_token_def credential_def auth_view_def)
  next
    case False
    then have "(auth_middleware L r :: (app, 'e, bool) prog) s = ?m s"
      by (auto simp: auth_middleware_def validate_system_token_def split: option.split)
    moreover have "credential L r (auth_view s) = ?Q (auth_view s)"
      using False by (auto simp: credential_def auth_view_def)
    moreover obtain b t where "?m s = (Inr b, t)" "auth_view t = auth_view s" "b \<longrightarrow> ?Q (auth_view s)"
        "no_faults s \<longrightarrow> b = ?Q (auth_view s) \<and> no_faults t"
      using m unfolding decides_def by blast
    ultimately show ?thesis by (intro exI [of _ b] exI [of _ t]) simp
  qed
  then show ?thesis unfolding decides_def by blast
qed

text \<open>C27: A request is passed on only with one of the five credentials (the hash of
  its key is the portal's, its bearer or query token is an open session, its
  header or query key is stored), whatever calls fail, and with no call
  failing exactly then; the check changes nothing it looks at.\<close>
theorem let_through_iff_credential:
  "\<exists>b t. (auth_middleware L r :: (app, 'e, bool) prog) s = (Inr b, t) \<and> auth_view t = auth_view s \<and>
    (b \<longrightarrow> credential L r (auth_view s)) \<and> (no_faults s \<longrightarrow> b = credential L r (auth_view s))"
  using middleware_decides [of L r] unfolding decides_def by blast

section \<open>Log-in\<close>

text \<open>What chrono and SQLite promise of the texts of instants (to the second): they
  are ordered as their instants, up to the bound \<open>b\<close>.\<close>

definition datetime_ordered :: "lib \<Rightarrow> instant \<Rightarrow> bool" where
  "datetime_ordered L b \<longleftrightarrow> (\<forall>t u. u < b \<longrightarrow>
     (t + from_secs 1 \<le> u \<longrightarrow> sql_datetime L t < sql_datetime L u) \<and>
     (t \<le> u \<longrightarrow> sql_datetime L t \<le> sql_datetime L u))"

text \<open>A request whose only credential is a bearer token, or the key in its header.\<close>

definition only_bearer :: "request \<Rightarrow> string \<Rightarrow> bool" where
  "only_bearer r token \<longleftrightarrow> extract_bearer_token r = Some token \<and> rq_header r ''X-API-Key'' = None \<and>
     rq_param r ''token'' = None \<and> rq_param r ''key'' = None"

definition only_key :: "request \<Rightarrow> string \<Rightarrow> bool" where
  "only_key r key \<longleftrightarrow> rq_header r ''X-API-Key'' = Some key \<and> extract_bearer_token r = None \<and>
     rq_param r ''token'' = None \<and> rq_param r ''key'' = None"

lemma credential_bearer: "only_bearer r token \<Longrightarrow> credential L r v = has_session L token v"
  by (auto simp: only_bearer_def credential_def)

lemma credential_key:
  "only_key r key \<Longrightarrow> credential L r v \<longleftrightarrow> snd (snd v) = Some (hash_key L key) \<or> has_key L key v"
  by (auto simp: only_key_def credential_def)

lemma let_through:
  assumes "no_faults s"
  shows "\<exists>t. (auth_middleware L r :: (app, 'e, bool) prog) s = (Inr (credential L r (auth_view s)), t)"
  using middleware_decides [of L r, where 'e = 'e] assms unfolding decides_def by blast

lemma login_Inr:
  assumes "login L u p s = (Inr resp, t)"
  shows "\<exists>user i. user \<in> set (users (db s)) \<and> ur_username user = u \<and>
    verify_password L p (ur_password_hash user) \<and> lo_username resp = u \<and> lo_role resp = ur_role user \<and>
    lo_expires_at resp = sql_datetime L (clock (sys s) + session_lifetime) \<and>
    insert_session \<lparr>se_id = i, se_user_id = ur_id user, se_token = lo_token resp, se_expires_at = lo_expires_at resp\<rparr>
      (db s) = Some (db t)"
proof -
  from assms obtain row s1 user token s2 i s3 r where
    row: "q (find_user (\<lambda>r. ur_username r = u)) s = (Inr row, s1)" and user: "row = Some user"
    and ok: "verify_password L p (ur_password_hash user)"
    and token: "(generate_session_token L :: string handler) s1 = (Inr token, s2)"
    and i: "(fresh_uuid L :: uuid handler) s2 = (Inr i, s3)"
    and ins: "q (sql_try (insert_session \<lparr>se_id = show_uuid L i, se_user_id = ur_id user, se_token = token,
        se_expires_at = sql_datetime L (clock (sys s3) + session_lifetime)\<rparr>)) s3 = (Inr r, t)"
    and resp: "resp = \<lparr>lo_token = token, lo_username = ur_username user, lo_role = ur_role user,
        lo_expires_at = sql_datetime L (clock (sys s3) + session_lifetime)\<rparr>"
    unfolding login_def Let_def now_def Inr_iffs by blast
  have f: "find (\<lambda>r. ur_username r = u) (users (db s)) = Some user" "db s1 = db s" "clock (sys s1) = clock (sys s)"
    using row user by (auto simp: find_user_def map_err_Inr_iff sql_read_def fallible_def split: option.splits)
  have s3: "db s3 = db s" "clock (sys s3) = clock (sys s)"
    using f token i by (auto simp: generate_session_token_def random_token_def fresh_uuid_def set_sys_def)
  show ?thesis
    using find_key_Some_in [OF f(1)] s3 ok resp q_try_Inr [OF ins]
    by (intro exI [of _ user] exI [of _ "show_uuid L i"]) simp
qed

lemma insert_session_Some:
  "insert_session r d = Some d' \<longleftrightarrow> se_user_id r \<in> ur_id ` set (users d) \<and>
     (\<forall>x \<in> set (sessions d). se_token x \<noteq> se_token r \<and> se_id x \<noteq> se_id r) \<and> d' = d\<lparr>sessions := sessions d @ [r]\<rparr>"
  by (auto simp: insert_session_def insert_row_Some image_iff split: if_splits)

text \<open>C28: A log-in needs the password of the user and then lets requests with its
  token through for thirty days (to the second) and not after, as long as
  nobody logs the session out.\<close>
theorem login_lasts_thirty_days:
  assumes "login L u p s = (Inr resp, t)" "only_bearer r (lo_token resp)" "datetime_ordered L b"
    and "no_faults v" "db v = db t" "clock (sys v) < b" "clock (sys s) + session_lifetime < b"
  shows "(\<exists>user \<in> set (users (db s)). ur_username user = u \<and> verify_password L p (ur_password_hash user)) \<and>
    (\<exists>a w. (auth_middleware L r :: (app, 'e, bool) prog) v = (Inr a, w) \<and>
      (clock (sys v) + from_secs 1 \<le> clock (sys s) + session_lifetime \<longrightarrow> a) \<and>
      (clock (sys s) + session_lifetime \<le> clock (sys v) \<longrightarrow> \<not> a))"
proof -
  obtain user i where user: "user \<in> set (users (db s))" "ur_username user = u" "verify_password L p (ur_password_hash user)"
    and ex: "lo_expires_at resp = sql_datetime L (clock (sys s) + session_lifetime)"
    and ins: "insert_session \<lparr>se_id = i, se_user_id = ur_id user, se_token = lo_token resp, se_expires_at = lo_expires_at resp\<rparr>
      (db s) = Some (db t)"
    using login_Inr [OF assms(1)] by blast
  let ?r = "\<lparr>se_id = i, se_user_id = ur_id user, se_token = lo_token resp, se_expires_at = lo_expires_at resp\<rparr>"
  have ses: "sessions (db v) = sessions (db s) @ [?r]" "\<forall>x \<in> set (sessions (db s)). se_token x \<noteq> lo_token resp"
    using ins assms(5) by (auto simp: insert_session_Some)
  have open_iff: "has_session L (lo_token resp) (auth_view v) \<longleftrightarrow>
      sql_datetime L (clock (sys v)) < sql_datetime L (clock (sys s) + session_lifetime)"
    using ses ex by (auto simp: has_session_def session_open_def auth_view_def)
  obtain w where "(auth_middleware L r :: (app, 'e, bool) prog) v = (Inr (has_session L (lo_token resp) (auth_view v)), w)"
    using let_through [OF assms(4), of L r, where 'e = 'e] credential_bearer [OF assms(2), of L "auth_view v"] by auto
  moreover have "\<exists>user \<in> set (users (db s)). ur_username user = u \<and> verify_password L p (ur_password_hash user)"
    using user by blast
  ultimately show ?thesis
    using assms(3,6,7) open_iff unfolding datetime_ordered_def by (meson leD)
qed

section \<open>API keys\<close>

lemma add_key_Inr:
  "(add_key L i name h sc :: unit handler) s = (Inr r, t) \<Longrightarrow>
    \<exists>row. kr_id row = i \<and> kr_key_hash row = h \<and> h \<notin> kr_key_hash ` set (api_keys (db s)) \<and>
      i \<notin> kr_id ` set (api_keys (db s)) \<and> api_keys (db t) = api_keys (db s) @ [row] \<and>
      users (db t) = users (db s) \<and> (no_faults s \<longrightarrow> no_faults t) \<and> system_token t = system_token s"
  by (auto simp: add_key_def now_def map_err_Inr_iff sql_try_def fallible_def insert_key_def insert_row_Some drop_fault_def
      set_sys_def no_faults_def next_fault_def split: option.splits if_splits)

text \<open>A created key lets a request with it through until the key is deleted, and
  then no longer; the table keeps only its hash.\<close>
theorem key_works_until_deleted:
  assumes "create_key L name scopes s = (Inr k, t)" "only_key r (ck_key k)" "delete_key (ck_id k) t = (Inr d, u)"
    and "no_faults t" "no_faults u" "system_token u \<noteq> Some (hash_key L (ck_key k))"
  shows "(\<exists>t'. (auth_middleware L r :: (app, 'e, bool) prog) t = (Inr True, t')) \<and>
    (\<exists>u'. (auth_middleware L r :: (app, 'e, bool) prog) u = (Inr False, u'))"
proof -
  from assms(1) obtain i s1 key s2 x where i: "(fresh_uuid L :: uuid handler) s = (Inr i, s1)"
    and key: "(generate_api_key L :: string handler) s1 = (Inr key, s2)"
    and add: "(add_key L (show_uuid L i) name (hash_key L key) (strings_to_json L scopes) :: unit handler) s2 = (Inr x, t)"
    and k: "k = \<lparr>ck_id = show_uuid L i, ck_name = name, ck_key = key, ck_scopes = scopes\<rparr>"
    unfolding create_key_def Inr_iffs by blast
  obtain row where row: "kr_id row = ck_id k" "kr_key_hash row = hash_key L (ck_key k)"
      "hash_key L (ck_key k) \<notin> kr_key_hash ` set (api_keys (db s2))"
      "ck_id k \<notin> kr_id ` set (api_keys (db s2))" "api_keys (db t) = api_keys (db s2) @ [row]"
    using add_key_Inr [OF add] k by auto
  have "has_key L (ck_key k) (auth_view t)"
    using row by (simp add: has_key_def auth_view_def)
  then have "\<exists>t'. (auth_middleware L r :: (app, 'e, bool) prog) t = (Inr True, t')"
    using let_through [OF assms(4), of L r, where 'e = 'e] credential_key [OF assms(2), of L "auth_view t"] by auto
  moreover from assms(3) obtain n u1 where "q (sql_count (\<lambda>d. count_where (\<lambda>r. kr_id r = ck_id k) (api_keys d))
      (\<lambda>d. d\<lparr>api_keys := delete_where (\<lambda>r. kr_id r = ck_id k) (api_keys d)\<rparr>)) t = (Inr n, u)"
    unfolding delete_key_def Inr_iffs by blast
  then have "api_keys (db u) = delete_where (\<lambda>r. kr_id r = ck_id k) (api_keys (db t))"
    using q_count_Inr by fastforce
  then have "\<not> has_key L (ck_key k) (auth_view u)"
    using row by (auto simp: has_key_def auth_view_def)
  then have "\<exists>u'. (auth_middleware L r :: (app, 'e, bool) prog) u = (Inr False, u')"
    using let_through [OF assms(5), of L r, where 'e = 'e] credential_key [OF assms(2), of L "auth_view u"] assms(6)
    by (auto simp: auth_view_def)
  ultimately show ?thesis ..
qed

section \<open>Administrators\<close>

lemma find_user_Inr: "q (find_user P) s = (Inr x, t) \<Longrightarrow> x = find P (users (db s)) \<and> db t = db s"
  unfolding find_user_def by (rule q_read_Inr)

lemma delete_user_Inr:
  assumes "delete_user i s = (Inr r, t)"
  shows "\<exists>u. find (\<lambda>r. ur_id r = i) (users (db s)) = Some u \<and> \<not> (ur_role u = ''admin'' \<and> admin_count (db s) \<le> 1) \<and>
    users (db t) = delete_where (\<lambda>r. ur_id r = i) (users (db s))"
proof -
  from assms obtain n s1 row s2 u r1 s3 where n: "q (sql_read admin_count) s = (Inr n, s1)"
    and row: "q (find_user (\<lambda>r. ur_id r = i)) s1 = (Inr row, s2)" and u: "row = Some u"
    and ok: "\<not> (ur_role u = ''admin'' \<and> n \<le> 1)"
    and d1: "q (sql_exec (\<lambda>d. d\<lparr>sessions := delete_where (\<lambda>r. se_user_id r = i) (sessions d)\<rparr>)) s2 = (Inr r1, s3)"
    and d2: "q (sql_exec (delete_user_row i)) s3 = (Inr r, t)"
    unfolding delete_user_def Inr_iffs by blast
  have "users (db s3) = users (db s)"
    using q_read_Inr [OF n] find_user_Inr [OF row] q_exec_Inr [OF d1] by simp
  then show ?thesis
    using u ok q_read_Inr [OF n] find_user_Inr [OF row] q_exec_Inr [OF d2]
    by (auto simp: delete_user_row_def)
qed


definition bcrypt_ok :: "lib \<Rightarrow> bool" where
  "bcrypt_ok L \<longleftrightarrow> (\<forall>salt p. bcrypt_verify L p (bcrypt_hash L salt p) = Some True)"

lemma update_role_run:
  assumes "no_faults s" "users (db s) = [u]"
  shows "update_user L (ur_id u) None None (Some ''read'') s =
    (Inr (user_answer (u\<lparr>ur_role := ''read''\<rparr>)), s\<lparr>db := (db s)\<lparr>users := [u\<lparr>ur_role := ''read''\<rparr>]\<rparr>\<rparr>)"
  using assms
  by (simp add: update_user_def Let_def find_user_def q_read_ok q_try_ok unwrap_or_def role_ok_def rename_user_def
      update_where_def user_answer_def)

lemma delete_only_user_run:
  assumes "no_faults s" "users (db s) = [u]" "ur_role u \<noteq> ''admin''"
  shows "\<exists>t. delete_user (ur_id u) s = (Inr (), t) \<and> no_faults t \<and> users (db t) = [] \<and> api_keys (db t) = api_keys (db s)"
  using assms
  by (simp add: delete_user_def find_user_def q_read_ok q_exec_ok delete_user_row_def delete_where_def)

lemma hash_password_ok:
  "no_faults s \<Longrightarrow> map_err f (hash_password L p) s =
    (Inr (bcrypt_hash L (rands (sys s)) p), set_sys (\<lambda>o1. o1\<lparr>rands := Suc (rands o1)\<rparr>) s)"
  by (simp add: hash_password_def map_err_def fallible_def drop_fault_none)

lemma no_faults_draw [simp]:
  "no_faults (set_sys (\<lambda>o1. o1\<lparr>uuids := a\<rparr>) s) = no_faults s" "no_faults (set_sys (\<lambda>o1. o1\<lparr>uuids := Suc (uuids o1)\<rparr>) s) = no_faults s"
  "no_faults (set_sys (\<lambda>o1. o1\<lparr>rands := Suc (rands o1)\<rparr>) s) = no_faults s"
  "no_faults (set_sys (\<lambda>o1. o1\<lparr>rands := rands o1 + n\<rparr>) s) = no_faults s"
  "rands (sys (set_sys (\<lambda>o1. o1\<lparr>uuids := Suc (uuids o1)\<rparr>) s)) = rands (sys s)"
  by (simp_all add: no_faults_def set_sys_def)

lemma setup_init_run:
  assumes "no_faults s" "users (db s) = []" "api_keys (db s) = []"
  shows "\<exists>resp t u. setup_init L None s = (Inr resp, t) \<and> no_faults t \<and> users (db t) = [u] \<and>
    ur_username u = ''admin'' \<and> ur_role u = ''admin'' \<and> ur_password_hash u = bcrypt_hash L (rands (sys s)) ''admin'' \<and>
    sessions (db t) = sessions (db s)"
  using assms
  by (simp add: setup_init_def q_read_ok q_try_ok fresh_uuid_def hash_password_ok
      now_def insert_user_def insert_row_def generate_api_key_def random_token_def add_key_def insert_key_def)

text \<open>But the last administrator can be demoted, and nobody can then be left to
  protect: demoted he can be deleted, and with no user left the set-up is open
  again to anyone, who logs in as admin with the password admin.\<close>
theorem demoting_the_last_admin_reopens_setup:
  assumes "no_faults s" "users (db s) = [u]" "ur_role u = ''admin''" "api_keys (db s) = []" "bcrypt_ok L"
  shows "\<exists>answer t1 t2 init t3 admin. update_user L (ur_id u) None None (Some ''read'') s = (Inr answer, t1) \<and>
    delete_user (ur_id u) t1 = (Inr (), t2) \<and> setup_init L None t2 = (Inr init, t3) \<and>
    users (db t3) = [admin] \<and> ur_username admin = ''admin'' \<and> ur_role admin = ''admin'' \<and>
    verify_password L ''admin'' (ur_password_hash admin)"
proof -
  let ?u = "u\<lparr>ur_role := ''read''\<rparr>"
  let ?t1 = "s\<lparr>db := (db s)\<lparr>users := [?u]\<rparr>\<rparr>"
  obtain t2 where t2: "delete_user (ur_id u) ?t1 = (Inr (), t2)" "no_faults t2" "users (db t2) = []"
      "api_keys (db t2) = []"
    using delete_only_user_run [of ?t1 ?u] assms(1,4) by auto
  obtain init t3 admin where "setup_init L None t2 = (Inr init, t3)" "users (db t3) = [admin]"
      "ur_username admin = ''admin''" "ur_role admin = ''admin''"
      "ur_password_hash admin = bcrypt_hash L (rands (sys t2)) ''admin''"
    using setup_init_run [OF t2(2-4), of L] by blast
  moreover from this have "verify_password L ''admin'' (ur_password_hash admin)"
    using assms(5) by (simp add: verify_password_def bcrypt_ok_def)
  ultimately show ?thesis
    using update_role_run [OF assms(1,2), of L] t2(1) by blast
qed

section \<open>The routes\<close>

definition changes_state :: "http_method list \<Rightarrow> bool" where
  "changes_state ms \<longleftrightarrow> set ms \<inter> {POST, PUT, DELETE} \<noteq> {}"

lemma fst_filter_set: "set (map fst (filter (\<lambda>(p, ms). Q ms) xs)) = {p. \<exists>ms. (p, ms) \<in> set xs \<and> Q ms}"
  by force

text \<open>Every route of the API stands in exactly one of the three groups, and the
  changing routes that ask for no credential are the log-in, the set-up, the
  token routes of guests, channel and WHIP, and the two uploads of files.\<close>
theorem open_changing_routes:
  "distinct (map fst (api_routes s)) \<and>
   {p. \<exists>ms. (p, ms, Open) \<in> set (api_routes s) \<and> changes_state ms} =
     {''/assets/upload'', ''/library/upload'', ''/auth/login'', ''/setup/init'',
      ''/public/channel/{token}/unlock'', ''/guest/{token}/whip'', ''/whip'', ''/whip/{session}''}"
proof -
  let ?front = "map fst authenticated_routes @ map fst open_routes"
  let ?admin = "map (\<lambda>x. ''/admin'' @ fst x) management_routes"
  have "distinct (?front @ ?admin)"
    by code_simp
  then have "distinct (?front @ ?admin)" "distinct ?front"
    unfolding distinct_append [of ?front ?admin] by blast+
  moreover have "map fst (api_routes s) = (if system_token s = None then ?front else ?front @ ?admin)"
    by (simp add: api_routes_def case_prod_beta' comp_def)
  ultimately have "distinct (map fst (api_routes s))"
    by simp
  moreover have "map fst (filter (\<lambda>(p, ms). changes_state ms) open_routes) =
     [''/assets/upload'', ''/library/upload'', ''/auth/login'', ''/setup/init'',
      ''/public/channel/{token}/unlock'', ''/guest/{token}/whip'', ''/whip'', ''/whip/{session}'']"
    by (simp add: open_routes_def changes_state_def)
  then have "{p. \<exists>ms. (p, ms) \<in> set open_routes \<and> changes_state ms} =
     set [''/assets/upload'', ''/library/upload'', ''/auth/login'', ''/setup/init'',
      ''/public/channel/{token}/unlock'', ''/guest/{token}/whip'', ''/whip'', ''/whip/{session}'']"
    by (metis fst_filter_set)
  moreover have "{p. \<exists>ms. (p, ms, Open) \<in> set (api_routes s) \<and> changes_state ms} =
      {p. \<exists>ms. (p, ms) \<in> set open_routes \<and> changes_state ms}"
    by (auto simp: api_routes_def)
  ultimately show ?thesis by simp
qed

section \<open>Concrete runs\<close>

definition sample_user :: user_row where
  "sample_user = \<lparr>ur_id = ''1'', ur_username = ''ann'', ur_password_hash = ''bcrypt:secret'', ur_role = ''admin'', ur_created_at = ''''\<rparr>"

definition auth_state :: app where
  "auth_state = sample_state\<lparr>db := empty_db\<lparr>users := [sample_user]\<rparr>\<rparr>"

definition no_request :: request where
  "no_request = \<lparr>rq_header = (\<lambda>_. None), rq_param = (\<lambda>_. None)\<rparr>"

definition bearer_request :: "string \<Rightarrow> request" where
  "bearer_request token = no_request\<lparr>rq_header := [''Authorization'' \<mapsto> ''Bearer '' @ token]\<rparr>"

definition key_request :: "string \<Rightarrow> request" where
  "key_request key = no_request\<lparr>rq_header := [''X-API-Key'' \<mapsto> key]\<rparr>"

lemma sample_requests: "only_bearer (bearer_request token) token" "only_key (key_request key) key"
  by (simp_all add: only_bearer_def only_key_def bearer_request_def key_request_def no_request_def
      extract_bearer_token_def strip_prefix_def starts_with_def)

lemma sample_datetime: "datetime_ordered sample_lib b"
proof -
  have "t div 1000000000 < u div 1000000000" if "t + from_secs 1 \<le> u" for t u
  proof -
    have "(t + 1000000000) div 1000000000 \<le> u div 1000000000"
      by (rule div_le_mono) (use that in \<open>simp add: from_secs_def\<close>)
    then show ?thesis by simp
  qed
  moreover have "replicate m CHR ''I'' \<le> replicate n CHR ''I''" if "m \<le> n" for m n
    using that replicate_less [of m n "CHR ''I''"] by (cases "m = n") auto
  ultimately show ?thesis
    by (auto simp: datetime_ordered_def sample_lib_def replicate_less intro: div_le_mono)
qed

lemma auth_state_facts:
  "no_faults auth_state" "users (db auth_state) = [sample_user]" "sessions (db auth_state) = []" "api_keys (db auth_state) = []"
  "system_token auth_state = None" "clock (sys auth_state) = 0"
  by (simp_all add: auth_state_def sample_state_def initial_state_def no_faults_def idle_os_def empty_db_def)

lemma sample_verify: "verify_password sample_lib ''secret'' (ur_password_hash sample_user)"
  by (simp add: verify_password_def sample_lib_def sample_user_def)

lemma let_through_iff_credential_witness:
  "\<exists>t. (auth_middleware sample_lib no_request :: (app, unit, bool) prog) auth_state = (Inr False, t)"
proof -
  have "\<not> credential sample_lib no_request v" for v
    by (simp add: credential_def no_request_def extract_bearer_token_def)
  then show ?thesis
    using let_through_iff_credential [where 'e = unit, of sample_lib no_request auth_state] by auto
qed

lemma login_runs:
  "\<exists>resp t. login sample_lib ''ann'' ''secret'' auth_state = (Inr resp, t)"
  using auth_state_facts(1-3) sample_verify
  by (simp add: login_def find_user_def q_read_ok q_try_ok generate_session_token_def random_token_def fresh_uuid_def
      now_def insert_session_def insert_row_def Let_def sample_user_def)

lemma login_lasts_thirty_days_witness:
  "\<exists>resp t a w. login sample_lib ''ann'' ''secret'' auth_state = (Inr resp, t) \<and>
    (auth_middleware sample_lib (bearer_request (lo_token resp)) :: (app, unit, bool) prog)
      (auth_state\<lparr>db := db t\<rparr>) = (Inr True, w)"
proof -
  obtain resp t where run: "login sample_lib ''ann'' ''secret'' auth_state = (Inr resp, t)"
    using login_runs by blast
  have "(\<exists>user \<in> set (users (db auth_state)). ur_username user = ''ann'' \<and> verify_password sample_lib ''secret'' (ur_password_hash user)) \<and>
    (\<exists>a w. (auth_middleware sample_lib (bearer_request (lo_token resp)) :: (app, unit, bool) prog) (auth_state\<lparr>db := db t\<rparr>) = (Inr a, w) \<and>
      (clock (sys (auth_state\<lparr>db := db t\<rparr>)) + from_secs 1 \<le> clock (sys auth_state) + session_lifetime \<longrightarrow> a) \<and>
      (clock (sys auth_state) + session_lifetime \<le> clock (sys (auth_state\<lparr>db := db t\<rparr>)) \<longrightarrow> \<not> a))"
    by (rule login_lasts_thirty_days [OF run sample_requests(1) sample_datetime [of "session_lifetime + 1"]])
       (simp_all add: auth_state_facts)
  then show ?thesis using run
    by (auto simp: auth_state_facts session_lifetime_def from_secs_def)
qed

lemma key_works_until_deleted_witness:
  "\<exists>k t d u u'. create_key sample_lib ''bot'' [''read''] auth_state = (Inr k, t) \<and> delete_key (ck_id k) t = (Inr d, u) \<and>
    (auth_middleware sample_lib (key_request (ck_key k)) :: (app, unit, bool) prog) u = (Inr False, u')"
proof -
  have [simp]: "system_token (set_sys f s) = system_token s" for f s by (simp add: set_sys_def)
  have "\<exists>k t row. create_key sample_lib ''bot'' [''read''] auth_state = (Inr k, t) \<and> no_faults t \<and> system_token t = None \<and>
      api_keys (db t) = [row] \<and> kr_id row = ck_id k"
    using auth_state_facts(1,4,5)
    by (simp add: create_key_def fresh_uuid_def generate_api_key_def random_token_def add_key_def now_def q_try_ok
        insert_key_def insert_row_def)
  then obtain k t row where k: "create_key sample_lib ''bot'' [''read''] auth_state = (Inr k, t)" "no_faults t"
      "system_token t = None" "api_keys (db t) = [row]" "kr_id row = ck_id k"
    by blast
  then obtain d u where u: "delete_key (ck_id k) t = (Inr d, u)" "no_faults u" "system_token u = None"
    by (auto simp: delete_key_def q_count_ok count_where_def)
  have "(\<exists>t'. (auth_middleware sample_lib (key_request (ck_key k)) :: (app, unit, bool) prog) t = (Inr True, t')) \<and>
    (\<exists>u'. (auth_middleware sample_lib (key_request (ck_key k)) :: (app, unit, bool) prog) u = (Inr False, u'))"
    by (rule key_works_until_deleted [OF k(1) sample_requests(2) u(1) k(2) u(2)]) (simp add: u(3))
  then show ?thesis using k(1) u(1) by blast
qed

definition two_admins :: app where
  "two_admins = auth_state\<lparr>db := empty_db\<lparr>users := [sample_user, sample_user\<lparr>ur_id := ''2''\<rparr>]\<rparr>\<rparr>"


lemma demoting_the_last_admin_reopens_setup_witness:
  "\<exists>t1 t2 init t3 answer. update_user sample_lib ''1'' None None (Some ''read'') auth_state = (Inr answer, t1) \<and>
    delete_user ''1'' t1 = (Inr (), t2) \<and> setup_init sample_lib None t2 = (Inr init, t3)"
proof -
  have b: "bcrypt_ok sample_lib" by (simp add: bcrypt_ok_def sample_lib_def)
  have "ur_role sample_user = ''admin''" "ur_id sample_user = ''1''" by (simp_all add: sample_user_def)
  then show ?thesis
    using demoting_the_last_admin_reopens_setup [OF auth_state_facts(1,2) _ auth_state_facts(4) b] by metis
qed

end
