(* ===== verification/Upload.thy ===== *)
theory Upload
  imports Http
begin

text \<open>
  What the handlers that take a form or serve a file share: the fields of a
  multipart request, the characters of a file name, and the absent, null or
  given values of a JSON body.
\<close>

section \<open>Forms\<close>

text \<open>A field as axum hands it over; reading its content can fail. The request is
  what \<open>next\_field\<close> answers, up to the end or its first error.\<close>

record form_field =
  ff_name :: "string option"
  ff_file_name :: "string option"
  ff_content_type :: "string option"
  ff_text :: "string + string"
  ff_bytes :: "string + bytes"

type_synonym form = "(string + form_field) list"

definition or_bad_request :: "string + 'a \<Rightarrow> 'a handler" where
  "or_bad_request r = (case r of Inl e \<Rightarrow> throw (BadRequest e) | Inr a \<Rightarrow> ok a)"

fun read_form :: "(form_field \<Rightarrow> 'a \<Rightarrow> 'a handler) \<Rightarrow> form \<Rightarrow> 'a \<Rightarrow> 'a handler" where
  "read_form f [] a = ok a"
| "read_form f (Inl e # fs) a = throw (BadRequest e)"
| "read_form f (Inr x # fs) a = andThen (f x a) (read_form f fs)"

section \<open>Texts\<close>

definition is_alphanumeric :: "char \<Rightarrow> bool" where
  "is_alphanumeric c \<longleftrightarrow>
     (CHR ''0'' \<le> c \<and> c \<le> CHR ''9'') \<or> (CHR ''a'' \<le> c \<and> c \<le> CHR ''z'') \<or> (CHR ''A'' \<le> c \<and> c \<le> CHR ''Z'')"

definition ends_with :: "string \<Rightarrow> string \<Rightarrow> bool" where
  "ends_with suffix t \<longleftrightarrow> length suffix \<le> length t \<and> drop (length t - length suffix) t = suffix"

text \<open>A field \<open>Option<Option<T>>\<close> of a JSON body: serde reads an absent field and
  \<open>null\<close> alike, as \<open>None\<close>.\<close>

definition double_option :: "'a option option \<Rightarrow> 'a option option" where
  "double_option j = (case j of Some (Some a) \<Rightarrow> Some (Some a) | _ \<Rightarrow> None)"

section \<open>Facts\<close>

lemma read_form_keeps:
  assumes "\<And>x a. keeps f (g x a)"
  shows "keeps f (read_form g fs a)"
proof (induction fs arbitrary: a)
  case (Cons y fs)
  show ?case
  proof (cases y)
    case (Inr x)
    then show ?thesis using assms Cons.IH by (simp add: keeps_andThen)
  qed (simp add: keeps_def)
qed (simp add: keeps_pure)

lemma or_bad_request_simps [simp]:
  "or_bad_request (Inl e) = throw (BadRequest e)" "or_bad_request (Inr a) = ok a"
  by (simp_all add: or_bad_request_def)

lemma keeps_or_bad_request: "keeps f (or_bad_request r)"
  by (cases r) (simp_all only: or_bad_request_simps keeps_pure)

end
