(* ===== verification/Channel.thy ===== *)
theory Channel
  imports Auth Egress Upload
begin

text \<open>
  The watch page of the channel (\<open>routes/channel.rs\<close>): its settings, kept in one
  row that is made on first use, and the public routes that serve the HLS
  playlist, the segments and the logo to whoever knows the token, after a
  password when there is one.
\<close>

section \<open>The row\<close>

definition generate_channel_token :: "lib \<Rightarrow> (app, 'e, string) prog" where
  "generate_channel_token L = random_token L 16 32"

definition logo_url :: "channel_row \<Rightarrow> string option" where
  "logo_url row = map_option (\<lambda>_. ''/api/v1/public/channel/'' @ cr_token row @ ''/logo'') (cr_logo_path row)"

definition row_to_config :: "channel_row \<Rightarrow> channel_config" where
  "row_to_config row =
    \<lparr>ch_enabled = (cr_enabled row \<noteq> 0), ch_token = cr_token row, ch_title = cr_title row, ch_logo_url = logo_url row,
     ch_accent = cr_accent row, ch_password_protected = (cr_password_hash row \<noteq> None),
     ch_watch_path = ''/watch/'' @ cr_token row\<rparr>"

text \<open>\<open>INSERT OR IGNORE\<close> with the defaults of the table, and \<open>fetch\_one\<close>.\<close>

definition new_channel_row :: "string \<Rightarrow> channel_row" where
  "new_channel_row token = \<lparr>cr_enabled = 0, cr_token = token, cr_title = ''Muxshed Stream'', cr_logo_path = None,
     cr_accent = None, cr_password_hash = None\<rparr>"

definition insert_channel :: "string \<Rightarrow> db \<Rightarrow> db" where
  "insert_channel token d = (case channel d of None \<Rightarrow> d\<lparr>channel := Some (new_channel_row token)\<rparr> | Some _ \<Rightarrow> d)"

definition fetch_channel :: "channel_row handler" where
  "fetch_channel = andThen (q (sql_read channel)) (need (Database ''no rows returned''))"

definition load_or_create :: "lib \<Rightarrow> channel_row handler" where
  "load_or_create L =
    andThen (q (sql_read channel)) (\<lambda>found. case found of
      Some row \<Rightarrow> ok row
    | None \<Rightarrow>
        andThen (generate_channel_token L) (\<lambda>token.
        then_do (q (sql_exec (insert_channel token)))
                fetch_channel))"

definition update_channel_row :: "(channel_row \<Rightarrow> channel_row) \<Rightarrow> db \<Rightarrow> db" where
  "update_channel_row f d = d\<lparr>channel := map_option f (channel d)\<rparr>"

section \<open>The operator's handlers\<close>

definition get_channel :: "lib \<Rightarrow> channel_config handler" where
  "get_channel L = andThen (load_or_create L) (\<lambda>row. ok (row_to_config row))"

text \<open>\<open>UpdateChannel\<close>, its accent as the JSON body has it.\<close>

record channel_update =
  cu_enabled :: "bool option"
  cu_title :: "string option"
  cu_accent :: "string option option"

definition update_channel :: "lib \<Rightarrow> channel_update \<Rightarrow> channel_config handler" where
  "update_channel L body =
    andThen (load_or_create L) (\<lambda>existing.
    let enabled = unwrap_or (cr_enabled existing \<noteq> 0) (cu_enabled body);
        title = unwrap_or (cr_title existing) (cu_title body);
        accent = unwrap_or (cr_accent existing) (double_option (cu_accent body)) in
    then_do (q (sql_exec (update_channel_row
      (\<lambda>r. r\<lparr>cr_enabled := (if enabled then 1 else 0), cr_title := title, cr_accent := accent\<rparr>))))
   (then_do (if cu_enabled body \<noteq> None then ensure_channel_hls L else ok ())
            (andThen fetch_channel (\<lambda>row. ok (row_to_config row)))))"

definition regenerate_token :: "lib \<Rightarrow> channel_config handler" where
  "regenerate_token L =
    then_do (load_or_create L)
   (andThen (generate_channel_token L) (\<lambda>token.
    then_do (q (sql_exec (update_channel_row (\<lambda>r. r\<lparr>cr_token := token\<rparr>))))
   (andThen fetch_channel (\<lambda>row.
    then_do (ensure_channel_hls L) (ok (row_to_config row))))))"

definition logo_field :: "form_field \<Rightarrow> (string \<times> bytes) option \<Rightarrow> (string \<times> bytes) option handler" where
  "logo_field x a =
    (if ff_name x = Some ''file''
     then andThen (or_bad_request (ff_bytes x)) (\<lambda>data. ok (Some (unwrap_or ''logo'' (ff_file_name x), data)))
     else ok a)"

definition logo_extension :: "string \<Rightarrow> string" where
  "logo_extension filename =
    (let ext = take 5 (filter is_alphanumeric (to_lowercase (unwrap_or ''png'' (path_extension filename))))
     in if ext = [] then ''png'' else ext)"

text \<open>The answer is the path of the logo.\<close>

definition upload_logo :: "lib \<Rightarrow> form \<Rightarrow> string handler" where
  "upload_logo L fs =
    andThen (load_or_create L) (\<lambda>row.
    andThen (read_form logo_field fs None) (\<lambda>file_data.
    andThen (need (BadRequest ''no file provided'') file_data) (\<lambda>(filename, data).
    andThen (gets (\<lambda>s. path_join (data_dir (cfg s)) ''channel'')) (\<lambda>channel_dir.
    then_do (map_err (\<lambda>e. Internal (''create dir: '' @ e)) (create_dir_all channel_dir))
   (let file_path = path_join channel_dir (''logo.'' @ logo_extension filename) in
    then_do (case cr_logo_path row of
        Some old \<Rightarrow> if old \<noteq> file_path then ignore (remove_file old) else ok ()
      | None \<Rightarrow> ok ())
   (then_do (save_file file_path data)
   (then_do (q (sql_exec (update_channel_row (\<lambda>r. r\<lparr>cr_logo_path := Some file_path\<rparr>))))
            (ok (''/api/v1/public/channel/'' @ cr_token row @ ''/logo'')))))))))"

definition delete_logo :: "lib \<Rightarrow> unit handler" where
  "delete_logo L =
    andThen (load_or_create L) (\<lambda>row.
    then_do (case cr_logo_path row of None \<Rightarrow> ok () | Some path \<Rightarrow> ignore (remove_file path))
            (q (sql_exec (update_channel_row (\<lambda>r. r\<lparr>cr_logo_path := None\<rparr>)))))"

definition set_password :: "lib \<Rightarrow> string option \<Rightarrow> unit handler" where
  "set_password L body_password =
    then_do (load_or_create L)
   (if body_password \<noteq> None \<and> body_password \<noteq> Some [] then
      andThen (map_err (\<lambda>e. Internal (''password hash failed: '' @ e)) (hash_password L (the body_password))) (\<lambda>hash.
      q (sql_exec (update_channel_row (\<lambda>r. r\<lparr>cr_password_hash := Some hash\<rparr>))))
    else q (sql_exec (update_channel_row (\<lambda>r. r\<lparr>cr_password_hash := None\<rparr>))))"

section \<open>The public handlers\<close>

definition fetch_by_token :: "string \<Rightarrow> channel_row option handler" where
  "fetch_by_token token = q (sql_read (\<lambda>d. case channel d of
     Some r \<Rightarrow> if cr_token r = token then Some r else None | None \<Rightarrow> None))"

definition watch_cookie_value :: "lib \<Rightarrow> string \<Rightarrow> string \<Rightarrow> string" where
  "watch_cookie_value L password_hash token = sha256_hex L (password_hash @ token)"

definition watch_cookie_name :: "string \<Rightarrow> string" where
  "watch_cookie_name token = ''mxs_watch_'' @ token"

fun split_on :: "char \<Rightarrow> string \<Rightarrow> string list" where
  "split_on m [] = [[]]"
| "split_on m (c # cs) = (if c = m then [] # split_on m cs
     else case split_on m cs of [] \<Rightarrow> [[c]] | p # ps \<Rightarrow> (c # p) # ps)"

definition trim :: "string \<Rightarrow> string" where
  "trim t = (let sp = (\<lambda>c. c \<in> {CHR '' '', CHR 0x09, CHR 0x0A, CHR 0x0B, CHR 0x0C, CHR 0x0D})
             in rev (dropWhile sp (rev (dropWhile sp t))))"

definition cookie_is :: "string \<Rightarrow> string \<Rightarrow> string \<Rightarrow> bool" where
  "cookie_is name expected c =
    (let t = trim c; k = takeWhile (\<lambda>x. x \<noteq> CHR ''='') t
     in CHR ''='' \<in> set t \<and> k = name \<and> drop (Suc (length k)) t = expected)"

text \<open>The \<open>Cookie\<close> header, if there is one that is text.\<close>

definition cookie_present :: "string option \<Rightarrow> string \<Rightarrow> string \<Rightarrow> bool" where
  "cookie_present header name expected = (case header of
      None \<Rightarrow> False | Some cookies \<Rightarrow> list_ex (cookie_is name expected) (split_on CHR '';'' cookies))"

definition hls_file :: "app \<Rightarrow> string \<Rightarrow> string \<Rightarrow> string" where
  "hls_file s token f = path_join (path_join (path_join (data_dir (cfg s)) ''hls'') token) f"

text \<open>\<open>metadata\<close>, \<open>modified\<close> and \<open>elapsed\<close>, which fails for a time to come.\<close>

definition hls_live :: "string \<Rightarrow> (app, 'e, bool) prog" where
  "hls_live token = gets (\<lambda>s. case modified (sys s) (hls_file s token ''index.m3u8'') of
      None \<Rightarrow> False
    | Some t \<Rightarrow> t \<le> clock (sys s) \<and> clock (sys s) - t < from_millis 12000)"

definition public_info :: "string \<Rightarrow> channel_info handler" where
  "public_info token =
    andThen (fetch_by_token token) (\<lambda>found.
    andThen (need (NotFound ''channel'') found) (\<lambda>row.
    andThen (hls_live (cr_token row)) (\<lambda>live.
    ok \<lparr>ci_title = cr_title row, ci_logo_url = logo_url row, ci_accent = cr_accent row, ci_live = live,
        ci_requires_password = (cr_password_hash row \<noteq> None)\<rparr>)))"

definition watch_cookie :: "lib \<Rightarrow> string \<Rightarrow> string \<Rightarrow> string" where
  "watch_cookie L hash token =
    watch_cookie_name token @ ''='' @ watch_cookie_value L hash token @ ''; Path=/; HttpOnly; SameSite=Lax''"

text \<open>The three outcomes of the look-up that the public handlers start with.\<close>

definition with_channel :: "string \<Rightarrow> (channel_row \<Rightarrow> (app, 'e, http_answer) prog) \<Rightarrow> (app, 'e, http_answer) prog" where
  "with_channel token k =
    andThen (attempt (fetch_by_token token)) (\<lambda>r. case r of
      Inr (Some row) \<Rightarrow> k row
    | Inr None \<Rightarrow> ok (status_answer 404)
    | Inl e \<Rightarrow> ok (error_answer e))"

definition unlock :: "lib \<Rightarrow> string \<Rightarrow> string \<Rightarrow> (app, 'e, http_answer) prog" where
  "unlock L token body_password = with_channel token (\<lambda>row. case cr_password_hash row of
      None \<Rightarrow> ok (status_answer 200)
    | Some hash \<Rightarrow>
        if \<not> verify_password L body_password hash then ok (status_answer 401)
        else ok (Answer 200 [(''set-cookie'', watch_cookie L hash (cr_token row))] []))"

definition check_cookie :: "lib \<Rightarrow> channel_row \<Rightarrow> string option \<Rightarrow> http_answer option" where
  "check_cookie L row header = (case cr_password_hash row of
      None \<Rightarrow> None
    | Some hash \<Rightarrow>
        if \<not> cookie_present header (watch_cookie_name (cr_token row)) (watch_cookie_value L hash (cr_token row))
        then Some (status_answer 403) else None)"

definition serve_hls :: "string \<Rightarrow> string \<Rightarrow> string \<Rightarrow> (app, 'e, http_answer) prog" where
  "serve_hls token f content_type =
    andThen (gets (\<lambda>s. hls_file s token f)) (\<lambda>path.
    andThen (attempt (read_file path)) (\<lambda>r. ok (case r of
      Inr data \<Rightarrow> Answer 200 [(''content-type'', content_type), (''cache-control'', ''no-cache'')] data
    | Inl _ \<Rightarrow> status_answer 404)))"

definition serve_playlist :: "lib \<Rightarrow> string \<Rightarrow> string option \<Rightarrow> (app, 'e, http_answer) prog" where
  "serve_playlist L token header = with_channel token (\<lambda>row. case check_cookie L row header of
      Some resp \<Rightarrow> ok resp
    | None \<Rightarrow> serve_hls (cr_token row) ''index.m3u8'' ''application/vnd.apple.mpegurl'')"

definition valid_segment :: "string \<Rightarrow> bool" where
  "valid_segment segment \<longleftrightarrow> segment \<noteq> [] \<and>
     list_all (\<lambda>c. is_alphanumeric c \<or> c = CHR ''.'' \<or> c = CHR ''_'' \<or> c = CHR ''-'') segment \<and>
     (ends_with ''.ts'' segment \<or> ends_with ''.m4s'' segment)"

definition serve_segment :: "lib \<Rightarrow> string \<Rightarrow> string \<Rightarrow> string option \<Rightarrow> (app, 'e, http_answer) prog" where
  "serve_segment L token segment header = with_channel token (\<lambda>row. case check_cookie L row header of
      Some resp \<Rightarrow> ok resp
    | None \<Rightarrow> if \<not> valid_segment segment then ok (status_answer 404)
              else serve_hls (cr_token row) segment ''video/mp2t'')"

definition logo_type :: "string \<Rightarrow> string" where
  "logo_type path =
    (let ext = to_lowercase (unwrap_or '''' (path_extension path))
     in if ext = ''png'' then ''image/png''
        else if ext = ''jpg'' \<or> ext = ''jpeg'' then ''image/jpeg''
        else if ext = ''gif'' then ''image/gif''
        else if ext = ''svg'' then ''image/svg+xml''
        else if ext = ''webp'' then ''image/webp''
        else ''application/octet-stream'')"

definition serve_logo :: "string \<Rightarrow> (app, 'e, http_answer) prog" where
  "serve_logo token = with_channel token (\<lambda>row. case cr_logo_path row of
      None \<Rightarrow> ok (status_answer 404)
    | Some path \<Rightarrow> andThen (attempt (read_file path)) (\<lambda>r. ok (case r of
          Inr data \<Rightarrow> Answer 200 [(''content-type'', logo_type path), (''cache-control'', ''public, max-age=86400'')] data
        | Inl _ \<Rightarrow> status_answer 404)))"


section \<open>Who may watch\<close>

lemma with_channel_Inr:
  assumes "with_channel token k s = (Inr a, t)"
  shows "(\<exists>row. channel (db s) = Some row \<and> cr_token row = token \<and> k row (drop_fault s) = (Inr a, t)) \<or>
    answer_status a = 404 \<or> answer_status a = 500"
proof -
  have "answer_status (error_answer (Database e)) = 500" for e
    by (simp add: error_answer_def into_response_def status_code_def)
  then show ?thesis
    using assms by (auto simp: with_channel_def fetch_by_token_def map_err_def sql_read_def fallible_def status_answer_def
        split: option.splits if_splits)
qed

lemma with_channel_run:
  assumes "no_faults s"
  shows "with_channel token k s = (case channel (db s) of
      Some row \<Rightarrow> if cr_token row = token then k row s else (Inr (status_answer 404), s)
    | None \<Rightarrow> (Inr (status_answer 404), s))"
  using assms by (simp add: with_channel_def fetch_by_token_def q_read_ok split: option.split)

lemma serve_hls_Inr:
  assumes "(serve_hls token f ct :: (app, 'e, http_answer) prog) s = (Inr a, t)" "answer_status a = 200"
  shows "\<exists>data. files (sys s) (hls_file s token f) = Some data \<and>
    a = Answer 200 [(''content-type'', ct), (''cache-control'', ''no-cache'')] data"
  using assms by (auto simp: serve_hls_def read_file_def fallible_def status_answer_def split: option.splits)

lemma serve_hls_run:
  "no_faults s \<Longrightarrow> files (sys s) (hls_file s token f) = Some data \<Longrightarrow> serve_hls token f ct s =
    (Inr (Answer 200 [(''content-type'', ct), (''cache-control'', ''no-cache'')] data), s)"
  by (simp add: serve_hls_def read_file_def fallible_def drop_fault_none)

lemma hls_file_drop_fault [simp]: "hls_file (drop_fault s) token f = hls_file s token f"
  by (simp add: hls_file_def drop_fault_def set_sys_def)

lemma not_alphanumeric:
  "\<not> is_alphanumeric CHR '';''" "\<not> is_alphanumeric CHR ''=''" "\<not> is_alphanumeric CHR ''/''" "\<not> is_alphanumeric CHR '' ''"
  "\<not> is_alphanumeric CHR 0x09" "\<not> is_alphanumeric CHR 0x0A" "\<not> is_alphanumeric CHR 0x0B" "\<not> is_alphanumeric CHR 0x0C"
  "\<not> is_alphanumeric CHR 0x0D"
  by code_simp+

lemma valid_segment_no_slash: "valid_segment segment \<Longrightarrow> CHR ''/'' \<notin> set segment \<and> segment \<noteq> ''.'' \<and> segment \<noteq> ''..''"
  by (auto simp: valid_segment_def list_all_iff is_alphanumeric_def ends_with_def)

text \<open>C37: A segment that is served lies in the directory of the channel's token, whatever
  path the request names and whatever calls fail; and of a channel with a
  password it is served only with the cookie of this password and token.\<close>
theorem segment_stays_in_its_directory:
  assumes "(serve_segment L token segment header :: (app, 'e, http_answer) prog) s = (Inr a, t)" "answer_status a = 200"
  shows "\<exists>row data. channel (db s) = Some row \<and> cr_token row = token \<and> CHR ''/'' \<notin> set segment \<and>
    segment \<noteq> ''.'' \<and> segment \<noteq> ''..'' \<and>
    files (sys s) (hls_file s token segment) = Some data \<and>
    a = Answer 200 [(''content-type'', ''video/mp2t''), (''cache-control'', ''no-cache'')] data \<and>
    (\<forall>hash. cr_password_hash row = Some hash \<longrightarrow>
       cookie_present header (watch_cookie_name token) (watch_cookie_value L hash token))"
proof -
  have "answer_status (status_answer n) = n" for n by (simp add: status_answer_def)
  with assms obtain row where row: "channel (db s) = Some row" "cr_token row = token"
    and run: "(case check_cookie L row header of Some resp \<Rightarrow> ok resp
      | None \<Rightarrow> if \<not> valid_segment segment then ok (status_answer 404)
          else (serve_hls (cr_token row) segment ''video/mp2t'' :: (app, 'e, http_answer) prog)) (drop_fault s) = (Inr a, t)"
    using with_channel_Inr [OF assms(1) [unfolded serve_segment_def]] by auto
  have cookie: "check_cookie L row header = None" and valid: "valid_segment segment"
    using run assms(2) by (auto simp: check_cookie_def status_answer_def split: option.splits if_splits)
  then have "(serve_hls token segment ''video/mp2t'' :: (app, 'e, http_answer) prog) (drop_fault s) = (Inr a, t)"
    using run row(2) by simp
  from serve_hls_Inr [OF this assms(2)] show ?thesis
    using row cookie valid_segment_no_slash [OF valid]
    by (auto simp: check_cookie_def split: option.splits if_splits)
qed

text \<open>The hash texts and tokens are hexadecimal, as sha2, hex and the token's digits
  make them.\<close>

definition cookie_safe :: "string \<Rightarrow> bool" where
  "cookie_safe t \<longleftrightarrow> list_all is_alphanumeric t"

lemma trim_plain:
  assumes "t \<noteq> []" "hd t \<notin> {CHR '' '', CHR 0x09, CHR 0x0A, CHR 0x0B, CHR 0x0C, CHR 0x0D}"
    and "last t \<notin> {CHR '' '', CHR 0x09, CHR 0x0A, CHR 0x0B, CHR 0x0C, CHR 0x0D}"
  shows "trim t = t"
proof -
  have "dropWhile P t = t" if "\<not> P (hd t)" for P using that assms(1) by (cases t) auto
  moreover have "dropWhile P (rev t) = rev t" if "\<not> P (last t)" for P
    using that assms(1) by (cases "rev t") (auto simp: rev_eq_Cons_iff)
  ultimately show ?thesis using assms(2,3) by (simp add: trim_def Let_def)
qed

lemma split_on_none: "m \<notin> set t \<Longrightarrow> split_on m t = [t]"
  by (induction t) auto

lemma cookie_sent_back:
  assumes "cookie_safe token" "cookie_safe v" "v \<noteq> []"
  shows "cookie_present (Some (takeWhile (\<lambda>x. x \<noteq> CHR '';'') (watch_cookie_name token @ ''='' @ v @ CHR '';'' # rest)))
    (watch_cookie_name token) v"
proof -
  let ?n = "watch_cookie_name token" and ?c = "watch_cookie_name token @ CHR ''='' # v"
  have an: "\<forall>x \<in> set ?n \<union> set v. is_alphanumeric x \<or> x = CHR ''_''"
    using assms(1,2) by (auto simp: watch_cookie_name_def cookie_safe_def list_all_iff is_alphanumeric_def)
  have semi: "CHR '';'' \<notin> set ?c" and eqs: "\<forall>x \<in> set ?n. x \<noteq> CHR ''=''"
    using an not_alphanumeric by auto
  have "takeWhile (\<lambda>x. x \<noteq> CHR '';'') (?n @ ''='' @ v @ CHR '';'' # rest) = ?c"
  proof -
    have "?n @ ''='' @ v @ CHR '';'' # rest = ?c @ CHR '';'' # rest" by simp
    moreover have "takeWhile (\<lambda>x. x \<noteq> CHR '';'') ?c = ?c" using semi by (simp only: takeWhile_eq_all_conv) blast
    ultimately show ?thesis using takeWhile_tail [of "\<lambda>x. x \<noteq> CHR '';''" "CHR '';''" ?c rest] by presburger
  qed
  moreover have "trim ?c = ?c"
  proof (rule trim_plain)
    have "last ?c \<in> set v" using assms(3) by simp
    then have "is_alphanumeric (last ?c) \<or> last ?c = CHR ''_''" using an by blast
    then show "last ?c \<notin> {CHR '' '', CHR 0x09, CHR 0x0A, CHR 0x0B, CHR 0x0C, CHR 0x0D}"
      using not_alphanumeric by auto
  qed (simp_all add: watch_cookie_name_def)
  moreover have "takeWhile (\<lambda>x. x \<noteq> CHR ''='') ?c = ?n"
    using takeWhile_append2 [of ?n "\<lambda>x. x \<noteq> CHR ''=''" "CHR ''='' # v"] eqs by simp
  ultimately show ?thesis
    using split_on_none [OF semi] by (simp add: cookie_present_def cookie_is_def)
qed



section \<open>The settings of the channel\<close>

lemma fetch_channel_Inr: "fetch_channel s = (Inr row, t) \<Longrightarrow> channel (db s) = Some row \<and> db t = db s"
  using q_read_Inr [of channel s] by (fastforce simp: fetch_channel_def andThen_Inr_iff need_Inr_iff)

lemma load_or_create_Inr:
  assumes "load_or_create L s = (Inr row, t)"
  shows "channel (db t) = Some row \<and> (\<forall>r. channel (db s) = Some r \<longrightarrow> row = r)"
proof -
  from assms obtain found s1 where found: "q (sql_read channel) s = (Inr found, s1)"
    and rest: "(case found of Some row \<Rightarrow> ok row | None \<Rightarrow> andThen (generate_channel_token L) (\<lambda>token.
        then_do (q (sql_exec (insert_channel token))) fetch_channel)) s1 = (Inr row, t)"
    unfolding load_or_create_def andThen_Inr_iff by blast
  note f = q_read_Inr [OF found]
  show ?thesis
  proof (cases found)
    case None
    then show ?thesis using rest f fetch_channel_Inr by (auto simp: andThen_Inr_iff)
  next
    case (Some r)
    then show ?thesis using rest f by auto
  qed
qed

lemma update_channel_Inr:
  assumes "update_channel L body s = (Inr c, t)" "channel (db s) = Some row"
  shows "\<exists>new. channel (db t) = Some new \<and> c = row_to_config new \<and> cr_token new = cr_token row \<and>
    cr_enabled new = (if unwrap_or (cr_enabled row \<noteq> 0) (cu_enabled body) then 1 else 0) \<and>
    cr_title new = unwrap_or (cr_title row) (cu_title body) \<and>
    cr_accent new = unwrap_or (cr_accent row) (double_option (cu_accent body)) \<and>
    cr_password_hash new = cr_password_hash row \<and> cr_logo_path new = cr_logo_path row \<and>
    (cu_enabled body = Some False \<longrightarrow> hls t = None)"
proof -
  let ?f = "\<lambda>r. r\<lparr>cr_enabled := (if unwrap_or (cr_enabled row \<noteq> 0) (cu_enabled body) then 1 else 0),
    cr_title := unwrap_or (cr_title row) (cu_title body), cr_accent := unwrap_or (cr_accent row) (double_option (cu_accent body))\<rparr>"
  from assms(1) obtain r s1 x s2 y s3 new where load: "load_or_create L s = (Inr r, s1)"
    and up: "q (sql_exec (update_channel_row (\<lambda>r'. r'\<lparr>cr_enabled := (if unwrap_or (cr_enabled r \<noteq> 0) (cu_enabled body) then 1 else 0),
      cr_title := unwrap_or (cr_title r) (cu_title body), cr_accent := unwrap_or (cr_accent r) (double_option (cu_accent body))\<rparr>))) s1 = (Inr x, s2)"
    and hls: "(if cu_enabled body \<noteq> None then ensure_channel_hls L else ok () :: unit handler) s2 = (Inr y, s3)"
    and fetch: "fetch_channel s3 = (Inr new, t)" and c: "c = row_to_config new"
    unfolding update_channel_def Let_def Inr_iffs by blast
  have r: "r = row" "channel (db s1) = Some row" using load_or_create_Inr [OF load] assms(2) by auto
  have s2: "channel (db s2) = Some (?f row)"
    using q_exec_Inr [OF up] r by (simp add: update_channel_row_def)
  have kept: "keeps db (if cu_enabled body \<noteq> None then ensure_channel_hls L else ok () :: unit handler)"
    by (simp add: hls_keeps keeps_pure)
  then have s3: "channel (db s3) = Some (?f row)" using keeps_run [OF kept hls] s2 by simp
  have off: "hls t = None" if "cu_enabled body = Some False"
  proof -
    have stop: "hls (snd (hls_stop u)) = None" for u
      by (simp add: hls_stop_def andThen_def kill_opt_def kill_def set_sys_def split: option.split)
    have "hls (snd ((ensure_channel_hls L :: unit handler) s2)) = None"
      using s2 that stop by (auto simp: ensure_channel_hls_def sql_read_def fallible_def ok_flatten_def andThen_def unwrap_or_def
          split: option.split prod.split sum.split)
    then have "hls s3 = None" using hls that by simp
    moreover have seen: "keeps hls fetch_channel"
      unfolding fetch_channel_def by (intro keeps_core keeps_sql_read) simp
    ultimately show ?thesis using keeps_run [OF seen fetch] by simp
  qed
  show ?thesis
    using fetch_channel_Inr [OF fetch] s3 c off by (intro exI [of _ new]) auto
qed

text \<open>Turning the channel off stops its encoder, and the page stays: whoever has the
  token is served what the encoder left.\<close>
theorem disabled_channel_is_served:
  assumes "update_channel L \<lparr>cu_enabled = Some False, cu_title = title, cu_accent = accent\<rparr> s = (Inr c, t)"
    and "channel (db s) = Some row" "cr_password_hash row = None"
    and "no_faults u" "db u = db t" "files (sys u) (hls_file u (ch_token c) ''index.m3u8'') = Some data"
  shows "\<not> ch_enabled c \<and> hls t = None \<and> serve_playlist L (ch_token c) header u =
    (Inr (Answer 200 [(''content-type'', ''application/vnd.apple.mpegurl''), (''cache-control'', ''no-cache'')] data), u)"
proof -
  obtain new where new: "channel (db t) = Some new" "c = row_to_config new" "cr_enabled new = 0" "cr_password_hash new = None" "hls t = None"
    using update_channel_Inr [OF assms(1,2)] assms(3) by (auto simp: unwrap_or_def)
  then have token: "ch_token c = cr_token new" "\<not> ch_enabled c" by (simp_all add: row_to_config_def)
  then show ?thesis
    using new assms(5) serve_hls_run [OF assms(4,6)]
    by (simp add: serve_playlist_def with_channel_run [OF assms(4)] check_cookie_def)
qed

text \<open>An accent colour that was set is not taken away: \<open>null\<close> counts as absent.\<close>
theorem accent_is_not_cleared:
  assumes "update_channel L \<lparr>cu_enabled = enabled, cu_title = title, cu_accent = Some None\<rparr> s = (Inr c, t)"
    and "channel (db s) = Some row"
  shows "ch_accent c = cr_accent row"
proof -
  obtain new where "c = row_to_config new" "cr_accent new = unwrap_or (cr_accent row) (double_option (Some None))"
    using update_channel_Inr [OF assms] by auto
  then show ?thesis by (simp add: row_to_config_def double_option_def unwrap_or_def)
qed

text \<open>A new token locks everyone out who has the old one: from then on every public
  route answers 404 to it.\<close>
theorem regenerated_token_locks_out:
  assumes "regenerate_token L s = (Inr c, t)" "no_faults u" "db u = db t" "old \<noteq> ch_token c"
  shows "serve_playlist L old header u = (Inr (status_answer 404), u) \<and>
    serve_segment L old segment header u = (Inr (status_answer 404), u) \<and> serve_logo old u = (Inr (status_answer 404), u) \<and>
    unlock L old pw u = (Inr (status_answer 404), u) \<and> public_info old u = (Inl (NotFound ''channel''), u) \<and>
    length (ch_token c) = 32"
proof -
  from assms(1) obtain r s1 token s2 x s3 new s4 y where load: "load_or_create L s = (Inr r, s1)"
    and token: "(generate_channel_token L :: string handler) s1 = (Inr token, s2)"
    and up: "q (sql_exec (update_channel_row (\<lambda>r. r\<lparr>cr_token := token\<rparr>))) s2 = (Inr x, s3)"
    and fetch: "fetch_channel s3 = (Inr new, s4)" and hls: "(ensure_channel_hls L :: unit handler) s4 = (Inr y, t)"
    and c: "c = row_to_config new"
    unfolding regenerate_token_def Inr_iffs by blast
  have kept: "keeps db (ensure_channel_hls L :: unit handler)" by (simp add: hls_keeps)
  have "db t = db s4" using keeps_run [OF kept hls] .
  moreover have s4: "channel (db s4) = Some new" "channel (db s3) = Some new" using fetch_channel_Inr [OF fetch] by auto
  moreover have "cr_token new = token" "length token = 32"
    using q_exec_Inr [OF up] s4(2) token by (auto simp: update_channel_row_def generate_channel_token_def random_token_def)
  ultimately have "channel (db u) = Some new" "cr_token new \<noteq> old" "length (ch_token c) = 32"
    using assms(3,4) c by (auto simp: row_to_config_def)
  then show ?thesis
    using assms(2) by (simp add: serve_playlist_def serve_segment_def serve_logo_def unlock_def with_channel_run
      public_info_def fetch_by_token_def q_read_ok)
qed


section \<open>Concrete runs\<close>

definition watch_lib :: lib where
  "watch_lib = sample_lib\<lparr>sha256_hex := (\<lambda>_. ''cafe'')\<rparr>"

definition watch_state :: "string option \<Rightarrow> app" where
  "watch_state hash = sample_state\<lparr>db := empty_db\<lparr>channel := Some \<lparr>cr_enabled = 1, cr_token = ''ab'', cr_title = ''Show'',
     cr_logo_path = None, cr_accent = Some ''red'', cr_password_hash = hash\<rparr>\<rparr>,
     sys := idle_os\<lparr>files := (\<lambda>_. Some [71])\<rparr>\<rparr>"

lemma watch_facts:
  "no_faults (watch_state hash)" "files (sys (watch_state hash)) p = Some [71]"
  "channel (db (watch_state hash)) = Some \<lparr>cr_enabled = 1, cr_token = ''ab'', cr_title = ''Show'',
     cr_logo_path = None, cr_accent = Some ''red'', cr_password_hash = hash\<rparr>"
  by (simp_all add: watch_state_def no_faults_def idle_os_def)

lemma channel_runs:
  assumes "no_faults s" "channel (db s) = Some row"
  shows "\<exists>c t. regenerate_token L s = (Inr c, t) \<and> no_faults t"
    "\<exists>c t. update_channel L body s = (Inr c, t) \<and> no_faults t"
proof -
  have load: "load_or_create L s = (Inr row, s)"
    using assms by (simp add: load_or_create_def q_read_ok)
  have fetch: "no_faults u \<Longrightarrow> channel (db u) = Some r \<Longrightarrow> fetch_channel u = (Inr r, u)" for u r
    by (simp add: fetch_channel_def q_read_ok)
  have hls: "\<exists>t. (ensure_channel_hls L :: unit handler) u = (Inr (), t) \<and> no_faults t \<and> db t = db u" if "no_faults u" for u
  proof -
    have "smooth (ensure_channel_hls L :: unit handler)" by (rule smooth_intros)
    then obtain t where "(ensure_channel_hls L :: unit handler) u = (Inr (), t)" "no_faults t"
      using \<open>no_faults u\<close> unfolding smooth_def by auto
    moreover have kept: "keeps db (ensure_channel_hls L :: unit handler)" by (simp add: hls_keeps)
    ultimately show ?thesis using keeps_run [OF kept] by blast
  qed
  show "\<exists>c t. regenerate_token L s = (Inr c, t) \<and> no_faults t"
  proof -
    obtain token s1 where token: "(generate_channel_token L :: string handler) s = (Inr token, s1)" "no_faults s1" "channel (db s1) = Some row"
      using assms by (simp add: generate_channel_token_def random_token_def no_faults_def set_sys_def)
    then obtain t where "(ensure_channel_hls L :: unit handler) (s1\<lparr>db := update_channel_row (\<lambda>r. r\<lparr>cr_token := token\<rparr>) (db s1)\<rparr>) = (Inr (), t)"
        "no_faults t" using hls by (metis no_faults_db)
    then show ?thesis
      using token by (simp add: regenerate_token_def load q_exec_ok fetch update_channel_row_def)
  qed
  show "\<exists>c t. update_channel L body s = (Inr c, t) \<and> no_faults t"
  proof -
    let ?f = "\<lambda>r. r\<lparr>cr_enabled := (if unwrap_or (cr_enabled row \<noteq> 0) (cu_enabled body) then 1 else 0),
      cr_title := unwrap_or (cr_title row) (cu_title body), cr_accent := unwrap_or (cr_accent row) (double_option (cu_accent body))\<rparr>"
    let ?s = "s\<lparr>db := update_channel_row ?f (db s)\<rparr>"
    have q: "q (sql_exec (update_channel_row ?f)) s = (Inr (), ?s)" using assms(1) by (rule q_exec_ok)
    obtain t where t: "(if cu_enabled body \<noteq> None then ensure_channel_hls L else ok () :: unit handler) ?s = (Inr (), t)"
        "no_faults t" "channel (db t) = Some (?f row)"
    proof (cases "cu_enabled body = None")
      case True
      then show ?thesis using that [of ?s] assms by (simp add: update_channel_row_def)
    next
      case False
      obtain t where "(ensure_channel_hls L :: unit handler) ?s = (Inr (), t)" "no_faults t" "db t = db ?s"
        using hls [of ?s] assms(1) by auto
      then show ?thesis using that [of t] False assms(2) by (simp add: update_channel_row_def)
    qed
    then show ?thesis
      unfolding update_channel_def Let_def by (simp only: andThen_Inr load q t(1) fetch [OF t(2,3)] run_ok) simp
  qed
qed

theorem segment_stays_in_its_directory_witness:
  "\<exists>a t. (serve_segment watch_lib ''ab'' ''seg00001.ts'' None :: (app, unit, http_answer) prog) (watch_state None) = (Inr a, t) \<and>
    answer_status a = 200 \<and> CHR ''/'' \<notin> set ''seg00001.ts''"
proof -
  have "valid_segment ''seg00001.ts''" by code_simp
  then obtain a t where t: "(serve_segment watch_lib ''ab'' ''seg00001.ts'' None :: (app, unit, http_answer) prog) (watch_state None) = (Inr a, t)"
      "answer_status a = 200"
    using watch_facts by (simp add: serve_segment_def with_channel_run check_cookie_def serve_hls_run)
  then show ?thesis using segment_stays_in_its_directory [OF t] by blast
qed


theorem disabled_channel_is_served_witness:
  "\<exists>c t u a. update_channel watch_lib \<lparr>cu_enabled = Some False, cu_title = None, cu_accent = None\<rparr> (watch_state None) = (Inr c, t) \<and>
    \<not> ch_enabled c \<and> serve_playlist watch_lib (ch_token c) None u = (Inr a, u) \<and> answer_status a = 200"
proof -
  obtain c t where t: "update_channel watch_lib \<lparr>cu_enabled = Some False, cu_title = None, cu_accent = None\<rparr> (watch_state None) = (Inr c, t)"
    using channel_runs(2) [OF watch_facts(1) watch_facts(3)] by blast
  let ?u = "(watch_state None)\<lparr>db := db t\<rparr>"
  have "no_faults ?u" "files (sys ?u) p = Some [71]" for p using watch_facts by simp_all
  then show ?thesis using disabled_channel_is_served [OF t watch_facts(3), of ?u "[71]"] t by fastforce
qed

theorem accent_is_not_cleared_witness:
  "\<exists>c t. update_channel watch_lib \<lparr>cu_enabled = None, cu_title = None, cu_accent = Some None\<rparr> (watch_state None) = (Inr c, t) \<and>
    ch_accent c = Some ''red''"
proof -
  obtain c t where t: "update_channel watch_lib \<lparr>cu_enabled = None, cu_title = None, cu_accent = Some None\<rparr> (watch_state None) = (Inr c, t)"
    using channel_runs(2) [OF watch_facts(1) watch_facts(3)] by blast
  then show ?thesis using accent_is_not_cleared [OF t watch_facts(3)] by simp
qed

theorem regenerated_token_locks_out_witness:
  "\<exists>c t. regenerate_token watch_lib (watch_state None) = (Inr c, t) \<and> ch_token c \<noteq> ''ab'' \<and>
    serve_playlist watch_lib ''ab'' None t = (Inr (status_answer 404), t)"
proof -
  obtain c t where t: "regenerate_token watch_lib (watch_state None) = (Inr c, t)" "no_faults t"
    using channel_runs(1) [OF watch_facts(1) watch_facts(3)] by blast
  have "CHR ''a'' # ch_token c \<noteq> ch_token c" by simp
  then have len: "length (ch_token c) = 32" using regenerated_token_locks_out [OF t(1,2) refl] by blast
  have ne: "''ab'' \<noteq> ch_token c"
  proof
    assume "''ab'' = ch_token c"
    then have "length ''ab'' = 32" using len by (simp only:)
    then show False by simp
  qed
  show ?thesis
    by (intro exI [of _ c] exI [of _ t] conjI, rule t(1), rule not_sym [OF ne],
        rule conjunct1 [OF regenerated_token_locks_out [OF t(1,2) refl ne]])
qed

end
