(* ===== verification/Probe.thy ===== *)
theory Probe
  imports Upload Sample
begin

text \<open>
  What is learnt of an uploaded media file (\<open>media\_probe.rs\<close>): ffprobe's report
  read into a result, and a thumbnail made by ffmpeg. The two programs are the
  parameter \<open>tool\<close>: for a program, its arguments and the files it answers
  whether it succeeded, its output and the files it leaves.
\<close>

type_synonym tool = "string \<Rightarrow> string list \<Rightarrow> (string \<Rightarrow> bytes option) \<Rightarrow> bool \<times> string \<times> (string \<Rightarrow> bytes option)"

text \<open>\<open>Command::output\<close>: it fails when the program cannot be started.\<close>

definition run_tool :: "tool \<Rightarrow> string \<Rightarrow> string list \<Rightarrow> (bool \<times> string) io" where
  "run_tool T prg as = fallible (\<lambda>s. case T prg as (files (sys s)) of (success, out, fs) \<Rightarrow>
     (Inr (success, out), set_sys (\<lambda>o1. o1\<lparr>files := fs\<rparr>) s))"

section \<open>serde\_json::Value\<close>

fun json_get :: "string \<Rightarrow> json \<Rightarrow> json option" where
  "json_get k (JObj kvs) = map_of (rev kvs) k"
| "json_get k _ = None"

fun as_str :: "json \<Rightarrow> string option" where
  "as_str (JStr t) = Some t"
| "as_str _ = None"

fun as_u64 :: "json \<Rightarrow> u64 option" where
  "as_u64 (JNum n) = Some n"
| "as_u64 _ = None"

fun as_array :: "json \<Rightarrow> json list option" where
  "as_array (JArr vs) = Some vs"
| "as_array _ = None"

definition get_str :: "string \<Rightarrow> json \<Rightarrow> string option" where
  "get_str k v = Option.bind (json_get k v) as_str"

section \<open>The result\<close>

record probe_result =
  pr_duration_ms :: u64
  pr_width :: "u32 option"
  pr_height :: "u32 option"
  pr_codec :: "string option"
  pr_fps :: "u64 option"
  pr_audio_codec :: "string option"
  pr_audio_sample_rate :: "u32 option"
  pr_bitrate_kbps :: "u32 option"

definition default_probe :: probe_result where
  "default_probe = \<lparr>pr_duration_ms = 0, pr_width = None, pr_height = None, pr_codec = None, pr_fps = None,
     pr_audio_codec = None, pr_audio_sample_rate = None, pr_bitrate_kbps = None\<rparr>"

definition json_option :: "('a \<Rightarrow> json) \<Rightarrow> 'a option \<Rightarrow> json" where
  "json_option f v = (case v of None \<Rightarrow> JNull | Some a \<Rightarrow> f a)"

definition json_of_probe :: "probe_result \<Rightarrow> json" where
  "json_of_probe p = JObj
    [(''duration_ms'', JNum (pr_duration_ms p)),
     (''width'', json_option (\<lambda>w. JNum (ucast w)) (pr_width p)),
     (''height'', json_option (\<lambda>w. JNum (ucast w)) (pr_height p)),
     (''codec'', json_option JStr (pr_codec p)),
     (''fps'', json_option JFloat (pr_fps p)),
     (''audio_codec'', json_option JStr (pr_audio_codec p)),
     (''audio_sample_rate'', json_option (\<lambda>w. JNum (ucast w)) (pr_audio_sample_rate p)),
     (''bitrate_kbps'', json_option (\<lambda>w. JNum (ucast w)) (pr_bitrate_kbps p))]"

section \<open>Reading ffprobe's report\<close>

definition probe_format :: "lib \<Rightarrow> json \<Rightarrow> probe_result \<Rightarrow> probe_result" where
  "probe_format L fmt p =
    (let p1 = (case Option.bind (get_str ''duration'' fmt) (f64_parse L) of
           None \<Rightarrow> p | Some secs \<Rightarrow> p\<lparr>pr_duration_ms := f64_millis L secs\<rparr>)
     in case Option.bind (get_str ''bit_rate'' fmt) (parse_unsigned (2 ^ 64)) of
          None \<Rightarrow> p1 | Some bps \<Rightarrow> p1\<lparr>pr_bitrate_kbps := Some (of_nat (bps div 1000))\<rparr>)"

fun split_slash :: "string \<Rightarrow> string list" where
  "split_slash [] = [[]]"
| "split_slash (c # cs) = (if c = CHR ''/'' then [] # split_slash cs
     else case split_slash cs of [] \<Rightarrow> [[c]] | p # ps \<Rightarrow> (c # p) # ps)"

definition frame_rate :: "lib \<Rightarrow> string \<Rightarrow> u64 option" where
  "frame_rate L rate = (case split_slash rate of
      [n, d] \<Rightarrow> (case (f64_parse L n, f64_parse L d) of
          (Some num, Some den) \<Rightarrow> if f64_positive L den then Some (f64_div L num den) else None
        | _ \<Rightarrow> None)
    | _ \<Rightarrow> None)"

definition probe_stream :: "lib \<Rightarrow> json \<Rightarrow> probe_result \<Rightarrow> probe_result" where
  "probe_stream L stream p =
    (let codec_type = unwrap_or '''' (get_str ''codec_type'' stream);
         p1 = (if codec_type = ''video'' \<and> pr_width p = None
           then p\<lparr>pr_width := map_option ucast (Option.bind (json_get ''width'' stream) as_u64),
                  pr_height := map_option ucast (Option.bind (json_get ''height'' stream) as_u64),
                  pr_codec := get_str ''codec_name'' stream,
                  pr_fps := (case Option.bind (get_str ''r_frame_rate'' stream) (frame_rate L) of
                     None \<Rightarrow> pr_fps p | Some r \<Rightarrow> Some r)\<rparr>
           else p)
     in if codec_type = ''audio'' \<and> pr_audio_codec p1 = None
        then p1\<lparr>pr_audio_codec := get_str ''codec_name'' stream,
                pr_audio_sample_rate := map_option of_nat
                  (Option.bind (get_str ''sample_rate'' stream) (parse_unsigned (2 ^ 32)))\<rparr>
        else p1)"

definition read_probe :: "lib \<Rightarrow> json \<Rightarrow> probe_result" where
  "read_probe L j =
    (let p = (case json_get ''format'' j of None \<Rightarrow> default_probe | Some fmt \<Rightarrow> probe_format L fmt default_probe)
     in case Option.bind (json_get ''streams'' j) as_array of
          None \<Rightarrow> p | Some streams \<Rightarrow> fold (probe_stream L) streams p)"

definition probe_file :: "lib \<Rightarrow> tool \<Rightarrow> string \<Rightarrow> (app, 'e, probe_result option) prog" where
  "probe_file L T path =
    andThen (attempt (run_tool T ''ffprobe''
      [''-v'', ''quiet'', ''-print_format'', ''json'', ''-show_format'', ''-show_streams'', path])) (\<lambda>r.
    ok (case r of
        Inr (success, out) \<Rightarrow> if success then map_option (read_probe L) (json_of_text L out) else None
      | Inl (e :: string) \<Rightarrow> None))"

section \<open>Thumbnails\<close>

definition thumb_args :: "string \<Rightarrow> string \<Rightarrow> string \<Rightarrow> string \<Rightarrow> string list" where
  "thumb_args seek video_path filter_text thumb_path =
    [''-y'', ''-hide_banner'', ''-loglevel'', ''error'', ''-ss'', seek, ''-i'', video_path,
     ''-vf'', filter_text, ''-frames:v'', ''1'', ''-q:v'', ''5'', thumb_path]"

text \<open>A thumbnail of at most 500 bytes counts as black: a second attempt a tenth of
  a second in. \<open>fs::metadata\<close> can fail.\<close>

definition generate_thumbnail :: "tool \<Rightarrow> string \<Rightarrow> string \<Rightarrow> string \<Rightarrow> (app, 'e, string option) prog" where
  "generate_thumbnail T video_path output_dir asset_id =
    (let thumb_path = path_join output_dir (asset_id @ ''_thumb.jpg'') in
     andThen (attempt (run_tool T ''ffmpeg'' (thumb_args ''1'' video_path ''thumbnail=300,scale=320:-1'' thumb_path))) (\<lambda>result.
     andThen (gets (\<lambda>s. files (sys s) thumb_path)) (\<lambda>made.
     if (case result of Inr (success, _) \<Rightarrow> success | Inl (e :: string) \<Rightarrow> False) \<and> made \<noteq> None then
       andThen (attempt (fallible (gets (\<lambda>s. case files (sys s) thumb_path of None \<Rightarrow> 0 | Some b \<Rightarrow> length b)))) (\<lambda>size.
       if (case size of Inr n \<Rightarrow> 500 < n | Inl (e :: string) \<Rightarrow> False) then ok (Some thumb_path)
       else then_do (ignore (run_tool T ''ffmpeg'' (thumb_args ''0.1'' video_path ''scale=320:-1'' thumb_path)))
           (andThen (gets (\<lambda>s. files (sys s) thumb_path)) (\<lambda>again.
            ok (if again \<noteq> None then Some thumb_path else None))))
     else ok None)))"

end
