(* ===== verification/Library.thy ===== *)
theory Library
  imports Probe Pipeline
begin

text \<open>
  The media library (\<open>routes/assets.rs\<close>) and the stingers (\<open>routes/stingers.rs\<close>):
  uploads, the rows that describe the files, the folders, and the routes that
  serve what was uploaded.
\<close>

section \<open>Assets\<close>

record asset =
  as_id :: string
  as_name :: string
  as_asset_type :: string
  as_file_path :: string
  as_file_size :: i64
  as_mime_type :: string
  as_folder_id :: "string option"
  as_loop_mode :: string
  as_duration_ms :: i64
  as_start_ms :: i64
  as_opaque_ms :: i64
  as_clear_ms :: i64
  as_end_ms :: i64
  as_audio_behaviour :: string
  as_has_thumbnail :: bool
  as_metadata :: json
  as_created_at :: string

definition into_asset :: "lib \<Rightarrow> asset_row \<Rightarrow> asset" where
  "into_asset L r =
    \<lparr>as_id = ar_id r, as_name = ar_name r, as_asset_type = ar_asset_type r, as_file_path = ar_file_path r,
     as_file_size = ar_file_size r, as_mime_type = ar_mime_type r, as_folder_id = ar_folder_id r,
     as_loop_mode = ar_loop_mode r, as_duration_ms = ar_duration_ms r, as_start_ms = ar_start_ms r,
     as_opaque_ms = ar_opaque_ms r, as_clear_ms = ar_clear_ms r, as_end_ms = ar_end_ms r,
     as_audio_behaviour = ar_audio_behaviour r, as_has_thumbnail = (ar_thumbnail_path r \<noteq> []),
     as_metadata = unwrap_or (JObj []) (json_of_text L (ar_metadata r)), as_created_at = ar_created_at r\<rparr>"

text \<open>\<open>ORDER BY asset\_type, name\<close>; the folder of the query is put into the
  statement without its quotes.\<close>

definition order_assets :: "asset_row list \<Rightarrow> asset_row list" where
  "order_assets rs = sort_key ar_asset_type (sort_key ar_name rs)"

definition in_folder :: "string option \<Rightarrow> asset_row \<Rightarrow> bool" where
  "in_folder param r = (case param of
      None \<Rightarrow> True
    | Some folder \<Rightarrow> if folder = ''none'' then ar_folder_id r = None
        else ar_folder_id r = Some (filter (\<lambda>c. c \<noteq> CHR 0x27) folder))"

definition list_assets :: "lib \<Rightarrow> string option \<Rightarrow> asset list handler" where
  "list_assets L param =
    andThen (q (sql_read (\<lambda>d. order_assets (filter (in_folder param) (assets d))))) (\<lambda>rs. ok (map (into_asset L) rs))"

definition find_asset :: "string \<Rightarrow> db \<Rightarrow> asset_row option" where
  "find_asset i d = find (\<lambda>r. ar_id r = i) (assets d)"

definition fetch_asset :: "string \<Rightarrow> asset_row handler" where
  "fetch_asset i = andThen (q (sql_read (find_asset i))) (need (NotFound (''asset '' @ i)))"

definition get_asset :: "lib \<Rightarrow> string \<Rightarrow> asset handler" where
  "get_asset L i = andThen (fetch_asset i) (\<lambda>r. ok (into_asset L r))"

text \<open>\<open>UpdateAsset\<close>, the folder as the JSON body has it.\<close>

record asset_update =
  ua_name :: "string option"
  ua_folder_id :: "string option option"
  ua_loop_mode :: "string option"
  ua_duration_ms :: "i64 option"
  ua_start_ms :: "i64 option"
  ua_opaque_ms :: "i64 option"
  ua_clear_ms :: "i64 option"
  ua_end_ms :: "i64 option"
  ua_audio_behaviour :: "string option"

definition apply_asset_update :: "asset_update \<Rightarrow> asset_row \<Rightarrow> asset_row \<Rightarrow> asset_row" where
  "apply_asset_update b existing r = r\<lparr>
     ar_name := unwrap_or (ar_name existing) (ua_name b),
     ar_folder_id := unwrap_or (ar_folder_id existing) (double_option (ua_folder_id b)),
     ar_loop_mode := unwrap_or (ar_loop_mode existing) (ua_loop_mode b),
     ar_duration_ms := unwrap_or (ar_duration_ms existing) (ua_duration_ms b),
     ar_start_ms := unwrap_or (ar_start_ms existing) (ua_start_ms b),
     ar_opaque_ms := unwrap_or (ar_opaque_ms existing) (ua_opaque_ms b),
     ar_clear_ms := unwrap_or (ar_clear_ms existing) (ua_clear_ms b),
     ar_end_ms := unwrap_or (ar_end_ms existing) (ua_end_ms b),
     ar_audio_behaviour := unwrap_or (ar_audio_behaviour existing) (ua_audio_behaviour b)\<rparr>"

definition reread_asset :: "lib \<Rightarrow> string \<Rightarrow> asset handler" where
  "reread_asset L i = andThen (q (sql_read (find_asset i))) (\<lambda>row.
     andThen (need (Database ''no rows returned'') row) (\<lambda>r. ok (into_asset L r)))"

definition update_asset :: "lib \<Rightarrow> string \<Rightarrow> asset_update \<Rightarrow> asset handler" where
  "update_asset L i body =
    andThen (fetch_asset i) (\<lambda>existing.
    then_do (q (sql_exec (\<lambda>d. d\<lparr>assets := update_where (\<lambda>r. ar_id r = i) (apply_asset_update body existing) (assets d)\<rparr>)))
            (reread_asset L i))"

definition delete_asset :: "string \<Rightarrow> unit handler" where
  "delete_asset i =
    andThen (q (sql_read (find_asset i))) (\<lambda>row.
    then_do (case row of None \<Rightarrow> ok () | Some r \<Rightarrow> ignore (remove_file (ar_file_path r)))
   (andThen (q (sql_count (\<lambda>d. count_where (\<lambda>r. ar_id r = i) (assets d))
      (\<lambda>d. d\<lparr>assets := delete_where (\<lambda>r. ar_id r = i) (assets d)\<rparr>))) (\<lambda>rows.
    check (rows \<noteq> 0) (NotFound (''asset '' @ i)))))"

section \<open>Uploading an asset\<close>

record asset_form =
  af_name :: "string option"
  af_folder_id :: "string option"
  af_upload :: "(string \<times> bytes \<times> string) option"

definition asset_field :: "form_field \<Rightarrow> asset_form \<Rightarrow> asset_form handler" where
  "asset_field x a =
    (let field_name = unwrap_or '''' (ff_name x)
     in if field_name = ''name'' then andThen (or_bad_request (ff_text x)) (\<lambda>t. ok (a\<lparr>af_name := Some t\<rparr>))
        else if field_name = ''folder_id'' then andThen (or_bad_request (ff_text x)) (\<lambda>t.
          ok (if t \<noteq> [] then a\<lparr>af_folder_id := Some t\<rparr> else a))
        else if field_name = ''file'' then andThen (or_bad_request (ff_bytes x)) (\<lambda>data.
          ok (a\<lparr>af_upload := Some (unwrap_or ''upload'' (ff_file_name x), data,
                                    unwrap_or ''application/octet-stream'' (ff_content_type x))\<rparr>))
        else ok a)"

definition plain_name :: "string \<Rightarrow> string" where
  "plain_name t = map (\<lambda>c. if is_alphanumeric c \<or> c = CHR ''-'' \<or> c = CHR ''_'' \<or> c = CHR ''.'' then c else CHR ''_'') t"

definition upload_extension :: "string \<Rightarrow> string" where
  "upload_extension filename = to_lowercase (unwrap_or '''' (path_extension filename))"

definition asset_type_of :: "string \<Rightarrow> string \<Rightarrow> string" where
  "asset_type_of ext content_type =
    (if ext \<in> {''png'', ''jpg'', ''jpeg'', ''gif'', ''svg'', ''webp''} then ''image''
     else if ext \<in> {''webm'', ''mov''} then ''stinger''
     else if ext \<in> {''mp4'', ''mkv'', ''avi''} then ''video''
     else if starts_with ''image/'' content_type then ''image'' else ''video'')"

definition mime_of :: "string \<Rightarrow> string \<Rightarrow> string" where
  "mime_of ext content_type =
    (if ext = ''png'' then ''image/png''
     else if ext = ''jpg'' \<or> ext = ''jpeg'' then ''image/jpeg''
     else if ext = ''gif'' then ''image/gif''
     else if ext = ''svg'' then ''image/svg+xml''
     else if ext = ''webp'' then ''image/webp''
     else if ext = ''webm'' then ''video/webm''
     else if ext = ''mov'' then ''video/quicktime''
     else if ext = ''mp4'' then ''video/mp4''
     else content_type)"

definition insert_asset :: "asset_row \<Rightarrow> db \<Rightarrow> db option" where
  "insert_asset r d = map_option (\<lambda>rs. d\<lparr>assets := rs\<rparr>) (insert_row ar_id r (assets d))"

text \<open>What is known of the stored file, and the row with the defaults of the table.\<close>

definition describe_upload :: "lib \<Rightarrow> tool \<Rightarrow> string \<Rightarrow> string \<Rightarrow> uuid \<Rightarrow> string \<Rightarrow> (app, 'e, u64 \<times> string \<times> string) prog" where
  "describe_upload L T library_dir file_path i asset_type =
    andThen (probe_file L T file_path) (\<lambda>probe.
    let duration_ms = (case probe of None \<Rightarrow> 0 | Some p \<Rightarrow> pr_duration_ms p);
        metadata = json_to_text L (json_of_probe (unwrap_or default_probe probe));
        thumb_dir = path_join library_dir ''thumbnails'' in
    then_do (ignore (create_dir_all thumb_dir))
   (andThen (if asset_type \<noteq> ''image'' then generate_thumbnail T file_path thumb_dir (show_uuid L i) else ok None) (\<lambda>thumb.
    ok (duration_ms, metadata, unwrap_or '''' thumb))))"

definition upload_asset :: "lib \<Rightarrow> tool \<Rightarrow> form \<Rightarrow> (u16 \<times> asset) handler" where
  "upload_asset L T fs =
    andThen (read_form asset_field fs \<lparr>af_name = None, af_folder_id = None, af_upload = None\<rparr>) (\<lambda>a.
    andThen (need (BadRequest ''no file provided'') (af_upload a)) (\<lambda>(filename, data, content_type).
    let name = unwrap_or (plain_name filename) (af_name a);
        ext = upload_extension filename;
        asset_type = asset_type_of ext content_type in
    andThen (gets (\<lambda>s. path_join (data_dir (cfg s)) ''library'')) (\<lambda>library_dir.
    then_do (map_err (\<lambda>e. Internal (''create dir: '' @ e)) (create_dir_all library_dir))
   (andThen (fresh_uuid L) (\<lambda>i.
    let file_path = path_join library_dir (show_uuid L i @ ''.'' @ ext) in
    then_do (save_file file_path data)
   (andThen (describe_upload L T library_dir file_path i asset_type) (\<lambda>(duration_ms, metadata, thumbnail_path).
    andThen now (\<lambda>t.
    then_do (q (sql_try (insert_asset
      \<lparr>ar_id = show_uuid L i, ar_name = name, ar_asset_type = asset_type, ar_file_path = file_path,
       ar_file_size = of_nat (length data), ar_mime_type = mime_of ext content_type, ar_folder_id = af_folder_id a,
       ar_loop_mode = ''one_shot'', ar_duration_ms = duration_ms, ar_start_ms = 0, ar_opaque_ms = 0, ar_clear_ms = 0,
       ar_end_ms = 0, ar_audio_behaviour = [CHR 0x22] @ ''silent'' @ [CHR 0x22], ar_thumbnail_path = thumbnail_path,
       ar_metadata = metadata, ar_created_at = sql_datetime L t\<rparr>)))
            (andThen (reread_asset L (show_uuid L i)) (\<lambda>created. ok (201, created)))))))))))"

section \<open>Folders\<close>

record folder =
  fo_id :: string
  fo_name :: string
  fo_parent_id :: "string option"
  fo_color :: string
  fo_created_at :: string

definition into_folder :: "folder_row \<Rightarrow> folder" where
  "into_folder r = \<lparr>fo_id = fr_id r, fo_name = fr_name r, fo_parent_id = fr_parent_id r, fo_color = fr_color r,
     fo_created_at = fr_created_at r\<rparr>"

definition list_folders :: "folder list handler" where
  "list_folders = andThen (q (sql_read (\<lambda>d. sort_key fr_name (folders d)))) (\<lambda>rs. ok (map into_folder rs))"

text \<open>The parent is a foreign key: it is absent or a folder.\<close>

definition insert_folder :: "folder_row \<Rightarrow> db \<Rightarrow> db option" where
  "insert_folder r d =
    (if (case fr_parent_id r of None \<Rightarrow> True | Some p \<Rightarrow> p \<in> fr_id ` set (folders d) \<or> p = fr_id r)
     then map_option (\<lambda>rs. d\<lparr>folders := rs\<rparr>) (insert_row fr_id r (folders d)) else None)"

definition find_folder :: "string \<Rightarrow> db \<Rightarrow> folder_row option" where
  "find_folder i d = find (\<lambda>r. fr_id r = i) (folders d)"

definition reread_folder :: "string \<Rightarrow> folder handler" where
  "reread_folder i = andThen (q (sql_read (find_folder i))) (\<lambda>row.
     andThen (need (Database ''no rows returned'') row) (\<lambda>r. ok (into_folder r)))"

definition create_folder :: "lib \<Rightarrow> string \<Rightarrow> string option \<Rightarrow> string option \<Rightarrow> (u16 \<times> folder) handler" where
  "create_folder L name parent_id body_color =
    andThen (fresh_uuid L) (\<lambda>u.
    let i = show_uuid L u; color = unwrap_or ''#6366f1'' body_color in
    andThen now (\<lambda>t.
    then_do (q (sql_try (insert_folder
      \<lparr>fr_id = i, fr_name = name, fr_parent_id = parent_id, fr_color = color, fr_created_at = sql_datetime L t\<rparr>)))
            (andThen (reread_folder i) (\<lambda>f. ok (201, f)))))"

definition update_folder :: "string \<Rightarrow> string option \<Rightarrow> string option \<Rightarrow> folder handler" where
  "update_folder i body_name body_color =
    andThen (q (sql_read (find_folder i))) (\<lambda>row.
    andThen (need (NotFound (''folder '' @ i)) row) (\<lambda>existing.
    let name = unwrap_or (fr_name existing) body_name; color = unwrap_or (fr_color existing) body_color in
    then_do (q (sql_exec (\<lambda>d. d\<lparr>folders := update_where (\<lambda>r. fr_id r = i)
      (\<lambda>r. r\<lparr>fr_name := name, fr_color := color\<rparr>) (folders d)\<rparr>)))
            (reread_folder i)))"

definition empty_folder :: "string \<Rightarrow> db \<Rightarrow> db" where
  "empty_folder i d = d\<lparr>assets := update_where (\<lambda>r. ar_folder_id r = Some i) (\<lambda>r. r\<lparr>ar_folder_id := None\<rparr>) (assets d)\<rparr>"

definition delete_folder :: "string \<Rightarrow> unit handler" where
  "delete_folder i =
    then_do (q (sql_exec (empty_folder i)))
   (andThen (q (sql_count (\<lambda>d. count_where (\<lambda>r. fr_id r = i) (folders d)) (delete_folder_row i))) (\<lambda>rows.
    check (rows \<noteq> 0) (NotFound (''folder '' @ i))))"

section \<open>Serving\<close>

definition asset_answer :: "string \<Rightarrow> bytes \<Rightarrow> http_answer" where
  "asset_answer mime data = Answer 200 [(''content-type'', mime), (''cache-control'', ''public, max-age=86400'')] data"

definition serve_file :: "string \<Rightarrow> http_answer handler" where
  "serve_file i =
    andThen (fetch_asset i) (\<lambda>r.
    andThen (map_err (\<lambda>e. Internal (''read file: '' @ e)) (read_file (ar_file_path r))) (\<lambda>data.
    ok (asset_answer (ar_mime_type r) data)))"

definition serve_thumbnail :: "string \<Rightarrow> http_answer handler" where
  "serve_thumbnail i =
    andThen (fetch_asset i) (\<lambda>r.
    then_do (check (ar_thumbnail_path r \<noteq> []) (NotFound ''no thumbnail''))
   (andThen (map_err (\<lambda>e. Internal (''read thumbnail: '' @ e)) (read_file (ar_thumbnail_path r))) (\<lambda>data.
    ok (asset_answer ''image/jpeg'' data))))"

section \<open>routes/stingers.rs\<close>

text \<open>\<open>as i64\<close> and \<open>as u64\<close> keep the bits, so both are the same word here.\<close>

definition into_stinger :: "lib \<Rightarrow> stinger_row \<Rightarrow> stinger_config" where
  "into_stinger L r =
    \<lparr>st_id = unwrap_or 0 (parse_uuid L (sg_id r)), st_name = sg_name r, st_file_path = sg_file_path r,
     st_duration_ms = sg_duration_ms r, st_start_ms = sg_start_ms r, st_opaque_ms = sg_opaque_ms r,
     st_clear_ms = sg_clear_ms r, st_end_ms = sg_end_ms r,
     st_audio = unwrap_or Silent (audio_of_json L (sg_audio_behaviour r)), st_thumbnail = sg_thumbnail_path r\<rparr>"

definition list_stingers :: "lib \<Rightarrow> stinger_config list handler" where
  "list_stingers L = andThen (q (sql_read stingers)) (\<lambda>rs. ok (map (into_stinger L) rs))"

definition insert_stinger :: "stinger_row \<Rightarrow> unit handler" where
  "insert_stinger r = q (sql_try (\<lambda>d. map_option (\<lambda>rs. d\<lparr>stingers := rs\<rparr>) (insert_row sg_id r (stingers d))))"

record stinger_create =
  cs_name :: string
  cs_file_path :: string
  cs_duration_ms :: "u64 option"
  cs_start_ms :: "u64 option"
  cs_opaque_ms :: "u64 option"
  cs_clear_ms :: "u64 option"
  cs_end_ms :: "u64 option"
  cs_audio :: "stinger_audio option"

definition create_stinger :: "lib \<Rightarrow> stinger_create \<Rightarrow> (u16 \<times> stinger_config) handler" where
  "create_stinger L body =
    andThen (fresh_uuid L) (\<lambda>i.
    let audio = unwrap_or Silent (cs_audio body) in
    then_do (insert_stinger
      \<lparr>sg_id = show_uuid L i, sg_name = cs_name body, sg_file_path = cs_file_path body,
       sg_duration_ms = unwrap_or 0 (cs_duration_ms body), sg_start_ms = unwrap_or 0 (cs_start_ms body),
       sg_opaque_ms = unwrap_or 0 (cs_opaque_ms body), sg_clear_ms = unwrap_or 0 (cs_clear_ms body),
       sg_end_ms = unwrap_or 0 (cs_end_ms body), sg_audio_behaviour = audio_to_json L audio, sg_thumbnail_path = ''''\<rparr>)
            (ok (201, \<lparr>st_id = i, st_name = cs_name body, st_file_path = cs_file_path body,
               st_duration_ms = unwrap_or 0 (cs_duration_ms body), st_start_ms = unwrap_or 0 (cs_start_ms body),
               st_opaque_ms = unwrap_or 0 (cs_opaque_ms body), st_clear_ms = unwrap_or 0 (cs_clear_ms body),
               st_end_ms = unwrap_or 0 (cs_end_ms body), st_audio = audio, st_thumbnail = ''''\<rparr>)))"

definition fetch_stinger :: "string \<Rightarrow> stinger_row handler" where
  "fetch_stinger i = andThen (q (sql_read (\<lambda>d. find (\<lambda>r. sg_id r = i) (stingers d)))) (need (NotFound (''stinger '' @ i)))"

definition get_stinger :: "lib \<Rightarrow> string \<Rightarrow> stinger_config handler" where
  "get_stinger L i = andThen (fetch_stinger i) (\<lambda>r. ok (into_stinger L r))"

record stinger_update =
  up_name :: "string option"
  up_start_ms :: "u64 option"
  up_opaque_ms :: "u64 option"
  up_clear_ms :: "u64 option"
  up_end_ms :: "u64 option"
  up_audio :: "stinger_audio option"

definition update_stinger :: "lib \<Rightarrow> string \<Rightarrow> stinger_update \<Rightarrow> stinger_config handler" where
  "update_stinger L i body =
    andThen (fetch_stinger i) (\<lambda>existing.
    let name = unwrap_or (sg_name existing) (up_name body);
        start_ms = unwrap_or (sg_start_ms existing) (up_start_ms body);
        opaque_ms = unwrap_or (sg_opaque_ms existing) (up_opaque_ms body);
        clear_ms = unwrap_or (sg_clear_ms existing) (up_clear_ms body);
        end_ms = unwrap_or (sg_end_ms existing) (up_end_ms body);
        audio = unwrap_or (unwrap_or Silent (audio_of_json L (sg_audio_behaviour existing))) (up_audio body) in
    then_do (q (sql_exec (\<lambda>d. d\<lparr>stingers := update_where (\<lambda>r. sg_id r = i)
      (\<lambda>r. r\<lparr>sg_name := name, sg_start_ms := start_ms, sg_opaque_ms := opaque_ms, sg_clear_ms := clear_ms,
         sg_end_ms := end_ms, sg_audio_behaviour := audio_to_json L audio\<rparr>) (stingers d)\<rparr>)))
            (ok \<lparr>st_id = unwrap_or 0 (parse_uuid L i), st_name = name, st_file_path = sg_file_path existing,
               st_duration_ms = sg_duration_ms existing, st_start_ms = start_ms, st_opaque_ms = opaque_ms,
               st_clear_ms = clear_ms, st_end_ms = end_ms, st_audio = audio, st_thumbnail = sg_thumbnail_path existing\<rparr>))"

definition delete_stinger :: "string \<Rightarrow> unit handler" where
  "delete_stinger i =
    andThen (q (sql_count (\<lambda>d. count_where (\<lambda>r. sg_id r = i) (stingers d))
      (\<lambda>d. d\<lparr>stingers := delete_where (\<lambda>r. sg_id r = i) (stingers d)\<rparr>))) (\<lambda>rows.
    check (rows \<noteq> 0) (NotFound (''stinger '' @ i)))"

definition trigger_stinger :: "lib \<Rightarrow> uuid \<Rightarrow> uuid \<Rightarrow> unit handler" where
  "trigger_stinger L i target =
    then_do (fetch_stinger (show_uuid L i)) (trigger_stinger_transition i target)"

definition stinger_field ::
    "form_field \<Rightarrow> string option \<times> (string \<times> bytes) option \<Rightarrow> (string option \<times> (string \<times> bytes) option) handler" where
  "stinger_field x a =
    (let field_name = unwrap_or '''' (ff_name x)
     in if field_name = ''name'' then andThen (or_bad_request (ff_text x)) (\<lambda>t. ok (Some t, snd a))
        else if field_name = ''file'' then andThen (or_bad_request (ff_bytes x)) (\<lambda>data.
          ok (fst a, Some (unwrap_or ''upload.webm'' (ff_file_name x), data)))
        else ok a)"

definition sanitize_filename :: "string \<Rightarrow> string" where
  "sanitize_filename name =
    take 50 (map (\<lambda>c. if is_alphanumeric c \<or> c = CHR ''-'' \<or> c = CHR ''_'' then c else CHR ''_'') name)"

definition upload_stinger :: "lib \<Rightarrow> form \<Rightarrow> (u16 \<times> stinger_config) handler" where
  "upload_stinger L fs =
    andThen (read_form stinger_field fs (None, None)) (\<lambda>(form_name, file_data).
    andThen (need (BadRequest ''no file provided'') file_data) (\<lambda>(filename, data).
    let name = unwrap_or filename form_name in
    andThen (gets (\<lambda>s. path_join (data_dir (cfg s)) ''library'')) (\<lambda>library_dir.
    then_do (map_err (\<lambda>e. Internal (''failed to create library dir: '' @ e)) (create_dir_all library_dir))
   (andThen (fresh_uuid L) (\<lambda>i.
    let ext = unwrap_or ''webm'' (path_extension filename);
        file_path = path_join library_dir (show_uuid L i @ ''_'' @ sanitize_filename name @ ''.'' @ ext) in
    then_do (map_err (\<lambda>e. Internal (''failed to create file: '' @ e)) (write_file file_path []))
   (then_do (map_err (\<lambda>e. Internal (''failed to write file: '' @ e)) (write_file file_path data))
   (then_do (insert_stinger
      \<lparr>sg_id = show_uuid L i, sg_name = name, sg_file_path = file_path, sg_duration_ms = 0, sg_start_ms = 0,
       sg_opaque_ms = 0, sg_clear_ms = 0, sg_end_ms = 0, sg_audio_behaviour = audio_to_json L Silent, sg_thumbnail_path = ''''\<rparr>)
            (ok (201, \<lparr>st_id = i, st_name = name, st_file_path = file_path, st_duration_ms = 0, st_start_ms = 0,
               st_opaque_ms = 0, st_clear_ms = 0, st_end_ms = 0, st_audio = Silent, st_thumbnail = ''''\<rparr>)))))))))"

section \<open>What an upload leaves\<close>

lemma no_slash_file_name: "CHR ''/'' \<notin> set (file_name p)"
  using set_takeWhileD [of "CHR ''/''" "\<lambda>c. c \<noteq> CHR ''/''"] by (auto simp: file_name_def)

lemma path_extension_set: "path_extension p = Some e \<Longrightarrow> set e \<subseteq> set (file_name p)"
  using set_takeWhileD [of _ "\<lambda>c. c \<noteq> CHR ''.''" "rev (file_name p)"]
  by (auto simp: path_extension_def Let_def split: if_splits)

lemma no_slash_extension: "path_extension p = Some e \<Longrightarrow> CHR ''/'' \<notin> set e"
  using path_extension_set no_slash_file_name by fastforce

lemma no_slash_sanitized: "CHR ''/'' \<notin> set (sanitize_filename t)"
  using set_take_subset [of 50] by (fastforce simp: sanitize_filename_def is_alphanumeric_def)

definition library_of :: "app \<Rightarrow> string" where
  "library_of s = path_join (data_dir (cfg s)) ''library''"

lemma library_join:
  assumes "x \<noteq> []" "hd x \<noteq> CHR ''/''"
  shows "path_join (library_of s) x = library_of s @ ''/'' @ x"
proof -
  have "library_of s \<noteq> []" "last (library_of s) = CHR ''y''"
    by (simp_all add: library_of_def path_join_def)
  then show ?thesis using assms by (simp add: path_join_def)
qed

text \<open>A UUID is written with hexadecimal digits and hyphens.\<close>

definition uuid_plain :: "lib \<Rightarrow> bool" where
  "uuid_plain L \<longleftrightarrow> (\<forall>i. show_uuid L i \<noteq> [] \<and> CHR ''/'' \<notin> set (show_uuid L i))"

lemma stored_path:
  assumes "uuid_plain L"
  shows "path_join (library_of s) (show_uuid L i @ x) = library_of s @ ''/'' @ show_uuid L i @ x"
proof -
  have "show_uuid L i \<noteq> []" "hd (show_uuid L i) \<noteq> CHR ''/''"
    using assms unfolding uuid_plain_def by (metis hd_in_set)+
  then show ?thesis using library_join [of "show_uuid L i @ x"] by simp
qed

text \<open>The files that differ between two states.\<close>

definition touched :: "app \<Rightarrow> app \<Rightarrow> string set" where
  "touched s t = {p. files (sys t) p \<noteq> files (sys s) p}"

lemma write_file_touches: "touched s (snd (write_file p c s)) \<subseteq> {p}"
  by (auto simp: touched_def write_file_def fallible_def set_sys_def split: option.split)

text \<open>What the disk holds and where the library lies: the statements and the other
  calls leave both alone.\<close>

definition disk :: "app \<Rightarrow> string \<times> (string \<Rightarrow> bytes option)" where
  "disk s = (library_of s, files (sys s))"

lemma disk_simps [simp]:
  "disk (s\<lparr>db := d\<rparr>) = disk s" "disk (drop_fault s) = disk s"
  "(\<And>o1. files (g o1) = files o1) \<Longrightarrow> disk (set_sys g s) = disk s"
  by (simp_all add: disk_def library_of_def set_sys_def drop_fault_def)

lemma disk_fallible: "keeps disk m \<Longrightarrow> keeps disk (fallible m)"
  by (auto simp: keeps_def fallible_def split: option.split)

lemma disk_calls [simp, intro]:
  "keeps disk (q (sql_read f))" "keeps disk (q (sql_exec g))" "keeps disk (q (sql_count n g))" "keeps disk (q (sql_try h))"
  "keeps disk (fresh_uuid L)" "keeps disk now" "keeps disk (create_dir_all p)" "keeps disk (read_file p)"
  unfolding sql_read_def sql_exec_def sql_count_def sql_try_def create_dir_all_def read_file_def fresh_uuid_def now_def
  by ((intro keeps_wrap disk_fallible keeps_pure)?; simp add: keeps_def split: option.split)+

lemma disk_fields: "keeps disk (asset_field x a)" "keeps disk (stinger_field x b)"
  by (simp_all add: asset_field_def stinger_field_def Let_def keeps_andThen keeps_pure keeps_or_bad_request)

text \<open>Writing one file, whatever part of it fails.\<close>

lemma save_touches:
  assumes "keeps disk m" "touched s u \<subseteq> {p}"
  shows "touched s (snd (then_do (map_err g (write_file p c)) (then_do (map_err h (write_file p d)) m) u)) \<subseteq> {p}"
proof -
  have wr: "preserves (\<lambda>u. touched s u \<subseteq> {p}) (map_err f (write_file p e))" for f :: "string \<Rightarrow> 'e" and e
    by (intro preserves_wrap) (auto simp: preserves_def touched_def write_file_def fallible_def set_sys_def split: option.split)
  have rest: "preserves (\<lambda>u. touched s u \<subseteq> {p}) m"
    using preserves_by_keeps [OF assms(1), of "\<lambda>d. {p. snd d p \<noteq> files (sys s) p} \<subseteq> {p}"]
    by (simp add: touched_def disk_def)
  show ?thesis
    by (rule preservesD [OF preserves_andThen [OF wr preserves_andThen [OF wr rest]] assms(2)])
qed

lemma wp_still:
  assumes "keeps disk m" "disk u = d" "\<And>t. disk t = d \<Longrightarrow> Q t" "\<And>a t. disk t = d \<Longrightarrow> wp (k a) (\<lambda>_. Q) (\<lambda>_. Q) t"
  shows "wp (andThen m k) (\<lambda>_. Q) (\<lambda>_. Q) u"
  by (rule wp_keep [OF assms(1,2,4,3)])


section \<open>An uploaded asset\<close>

text \<open>The file of a form is its last field of that name.\<close>

fun last_file :: "form \<Rightarrow> form_field option" where
  "last_file [] = None"
| "last_file (y # fs) = (case last_file fs of
      Some x \<Rightarrow> Some x
    | None \<Rightarrow> (case y of Inr x \<Rightarrow> if ff_name x = Some ''file'' then Some x else None | Inl e \<Rightarrow> None))"

lemma asset_field_upload:
  assumes "asset_field x a s = (Inr b, t)"
  shows "if ff_name x = Some ''file'' then \<exists>d. ff_bytes x = Inr d \<and> map_option (fst \<circ> snd) (af_upload b) = Some d
    else af_upload b = af_upload a"
  using assms
  by (cases "ff_name x"; cases "ff_text x"; cases "ff_bytes x")
    (auto simp: asset_field_def Let_def unwrap_or_def split: if_splits)

lemma read_asset_upload:
  assumes "read_form asset_field fs a s = (Inr b, t)"
  shows "case last_file fs of None \<Rightarrow> af_upload b = af_upload a
    | Some x \<Rightarrow> \<exists>d. ff_bytes x = Inr d \<and> map_option (fst \<circ> snd) (af_upload b) = Some d"
  using assms
proof (induction fs arbitrary: a s)
  case (Cons y fs)
  then obtain x a1 s1 where y: "y = Inr x" and x: "asset_field x a s = (Inr a1, s1)"
    and rest: "read_form asset_field fs a1 s1 = (Inr b, t)"
    by (cases y) (auto simp: andThen_Inr_iff)
  show ?case using Cons.IH [OF rest] asset_field_upload [OF x] y by (auto split: option.splits if_splits)
qed simp

text \<open>What the library expects of the two programs: ffprobe only reads, ffmpeg leaves
  every file alone but the one it is told to write.\<close>

definition careful_tool :: "tool \<Rightarrow> bool" where
  "careful_tool T \<longleftrightarrow>
    (\<forall>as fs. snd (snd (T ''ffprobe'' as fs)) = fs) \<and>
    (\<forall>as fs p. p \<noteq> last as \<longrightarrow> snd (snd (T ''ffmpeg'' as fs)) p = fs p)"

lemma run_tool_leaves:
  assumes "careful_tool T" "prg = ''ffprobe'' \<or> (prg = ''ffmpeg'' \<and> p \<noteq> last as)"
  shows "keeps (\<lambda>s. files (sys s) p) (run_tool T prg as)" "keeps db (run_tool T prg as)"
proof -
  have "snd (snd (T prg as fs)) p = fs p" for fs using assms by (auto simp: careful_tool_def)
  then show "keeps (\<lambda>s. files (sys s) p) (run_tool T prg as)" "keeps db (run_tool T prg as)"
    unfolding run_tool_def keeps_def fallible_def
    by (auto simp: set_sys_def split: prod.split option.split) (metis snd_conv)
qed

lemma describe_leaves:
  assumes "careful_tool T" "p \<noteq> path_join (path_join dir ''thumbnails'') (show_uuid L i @ ''_thumb.jpg'')"
  shows "keeps (\<lambda>s. files (sys s) p) (describe_upload L T dir path i kind :: (app, 'e, u64 \<times> string \<times> string) prog)"
    "keeps db (describe_upload L T dir path i kind :: (app, 'e, u64 \<times> string \<times> string) prog)"
proof -
  have caught: "keeps f (gets g)" "keeps (\<lambda>s. files (sys s) p) (fallible (gets h))" "keeps db (fallible (gets h))"
    "keeps (\<lambda>s. files (sys s) p) (create_dir_all d)" "keeps db (create_dir_all d)" for f g h d
    by (auto simp: keeps_def fallible_def create_dir_all_def split: option.split)
  have thumb: "p \<noteq> last (thumb_args a b c (path_join (path_join dir ''thumbnails'') (show_uuid L i @ ''_thumb.jpg'')))" for a b c
    using assms(2) by (simp add: thumb_args_def)
  note runs = run_tool_leaves [OF assms(1), of "''ffmpeg''" p, OF disjI2, OF conjI, OF refl thumb]
    run_tool_leaves [OF assms(1), of "''ffprobe''" p, OF disjI1, OF refl]
  show "keeps (\<lambda>s. files (sys s) p) (describe_upload L T dir path i kind :: (app, 'e, u64 \<times> string \<times> string) prog)"
    "keeps db (describe_upload L T dir path i kind :: (app, 'e, u64 \<times> string \<times> string) prog)"
    unfolding describe_upload_def probe_file_def generate_thumbnail_def Let_def
    by (intro keeps_core caught runs)+
qed

lemma lower_slash: "lower_char c = CHR ''/'' \<Longrightarrow> c = CHR ''/''"
proof -
  have "\<forall>c :: char \<in> set Enum.enum. lower_char c = CHR ''/'' \<longrightarrow> c = CHR ''/''" by code_simp
  then show "lower_char c = CHR ''/'' \<Longrightarrow> c = CHR ''/''" by (simp add: UNIV_enum [symmetric])
qed

lemma write_file_Inr: "write_file p c s = (Inr x, t) \<Longrightarrow> files (sys t) = (files (sys s))(p \<mapsto> c) \<and> db t = db s"
  by (auto simp: write_file_def fallible_def set_sys_def split: option.splits)

lemma save_file_Inr: "save_file p c s = (Inr x, t) \<Longrightarrow> files (sys t) p = Some c \<and> db t = db s"
  by (auto simp: save_file_def Inr_iffs dest!: write_file_Inr)

lemma find_inserted:
  assumes "insert_row key r rs = Some rs'"
  shows "find (\<lambda>x. key x = key r) rs' = Some r"
proof -
  from assms have "key r \<notin> key ` set rs" "rs' = rs @ [r]" by (auto simp: insert_row_Some)
  moreover from this(1) have "find (\<lambda>x. key x = key r) rs = None" by (metis (mono_tags, lifting) find_None_iff image_eqI)
  ultimately show ?thesis by (simp add: find_append)
qed

lemma inserted_asset: "insert_asset r d = Some d' \<Longrightarrow> find_asset (ar_id r) d' = Some r"
  by (auto simp: insert_asset_def find_asset_def dest: find_inserted)

lemma reread_asset_Inr:
  "reread_asset L i s = (Inr a, t) \<Longrightarrow> \<exists>r. find_asset i (db s) = Some r \<and> a = into_asset L r \<and> db t = db s \<and> disk t = disk s"
proof -
  assume "reread_asset L i s = (Inr a, t)"
  then obtain row where run: "q (sql_read (find_asset i)) s = (Inr row, t)" and row: "\<exists>r. row = Some r \<and> a = into_asset L r"
    unfolding reread_asset_def Inr_iffs by blast
  show ?thesis using q_read_Inr [OF run] row keeps_run [OF disk_calls(1) run] by auto
qed

lemma serve_file_run:
  assumes "no_faults s" "find_asset i (db s) = Some r" "files (sys s) (ar_file_path r) = Some data"
  shows "serve_file i s = (Inr (asset_answer (ar_mime_type r) data), s)" "get_asset L i s = (Inr (into_asset L r), s)"
proof -
  have "read_file (ar_file_path r) s = (Inr data, s)"
    using assms by (simp add: read_file_def fallible_def drop_fault_none)
  then have "map_err g (read_file (ar_file_path r)) s = (Inr data, s)" for g :: "string \<Rightarrow> mux_error"
    by (simp only: map_err_Inr_iff)
  moreover have "fetch_asset i s = (Inr r, s)"
    using assms by (simp add: fetch_asset_def andThen_Inr [OF q_read_ok])
  ultimately show "serve_file i s = (Inr (asset_answer (ar_mime_type r) data), s)" "get_asset L i s = (Inr (into_asset L r), s)"
    by (simp_all add: serve_file_def get_asset_def andThen_Inr)
qed

text \<open>The parts of an upload that was answered.\<close>

lemma upload_asset_Inr:
  assumes "upload_asset L T fs s = (Inr (code, a), t)"
  shows "\<exists>form up i r s1 s2 s3 s4 s5 x y z b.
    read_form asset_field fs \<lparr>af_name = None, af_folder_id = None, af_upload = None\<rparr> s = (Inr form, s1) \<and>
    af_upload form = Some up \<and>
    save_file (path_join (library_of s1) (show_uuid L i @ ''.'' @ upload_extension (fst up))) (fst (snd up)) s2 = (Inr y, s3) \<and>
    (describe_upload L T (library_of s1) (path_join (library_of s1) (show_uuid L i @ ''.'' @ upload_extension (fst up))) i
      (asset_type_of (upload_extension (fst up)) (snd (snd up))) :: (u64 \<times> string \<times> string) handler) s3 = (Inr x, s4) \<and>
    q (sql_try (insert_asset r)) s4 = (Inr z, s5) \<and> ar_id r = show_uuid L i \<and>
    ar_file_path r = path_join (library_of s1) (show_uuid L i @ ''.'' @ upload_extension (fst up)) \<and>
    ar_file_size r = of_nat (length (fst (snd up))) \<and> reread_asset L (show_uuid L i) s5 = (Inr b, t) \<and> (code, a) = (201, b)"
  using assms unfolding upload_asset_def Let_def split_beta Inr_iffs now_def library_of_def
  by (elim exE conjE, hypsubst, intro exI conjI) (assumption | simp only: asset_row.select_convs)+


section \<open>Folders and descriptions\<close>

lemma find_update_where:
  assumes "\<And>r. P (f r) = P r"
  shows "find P (update_where P f rs) = map_option f (find P rs)"
  using assms by (induction rs) (auto simp: update_where_def)

lemma wp_sql_count:
  "wp (sql_count n f) Q E s = (case next_fault s of
     Some e \<Rightarrow> E e (drop_fault s) | None \<Rightarrow> Q (n (db s)) ((drop_fault s)\<lparr>db := f (db s)\<rparr>))"
  by (simp add: wp_def sql_count_def fallible_def split: option.split)

lemma fetch_asset_Inr: "fetch_asset i s = (Inr r, t) \<Longrightarrow> find_asset i (db s) = Some r \<and> db t = db s"
  unfolding fetch_asset_def Inr_iffs by (auto dest!: q_read_Inr [of "find_asset i", unfolded map_err_Inr_iff])

text \<open>C36: Deleting a folder, answered or failed at any call, loses no asset and changes
  nothing of one but its folder; once it is answered no asset names the folder.\<close>
theorem folder_deletion_keeps_assets:
  assumes "delete_folder i s = (r, t)"
  shows "map (ar_folder_id_update (\<lambda>_. None)) (assets (db t)) = map (ar_folder_id_update (\<lambda>_. None)) (assets (db s)) \<and>
    (r = Inr () \<longrightarrow> (\<forall>a\<in>set (assets (db t)). ar_folder_id a \<noteq> Some i) \<and> find_folder i (db t) = None)"
proof -
  let ?plain = "ar_folder_id_update (\<lambda>_. None)"
  have fresh: "map ?plain (assets (empty_folder i d)) = map ?plain (assets d)"
    "\<forall>a\<in>set (assets (empty_folder i d)). ar_folder_id a \<noteq> Some i" "assets (delete_folder_row i d) = assets d"
    "find_folder i (delete_folder_row i d) = None" for d
    by (auto simp: empty_folder_def map_update_where update_where_def delete_folder_row_def find_folder_def find_None_iff
        delete_where_def)
  have emptied: "wp (q (sql_exec (empty_folder i))) (\<lambda>_ u. db u = empty_folder i (db s)) (\<lambda>_ u. db u = db s) s"
    by (simp add: sql_exec_def wp_simps split: option.split)
  have "wp (delete_folder i) (\<lambda>_ u. map ?plain (assets (db u)) = map ?plain (assets (db s)) \<and>
      (\<forall>a\<in>set (assets (db u)). ar_folder_id a \<noteq> Some i) \<and> find_folder i (db u) = None)
    (\<lambda>_ u. map ?plain (assets (db u)) = map ?plain (assets (db s))) s"
    unfolding delete_folder_def
    by (rule wp_seq, rule wp_mono [OF emptied])
      (auto simp: wp_andThen wp_map_err wp_check wp_sql_count fresh split: option.split)
  then show ?thesis using assms by (cases r) (auto simp: wp_def)
qed

text \<open>A folder of null in the body is read as no folder given: an asset that is in a
  folder is in one after every update.\<close>
theorem asset_stays_in_its_folder:
  assumes "update_asset L i body s = (Inr a, t)" "find_asset i (db s) = Some r" "ar_folder_id r \<noteq> None"
  shows "as_folder_id a \<noteq> None \<and> (ua_folder_id body \<in> {None, Some None} \<longrightarrow> as_folder_id a = ar_folder_id r)"
proof -
  from assms(1) obtain e s1 s2 u where fetch: "fetch_asset i s = (Inr e, s1)"
    and exec: "q (sql_exec (\<lambda>d. d\<lparr>assets := update_where (\<lambda>r. ar_id r = i) (apply_asset_update body e) (assets d)\<rparr>)) s1 = (Inr u, s2)"
    and reread: "reread_asset L i s2 = (Inr a, t)"
    unfolding update_asset_def Inr_iffs by blast
  have e: "e = r" "db s1 = db s"
    using fetch_asset_Inr [OF fetch] assms(2) by simp_all
  show ?thesis
  proof -
    have "find_asset i (db s2) = Some (apply_asset_update body r r)"
      using q_exec_Inr [OF exec] e assms(2) by (simp add: find_asset_def find_update_where apply_asset_update_def)
    then have "as_folder_id a = unwrap_or (ar_folder_id r) (double_option (ua_folder_id body))"
      using reread_asset_Inr [OF reread] by (simp add: into_asset_def apply_asset_update_def)
    then show ?thesis using assms(3) by (auto simp: double_option_def unwrap_or_def split: option.splits)
  qed
qed

text \<open>Deleting an asset removes the file first: when the statement that deletes the row
  then fails, the library still lists the asset and cannot serve it.\<close>
theorem failed_deletion_loses_the_file:
  assumes "faults (sys s) = [None, None, Some e]" "find_asset i (db s) = Some r" "files (sys s) (ar_file_path r) = Some data"
  shows "\<exists>t. delete_asset i s = (Inl (Database e), t) \<and> db t = db s \<and> no_faults t \<and>
    serve_file i t = (Inl (Internal ''read file: No such file or directory''), t)"
  using assms
  by (simp add: delete_asset_def serve_file_def fetch_asset_def andThen_def map_err_def sql_read_def sql_count_def
      remove_file_def read_file_def fallible_def next_fault_def drop_fault_def set_sys_def no_faults_def need_def)

text \<open>A stinger is read back as it was created.\<close>
theorem created_stinger_is_read_back:
  assumes "create_stinger L body s = (Inr (code, c), t)" "no_faults t" "uuid_text L"
    and "audio_of_json L (audio_to_json L (st_audio c)) = Some (st_audio c)"
  shows "code = 201 \<and> get_stinger L (show_uuid L (st_id c)) t = (Inr c, t)"
proof -
  obtain i r s1 u where ins: "insert_stinger r s1 = (Inr u, t)" and c: "code = 201" "sg_id r = show_uuid L i" "st_id c = i"
    and back': "audio_of_json L (sg_audio_behaviour r) = Some (st_audio c) \<Longrightarrow> uuid_text L \<Longrightarrow> into_stinger L r = c"
    "sg_audio_behaviour r = audio_to_json L (st_audio c)"
    using assms(1) unfolding create_stinger_def Let_def Inr_iffs
    by (force simp: into_stinger_def uuid_text_def unwrap_or_def)
  obtain z where "insert_row sg_id r (stingers (db s1)) = Some z" "stingers (db t) = z"
    using q_try_Inr [OF ins [unfolded insert_stinger_def]] by (auto dest!: arg_cong [where f = stingers])
  then have "find (\<lambda>x. sg_id x = sg_id r) (stingers (db t)) = Some r" by (auto dest: find_inserted)
  then show ?thesis
    using assms c back' by (simp add: get_stinger_def fetch_stinger_def q_read_ok)
qed

section \<open>Witnesses\<close>

definition idle_tool :: tool where
  "idle_tool = (\<lambda>prg as fs. (False, '''', fs))"

definition png_form :: form where
  "png_form = [Inr \<lparr>ff_name = Some ''file'', ff_file_name = Some ''a/b.PNG'', ff_content_type = None,
     ff_text = Inr '''', ff_bytes = Inr [137, 80]\<rparr>]"

lemma sample_plain: "uuid_plain sample_lib"
  using set_show_nat [of "CHR ''/''"] by (auto simp: uuid_plain_def sample_show_uuid less_eq_char_def)

lemma idle_tool_careful: "careful_tool idle_tool"
  by (simp add: careful_tool_def idle_tool_def)

lemma wp_smooth:
  assumes "smooth m" "keeps db m" "no_faults s" "\<And>a t. no_faults t \<Longrightarrow> db t = db s \<Longrightarrow> wp (k a) Q E t"
  shows "wp (andThen m k) Q E s"
proof -
  obtain a t where run: "m s = (Inr a, t)" "no_faults t" using assms(1,3) by (auto simp: smooth_def)
  then show ?thesis using assms(4) keeps_run [OF assms(2) run(1)] by (simp add: wp_andThen wp_def [of m])
qed

lemma wp_run: "m s = (Inr a, t) \<Longrightarrow> wp (k a) Q E t \<Longrightarrow> wp (andThen m k) Q E s"
  by (simp add: wp_def)

lemma smooth_describe: "smooth (describe_upload L idle_tool dir p i kind :: (app, 'e, u64 \<times> string \<times> string) prog)"
proof -
  have "smooth (fallible (gets g))" "smooth (run_tool idle_tool prg as)" for g prg as
    unfolding run_tool_def
    by (intro smooth_fallible; auto simp: smooth_def no_faults_def idle_tool_def set_sys_def)+
  then show ?thesis
    unfolding describe_upload_def probe_file_def generate_thumbnail_def Let_def by (intro smooth_intros smooth_pure)
qed

lemma png_uploaded:
  "\<exists>code a t. upload_asset sample_lib idle_tool png_form sample_state = (Inr (code, a), t) \<and> no_faults t"
proof -
  have start: "no_faults sample_state" "assets (db sample_state) = []"
    by (simp_all add: no_faults_def sample_state_def initial_state_def idle_os_def empty_db_def)
  have saved: "smooth (save_file p c)" "keeps db (save_file p c)" for p c
    unfolding save_file_def by (intro smooth_intros keeps_intros frames)+
  have form: "read_form asset_field png_form \<lparr>af_name = None, af_folder_id = None, af_upload = None\<rparr> sample_state =
    (Inr \<lparr>af_name = None, af_folder_id = None, af_upload = Some (''a/b.PNG'', [137, 80], ''application/octet-stream'')\<rparr>, sample_state)"
    by (simp add: png_form_def asset_field_def unwrap_or_def)
  have "wp (upload_asset sample_lib idle_tool png_form) (\<lambda>_. no_faults) (\<lambda>_ _. False) sample_state"
    unfolding upload_asset_def Let_def split_beta
    apply (rule wp_run, rule form)
    apply (rule wp_run [where a = "(''a/b.PNG'', [137, 80], ''application/octet-stream'')" and t = sample_state], simp)
    apply (rule wp_smooth, intro smooth_pure, intro keeps_pure, rule start)
    apply (rule wp_smooth, intro smooth_intros, intro keeps_intros frames, assumption)
    apply (rule wp_smooth, intro smooth_intros, intro keeps_intros frames, assumption)
    apply (rule wp_smooth, rule saved, rule saved, assumption)
    apply (rule wp_smooth, rule smooth_describe, rule describe_leaves, rule idle_tool_careful, rule not_Cons_self2, assumption)
    apply (rule wp_smooth, intro smooth_intros, intro keeps_intros frames, assumption)
    apply (simp only: simp_thms start)
    subgoal for a1 t1 a2 t2 a3 t3 a4 t4 a5 t5 a6 t6
      by (simp add: wp_def andThen_def q_try_ok q_read_ok insert_asset_def insert_row_def start reread_asset_def find_asset_def)
    done
  then show ?thesis by (auto simp: wp_def split: prod.splits sum.splits)
qed



definition logo_row :: asset_row where
  "logo_row = \<lparr>ar_id = ''7'', ar_name = ''logo'', ar_asset_type = ''image'', ar_file_path = ''/l/7.png'', ar_file_size = 2,
     ar_mime_type = ''image/png'', ar_folder_id = Some ''f'', ar_loop_mode = ''one_shot'', ar_duration_ms = 0, ar_start_ms = 0,
     ar_opaque_ms = 0, ar_clear_ms = 0, ar_end_ms = 0, ar_audio_behaviour = '''', ar_thumbnail_path = '''', ar_metadata = '''',
     ar_created_at = ''''\<rparr>"

definition logo_state :: "string option list \<Rightarrow> app" where
  "logo_state fl = sample_state\<lparr>db := empty_db\<lparr>assets := [logo_row]\<rparr>,
     sys := idle_os\<lparr>files := (\<lambda>_. Some [7]), faults := fl\<rparr>\<rparr>"

lemma logo_facts:
  "find_asset ''7'' (db (logo_state fl)) = Some logo_row" "files (sys (logo_state fl)) p = Some [7]"
  "faults (sys (logo_state fl)) = fl" "no_faults (logo_state [])"
  by (simp_all add: logo_state_def find_asset_def logo_row_def no_faults_def)

definition to_root :: asset_update where
  "to_root = \<lparr>ua_name = None, ua_folder_id = Some None, ua_loop_mode = None, ua_duration_ms = None, ua_start_ms = None,
     ua_opaque_ms = None, ua_clear_ms = None, ua_end_ms = None, ua_audio_behaviour = None\<rparr>"

theorem folder_deletion_keeps_assets_witness:
  "\<exists>r t. delete_folder ''f'' (logo_state [None, Some ''locked'']) = (r, t) \<and> length (assets (db t)) = 1"
proof -
  obtain r t where t: "delete_folder ''f'' (logo_state [None, Some ''locked'']) = (r, t)" by fastforce
  have "length (map f (assets (db (logo_state fl)))) = 1" for f :: "asset_row \<Rightarrow> asset_row" and fl by (simp add: logo_state_def)
  then show ?thesis using folder_deletion_keeps_assets [OF t] t by (metis length_map)
qed

lemma reread_run:
  "no_faults s \<Longrightarrow> find_asset i (db s) = Some r \<Longrightarrow> reread_asset L i s = (Inr (into_asset L r), s)"
  by (simp add: reread_asset_def q_read_ok)

theorem asset_stays_in_its_folder_witness:
  "\<exists>a t. update_asset sample_lib ''7'' to_root (logo_state []) = (Inr a, t) \<and> as_folder_id a = Some ''f''"
proof -
  let ?f = "apply_asset_update to_root logo_row"
  have fetch: "fetch_asset ''7'' (logo_state []) = (Inr logo_row, logo_state [])"
    by (simp add: fetch_asset_def q_read_ok logo_facts)
  let ?u = "(logo_state [])\<lparr>db := (db (logo_state []))\<lparr>assets := update_where (\<lambda>r. ar_id r = ''7'') ?f (assets (db (logo_state [])))\<rparr>\<rparr>"
  have "find_asset ''7'' (db ?u) = Some (?f logo_row)"
    using logo_facts(1) [of "[]"] by (simp add: find_asset_def find_update_where apply_asset_update_def)
  then obtain a t where run: "update_asset sample_lib ''7'' to_root (logo_state []) = (Inr a, t)"
    using reread_run [of ?u "''7''" "?f logo_row" sample_lib] logo_facts(4)
    by (simp only: update_asset_def andThen_Inr fetch q_exec_ok no_faults_db)
  have "ar_folder_id logo_row \<noteq> None" by (simp add: logo_row_def)
  from asset_stays_in_its_folder [OF run logo_facts(1) this] run show ?thesis
    by (auto simp: to_root_def logo_row_def)
qed

theorem failed_deletion_loses_the_file_witness:
  "\<exists>t. delete_asset ''7'' (logo_state [None, None, Some ''locked'']) = (Inl (Database ''locked''), t) \<and>
    serve_file ''7'' t = (Inl (Internal ''read file: No such file or directory''), t)"
  using failed_deletion_loses_the_file [OF logo_facts(3) logo_facts(1) logo_facts(2)] by blast

definition star_wipe :: stinger_create where
  "star_wipe = \<lparr>cs_name = ''star'', cs_file_path = ''/l/star.webm'', cs_duration_ms = Some 1500, cs_start_ms = None,
     cs_opaque_ms = Some 700, cs_clear_ms = Some 900, cs_end_ms = None, cs_audio = None\<rparr>"

theorem created_stinger_is_read_back_witness:
  "\<exists>c t. create_stinger sample_lib star_wipe sample_state = (Inr (201, c), t) \<and> st_opaque_ms c = 700 \<and>
    get_stinger sample_lib (show_uuid sample_lib (st_id c)) t = (Inr c, t)"
proof -
  have start: "no_faults sample_state" "stingers (db sample_state) = []"
    by (simp_all add: no_faults_def sample_state_def initial_state_def idle_os_def empty_db_def)
  have new: "(fresh_uuid sample_lib :: uuid handler) sample_state = (Inr i, t) \<Longrightarrow> no_faults t \<and> stingers (db t) = []" for i t
    using start by (auto simp: fresh_uuid_def set_sys_def no_faults_def)
  obtain i u where u: "(fresh_uuid sample_lib :: uuid handler) sample_state = (Inr i, u)" by (simp add: fresh_uuid_def)
  have ins: "insert_stinger r u = (Inr (), u\<lparr>db := (db u)\<lparr>stingers := [r]\<rparr>\<rparr>)" for r
    using new [OF u] by (simp add: insert_stinger_def q_try_ok insert_row_def)
  obtain c t where run: "create_stinger sample_lib star_wipe sample_state = (Inr (201, c), t)" "no_faults t"
      "st_audio c = Silent" "st_opaque_ms c = 700"
    using new [OF u] by (simp add: create_stinger_def u ins star_wipe_def unwrap_or_def)
  have "uuid_text sample_lib" by (simp add: uuid_text_def sample_uuid)
  moreover have "audio_of_json sample_lib (audio_to_json sample_lib Silent) = Some Silent" by (simp add: sample_lib_def)
  ultimately show ?thesis using created_stinger_is_read_back [OF run(1,2)] run by auto
qed

end
