(* ===== verification/Server.thy ===== *)
theory Server
  imports WebRtc Pipeline Auth
begin

text \<open>
  The server as a process: what \<open>main.rs\<close> and \<open>startup.rs\<close> do to the database and the
  state before the first request, the tasks they spawn, the statistics of the
  outputs, and the management endpoints of \<open>routes/admin.rs\<close>. Opening the database and its migrations come
  before and are not modelled.
\<close>

section \<open>startup.rs\<close>

text \<open>\<open>DELETE FROM sources WHERE id IN (..)\<close> takes the layers of the sources along.\<close>

definition guest_linked :: "db \<Rightarrow> string set" where
  "guest_linked d = set (List.map_filter gr_source_id (guests d))"

definition delete_guest_sources :: "db \<Rightarrow> db" where
  "delete_guest_sources d =
    d\<lparr>sources := delete_where (\<lambda>r. sr_id r \<in> guest_linked d) (sources d),
      layers := delete_where (\<lambda>r. lr_source_id r \<in> guest_linked d \<and> lr_source_id r \<in> sr_id ` set (sources d)) (layers d)\<rparr>"

definition reset_guests :: "db \<Rightarrow> db" where
  "reset_guests d = d\<lparr>guests := update_where (\<lambda>r. gr_source_id r \<noteq> None)
     (\<lambda>r. r\<lparr>gr_status := ''invited'', gr_source_id := None\<rparr>) (guests d)\<rparr>"

definition cleanup_orphan_guest_sources :: "(app, 'e, unit) prog" where
  "cleanup_orphan_guest_sources =
    then_do (ignore (sql_exec delete_guest_sources)) (ignore (sql_exec reset_guests))"

section \<open>main.rs\<close>

text \<open>The key of the environment, once; \<open>rows\_affected\<close> is only logged.\<close>

definition seed_key :: "key_row \<Rightarrow> db \<Rightarrow> db option" where
  "seed_key r d =
    (if kr_key_hash r \<in> kr_key_hash ` set (api_keys d) then Some d
     else map_option (\<lambda>rs. d\<lparr>api_keys := rs\<rparr>) (insert_row kr_id r (api_keys d)))"

definition seed_bootstrap_key :: "lib \<Rightarrow> unit io" where
  "seed_bootstrap_key L = andThen (gets (\<lambda>s. bootstrap_api_key (cfg s))) (\<lambda>key. case key of
      None \<Rightarrow> ok ()
    | Some bootstrap \<Rightarrow>
        andThen (fresh_uuid L) (\<lambda>i.
        andThen now (\<lambda>t.
        sql_try (seed_key
          \<lparr>kr_id = show_uuid L i, kr_name = ''bootstrap'', kr_key_hash = hash_key L bootstrap,
           kr_scopes = strings_to_json L [''read'', ''control'', ''admin''],
           kr_created_at = sql_datetime L t, kr_last_used_at = None\<rparr>))))"

text \<open>The stored sources: a media file is live from the start, and media files, SRT
  listeners and browser pages are each started by a task of their own.\<close>

definition media_file_mark :: string where
  "media_file_mark = [CHR 0x22] @ ''media_file'' @ [CHR 0x22]"

definition mark_media_file :: "lib \<Rightarrow> source_row \<Rightarrow> (app, 'e, unit) prog" where
  "mark_media_file L r =
    (if is_infix media_file_mark (sr_kind r) then (case parse_uuid L (sr_id r) of
        None \<Rightarrow> ok ()
      | Some i \<Rightarrow> modify (\<lambda>s. s\<lparr>source_states := (source_states s)(i \<mapsto> Live)\<rparr>))
     else ok ())"

definition start_task :: "lib \<Rightarrow> source_row \<Rightarrow> task option" where
  "start_task L r = Option.bind (kind_of_json L (sr_kind r)) (\<lambda>kind.
    Option.bind (parse_uuid L (sr_id r)) (\<lambda>i. case kind of
      MediaFile asset_id file_path loop_mode \<Rightarrow> Some (TStartPlayer i file_path loop_mode)
    | Srt port passphrase \<Rightarrow> Some (TStartSrt i port passphrase)
    | Browser url \<Rightarrow> Some (TStartBrowser i url)
    | _ \<Rightarrow> None))"

definition start_sources :: "lib \<Rightarrow> unit io" where
  "start_sources L =
    andThen (sql_read sources) (\<lambda>rows.
    then_do (forM (mark_media_file L) rows)
            (forM spawn_task (List.map_filter (start_task L) rows)))"

text \<open>\<open>main\<close> from the open database to the listener. The \<open>AppState\<close> is built in the
  middle; here it is there from the start, with the routing put in when it has
  been read, since nothing before looks at it.\<close>

definition boot :: "lib \<Rightarrow> unit io" where
  "boot L =
    then_do cleanup_orphan_guest_sources
   (then_do (seed_bootstrap_key L)
   (then_do (sql_read (\<lambda>d. length (api_keys d)))
   (andThen (load_setting (routing_of_json L) default_audio_routing ''audio_routing'') (\<lambda>saved.
    then_do (modify (\<lambda>s. s\<lparr>routing := new_watch saved\<rparr>))
   (then_do (start_sources L)
   (then_do (spawn_task TProgramRouter)
   (then_do (spawn_task TFailoverSupervisor)
   (then_do (spawn_task TScheduler)
   (andThen (gets (\<lambda>s. rtmp_port (cfg s))) (\<lambda>port.
    then_do (spawn_task (TRtmpServer port))
            (fallible (ok ()))))))))))))"

definition main_state :: "lib \<Rightarrow> db \<Rightarrow> os \<Rightarrow> app" where
  "main_state L d o1 = initial_state (config_from_env (environ o1)) d default_audio_routing
     (map_option (hash_key L) (environ o1 ''MUXSHED_SYSTEM_TOKEN'')) o1"

definition run_main :: "lib \<Rightarrow> db \<Rightarrow> os \<Rightarrow> (string + unit) \<times> app" where
  "run_main L d o1 = boot L (main_state L d o1)"

section \<open>The statistics of the outputs (\<open>egress.rs\<close>, \<open>routes/output.rs\<close>)\<close>

text \<open>IEEE doubles are bit patterns; what the statistics compute with them is a
  parameter, beside the two operations of \<open>lib\<close>.\<close>

record f64_ops =
  secs_f64 :: "nat \<Rightarrow> u64"
  of_u64 :: "u64 \<Rightarrow> u64"
  f64_mul :: "u64 \<Rightarrow> u64 \<Rightarrow> u64"

record output_stats =
  ou_bytes_sent :: u64
  ou_duration_secs :: u64
  ou_source_bitrate_kbps :: u64
  ou_output_bitrate_kbps :: u32
  ou_dropped_frames :: u64
  ou_source_width :: "u32 option"
  ou_source_height :: "u32 option"
  ou_source_fps :: "u64 option"
  ou_source_encoder :: "string option"

definition f64_8 :: u64 where
  "f64_8 = 0x4020000000000000"

definition f64_1000 :: u64 where
  "f64_1000 = 0x408F400000000000"

definition egress_stats :: "lib \<Rightarrow> f64_ops \<Rightarrow> (app, 'e, output_stats) prog" where
  "egress_stats L F =
    andThen (gets (\<lambda>s. bytes_sent (egress s))) (\<lambda>bytes.
    andThen (gets (\<lambda>s. egress_started_at (egress s))) (\<lambda>started.
    andThen now (\<lambda>t.
    let duration = (case started of None \<Rightarrow> 0 | Some b \<Rightarrow> secs_f64 F (t - b));
        bitrate = (if f64_positive L duration
                   then f64_div L (f64_mul F (of_u64 F bytes) f64_8) (f64_mul F duration f64_1000) else 0) in
    ok \<lparr>ou_bytes_sent = bytes, ou_duration_secs = duration, ou_source_bitrate_kbps = bitrate, ou_output_bitrate_kbps = 0,
        ou_dropped_frames = 0, ou_source_width = None, ou_source_height = None, ou_source_fps = None,
        ou_source_encoder = None\<rparr>)))"

text \<open>The sum of the two bitrates is one of \<open>u32\<close>: it wraps in a release build.\<close>

definition get_stats :: "lib \<Rightarrow> f64_ops \<Rightarrow> output_stats handler" where
  "get_stats L F =
    andThen (egress_stats L F) (\<lambda>st.
    andThen (load_output_config L) (\<lambda>c.
    andThen (gets (\<lambda>s. Option.bind (cur (program_source s)) (source_media_info s))) (\<lambda>info.
    let st1 = st\<lparr>ou_output_bitrate_kbps := video_bitrate_kbps c + audio_bitrate_kbps c\<rparr> in
    ok (case info of None \<Rightarrow> st1
      | Some i \<Rightarrow> st1\<lparr>ou_source_width := mi_width i, ou_source_height := mi_height i, ou_source_fps := mi_fps i,
                      ou_source_encoder := mi_encoder i\<rparr>))))"

section \<open>routes/admin.rs\<close>

definition jcount :: "nat \<Rightarrow> json" where
  "jcount n = JNum (of_nat n)"

definition jtext :: "string option \<Rightarrow> json" where
  "jtext v = (case v of None \<Rightarrow> JNull | Some t \<Rightarrow> JStr t)"

text \<open>\<open>START\_TIME\<close> is set by \<open>main\<close>; the tests' servers have none.\<close>

definition uptime_secs :: "instant option \<Rightarrow> instant \<Rightarrow> u64" where
  "uptime_secs start t = (case start of None \<Rightarrow> 0 | Some b \<Rightarrow> of_nat ((t - b) div from_secs 1))"

text \<open>\<open>read\_to\_string(..).ok()\<close> of a file of \<open>/proc\<close>, its lines.\<close>

definition read_text :: "string \<Rightarrow> (app, 'e, string option) prog" where
  "read_text p = or_else None (andThen (read_file p) (\<lambda>b. ok (Some (map (\<lambda>x. char_of (unat x)) b))))"

fun lines_of :: "string \<Rightarrow> string \<Rightarrow> string list" where
  "lines_of w [] = (if w = [] then [] else [w])"
| "lines_of w (c # cs) = (if c = CHR 0x0A then w # lines_of [] cs else lines_of (w @ [c]) cs)"

definition system_stats :: "lib \<Rightarrow> (app, 'e, json) prog" where
  "system_stats L =
    andThen (read_text ''/proc/self/status'') (\<lambda>status.
    let rss_kb = Option.bind status (\<lambda>s. Option.bind (find (starts_with ''VmRSS:'') (lines_of [] s)) (\<lambda>l.
          case split_whitespace l of _ # v # _ \<Rightarrow> parse_unsigned (2 ^ 64) v | _ \<Rightarrow> None)) in
    andThen (read_text ''/proc/loadavg'') (\<lambda>loadavg.
    let load_1m = Option.bind loadavg (\<lambda>s. case split_whitespace s of v # _ \<Rightarrow> f64_parse L v | _ \<Rightarrow> None) in
    ok (JObj [(''process_rss_kb'', case rss_kb of None \<Rightarrow> JNull | Some n \<Rightarrow> jcount n),
              (''load_avg_1m'', case load_1m of None \<Rightarrow> JNull | Some x \<Rightarrow> JFloat x)])))"

definition json_of_pipeline :: "lib \<Rightarrow> pipeline_state \<Rightarrow> json" where
  "json_of_pipeline L p = JObj (case p of
      PIdle \<Rightarrow> [(''state'', JStr ''idle'')]
    | PStarting \<Rightarrow> [(''state'', JStr ''starting'')]
    | PLive t i \<Rightarrow> [(''state'', JStr ''live''), (''started_at'', JStr (rfc3339 L t)), (''active_scene'', JStr (show_uuid L i))]
    | PTransitioning st target \<Rightarrow> [(''state'', JStr ''transitioning''), (''stinger_id'', JStr (show_uuid L st)),
        (''target_scene'', JStr (show_uuid L target))]
    | PStopping \<Rightarrow> [(''state'', JStr ''stopping'')]
    | PError e \<Rightarrow> [(''state'', JStr ''error''), (''message'', JStr e)])"

definition json_of_recording :: "lib \<Rightarrow> recording_state \<Rightarrow> json" where
  "json_of_recording L r = JObj [(''recording'', JBool (recording r)), (''path'', jtext (rec_path r)),
     (''started_at'', jtext (map_option (rfc3339 L) (rec_started_at r)))]"

definition health :: "lib \<Rightarrow> instant option \<Rightarrow> (app, 'e, json) prog" where
  "health L start =
    andThen pipeline_state_now (\<lambda>p.
    andThen (gets (\<lambda>s. headless (cfg s))) (\<lambda>is_headless.
    andThen now (\<lambda>t.
    ok (JObj [(''status'', JStr ''ok''), (''version'', JStr ''1.8.5''), (''uptime_secs'', JNum (uptime_secs start t)),
              (''pipeline'', json_of_pipeline L p), (''headless'', JBool is_headless)]))))"

text \<open>The states are a map with finitely many entries.\<close>

definition source_live :: "app \<Rightarrow> bool" where
  "source_live s \<longleftrightarrow> Some Live \<in> range (source_states s)"

definition stats :: "lib \<Rightarrow> f64_ops \<Rightarrow> (app, 'e, json) prog" where
  "stats L F =
    andThen (gets (\<lambda>s. (card (dom (source_states s)), card {i. source_states s i = Some Live}))) (\<lambda>(total_sources, live_sources).
    andThen (or_else 0 (sql_read (\<lambda>d. length (destinations d)))) (\<lambda>dest_total.
    andThen (or_else 0 (sql_read (\<lambda>d. count_where (\<lambda>r. dr_enabled r = 1) (destinations d)))) (\<lambda>dest_enabled.
    andThen (egress_stats L F) (\<lambda>e.
    andThen (gets egress_is_running) (\<lambda>running_now.
    andThen recording_state_now (\<lambda>rec_now.
    andThen (gets (\<lambda>s. cur (active_schedule s))) (\<lambda>sched.
    andThen (system_stats L) (\<lambda>sysinfo.
    ok (JObj [(''sources'', JObj [(''total'', jcount total_sources), (''live'', jcount live_sources)]),
      (''destinations'', JObj [(''total'', jcount dest_total), (''enabled'', jcount dest_enabled)]),
      (''egress'', JObj [(''running'', JBool running_now), (''bytes_sent'', JNum (ou_bytes_sent e)),
         (''duration_secs'', JFloat (ou_duration_secs e)), (''source_bitrate_kbps'', JFloat (ou_source_bitrate_kbps e))]),
      (''recording'', json_of_recording L rec_now),
      (''active_schedule'', jtext (map_option (show_uuid L) sched)),
      (''system'', sysinfo)])))))))))"

record connectivity_report =
  cn_rtmp_port :: u16
  cn_srt_port_start :: u16
  cn_source_live :: bool
  cn_program_on_air :: bool
  cn_egress_running :: bool
  cn_failover_active :: bool

definition connectivity :: "(app, 'e, connectivity_report) prog" where
  "connectivity = gets (\<lambda>s.
    \<lparr>cn_rtmp_port = rtmp_port (cfg s), cn_srt_port_start = srt_port_range_start (cfg s),
     cn_source_live = source_live s, cn_program_on_air = (cur (program_source s) \<noteq> None),
     cn_egress_running = egress_is_running s, cn_failover_active = cur (failover_active s)\<rparr>)"

text \<open>The process ends 300 ms after the answer 202: the task \<open>TExit\<close>.\<close>

definition restart :: "(app, 'e, u16) prog" where
  "restart = then_do (spawn_task TExit) (ok 202)"

definition setting_value :: "lib \<Rightarrow> string \<Rightarrow> json" where
  "setting_value L v = (case json_of_text L v of None \<Rightarrow> JStr v | Some j \<Rightarrow> j)"

record admin_config =
  an_version :: string
  an_headless :: bool
  an_listen_addr :: string
  an_rtmp_port :: u16
  an_srt_port_start :: u16
  an_data_dir :: string
  an_settings :: "string \<Rightarrow> json option"

definition admin_get_config :: "lib \<Rightarrow> (app, 'e, admin_config) prog" where
  "admin_get_config L =
    andThen (gets cfg) (\<lambda>c.
    andThen (or_else (\<lambda>_. None) (sql_read settings)) (\<lambda>rows.
    ok \<lparr>an_version = ''1.8.5'', an_headless = headless c, an_listen_addr = listen_addr c, an_rtmp_port = rtmp_port c,
        an_srt_port_start = srt_port_range_start c, an_data_dir = data_dir c,
        an_settings = (\<lambda>k. map_option (setting_value L) (rows k))\<rparr>))"

definition setting_text :: "lib \<Rightarrow> json \<Rightarrow> string" where
  "setting_text L v = (case v of JStr s \<Rightarrow> s | other \<Rightarrow> json_to_text L other)"

text \<open>The settings of the body in the order its map hands them out.\<close>

definition put_config :: "lib \<Rightarrow> (string \<times> json) list \<Rightarrow> (app, u16, nat) prog" where
  "put_config L body =
    then_do (forM (\<lambda>(k, v). map_err (\<lambda>_. 500) (sql_exec (put_setting k (setting_text L v)))) body)
            (ok (length body))"

section \<open>The settings of the outputs in the statistics\<close>

text \<open>C39: The output settings that were put are the ones that are read and reported: the
  reported bitrate is the sum of the two of the settings, which are in their ranges
  whatever was sent, so that the sum does not wrap.\<close>
theorem put_output_is_reported:
  assumes "put_output_config L c0 s = (Inr c, t)" "output_of_json L (output_to_json L c) = Some c" "no_faults u" "db u = db t"
  shows "get_output_config L u = (Inr c, u) \<and> (\<exists>st. get_stats L F u = (Inr st, u) \<and>
    unat (ou_output_bitrate_kbps st) = unat (video_bitrate_kbps c) + unat (audio_bitrate_kbps c) \<and>
    532 \<le> unat (ou_output_bitrate_kbps st) \<and> unat (ou_output_bitrate_kbps st) \<le> 20320)"
proof -
  let ?apply = "\<lambda>live. if live then then_do (modify (set_output_config (Some c)))
      (andThen (gets (\<lambda>s. cur (program_source s))) (\<lambda>src.
       then_do (case src of None \<Rightarrow> ok () | Some i \<Rightarrow> egress_restart_for i) (ensure_channel_hls L)))
     else (ok () :: unit handler)"
  from assms(1) obtain x s1 live y where c: "c = clamp_config c0"
    and put: "q (sql_exec (put_setting ''output_config'' (output_to_json L c))) s = (Inr x, s1)"
    and run: "?apply live s1 = (Inr y, t)"
    unfolding put_output_config_def Let_def Inr_iffs by blast
  have kept: "keeps db (?apply live)"
    by (intro keeps_core keeps_intros frames) (simp_all add: set_egress_def set_output_config_def)
  have "db t = put_setting ''output_config'' (output_to_json L c) (db s)"
    using keeps_run [OF kept run] q_exec_Inr [OF put] by simp
  then have stored: "settings (db u) ''output_config'' = Some (output_to_json L c)"
    using assms(4) by (simp add: put_setting_def)
  have load: "(load_output_config L :: output_config handler) u = (Inr c, u)"
    using stored assms(2,3)
    by (simp add: load_output_config_def load_setting_def read_setting_def ok_flatten_def sql_read_def fallible_def drop_fault_none)
  have "unat (video_bitrate_kbps c) \<le> 20000" "unat (audio_bitrate_kbps c) \<le> 320" "500 \<le> unat (video_bitrate_kbps c)"
    "32 \<le> unat (audio_bitrate_kbps c)"
    using clamped_output_config [of c0] c by (simp_all add: Let_def word_le_nat_alt)
  moreover from this have "unat (video_bitrate_kbps c + audio_bitrate_kbps c) = unat (video_bitrate_kbps c) + unat (audio_bitrate_kbps c)"
    by (simp add: unat_word_ariths)
  moreover obtain st where "get_stats L F u = (Inr st, u)" "ou_output_bitrate_kbps st = video_bitrate_kbps c + audio_bitrate_kbps c"
    using load by (auto simp: get_stats_def egress_stats_def now_def Let_def split: option.split)
  ultimately show ?thesis
    using stored assms(2,3) by (auto simp: get_output_config_def q_read_ok)
qed

section \<open>Pushed settings\<close>

definition put_all :: "lib \<Rightarrow> (string \<times> json) list \<Rightarrow> db \<Rightarrow> db" where
  "put_all L body = fold (\<lambda>(k, v). put_setting k (setting_text L v)) body"


section \<open>The start of the server\<close>

lemma mark_media_files:
  "(forM (mark_media_file L) rows :: (app, 'e, unit) prog) s = (Inr (), s\<lparr>source_states := (\<lambda>i.
     if \<exists>r \<in> set rows. is_infix media_file_mark (sr_kind r) \<and> parse_uuid L (sr_id r) = Some i then Some Live
     else source_states s i)\<rparr>)"
proof (induction rows arbitrary: s)
  case (Cons r rows)
  have "(mark_media_file L r :: (app, 'e, unit) prog) s = (Inr (), s\<lparr>source_states := (\<lambda>i.
      if is_infix media_file_mark (sr_kind r) \<and> parse_uuid L (sr_id r) = Some i then Some Live else source_states s i)\<rparr>)"
    by (cases "parse_uuid L (sr_id r)") (auto simp: mark_media_file_def fun_upd_def intro!: arg_cong [where f = "\<lambda>m. s\<lparr>source_states := m\<rparr>"])
  then show ?case by (auto simp: Cons.IH intro!: ext arg_cong [where f = "\<lambda>m. s\<lparr>source_states := m\<rparr>"])
qed simp

text \<open>What the first statements leave alone.\<close>

definition boot_view :: "app \<Rightarrow> (uuid \<Rightarrow> source_state option) \<times> task list \<times> config \<times> (uuid \<Rightarrow> nat option)" where
  "boot_view s = (source_states s, tasks (sys s), cfg s, guest_peers s)"

lemma boot_view_fallible: "keeps boot_view m \<Longrightarrow> keeps boot_view (fallible m)"
  by (auto simp: keeps_def boot_view_def fallible_def drop_fault_def set_sys_def split: option.split)

lemma boot_view_calls:
  "keeps boot_view (sql_read f)" "keeps boot_view (sql_exec g)" "keeps boot_view (sql_try h)" "keeps boot_view (fresh_uuid L)"
  "keeps boot_view now" "keeps boot_view (fallible (ok ()))" "keeps boot_view (load_setting dec d k)"
  "keeps boot_view (modify (\<lambda>s. s\<lparr>routing := w\<rparr>))"
proof -
  show calls: "keeps boot_view (sql_read f)" "keeps boot_view (sql_exec g)" "keeps boot_view (sql_try h)" "keeps boot_view (fallible (ok ()))"
    for f :: "db \<Rightarrow> 'x" and g h
    unfolding sql_read_def sql_exec_def sql_try_def
    by (intro boot_view_fallible; simp add: keeps_def boot_view_def split: option.split)+
  show "keeps boot_view (load_setting dec d k)"
    unfolding load_setting_def read_setting_def by (intro keeps_core calls)
qed (simp_all add: keeps_def boot_view_def now_def fresh_uuid_def set_sys_def)

lemma boot_view_seed: "keeps boot_view cleanup_orphan_guest_sources" "keeps boot_view (seed_bootstrap_key L)"
  unfolding cleanup_orphan_guest_sources_def seed_bootstrap_key_def by (intro keeps_core boot_view_calls)+

lemma sql_read_Inr: "sql_read f s = (Inr x, t) \<Longrightarrow> x = f (db s) \<and> db t = db s"
  using q_read_Inr [of f s x t] by (simp add: map_err_Inr_iff)

text \<open>A start that succeeded: the first statements, and then what the stored sources
  bring up.\<close>

lemma boot_Inr:
  assumes "boot L s = (Inr (), t)"
  shows "\<exists>s1 s2 n s3 saved s4. cleanup_orphan_guest_sources s = (Inr () :: string + unit, s1) \<and>
    seed_bootstrap_key L s1 = (Inr (), s2) \<and> sql_read (\<lambda>d. length (api_keys d)) s2 = (Inr n, s3) \<and>
    load_setting (routing_of_json L) default_audio_routing ''audio_routing'' s3 = (Inr saved :: string + audio_routing, s4) \<and>
    db t = db s4 \<and> cur (routing t) = saved \<and> tasks (sys t) = tasks (sys s4) @ List.map_filter (start_task L) (sources (db s4)) @
      [TProgramRouter, TFailoverSupervisor, TScheduler, TRtmpServer (rtmp_port (cfg s4))] \<and>
    source_states t = (\<lambda>i. if \<exists>r \<in> set (sources (db s4)). is_infix media_file_mark (sr_kind r) \<and> parse_uuid L (sr_id r) = Some i
      then Some Live else source_states s4 i) \<and> cfg t = cfg s4 \<and> guest_peers t = guest_peers s4"
proof -
  from assms obtain s1 s2 n s3 saved s4 a b s5 rows where pre: "cleanup_orphan_guest_sources s = (Inr a :: string + unit, s1)"
      "seed_bootstrap_key L s1 = (Inr b, s2)" "sql_read (\<lambda>d. length (api_keys d)) s2 = (Inr n, s3)"
      "load_setting (routing_of_json L) default_audio_routing ''audio_routing'' s3 = (Inr saved :: string + audio_routing, s4)"
    and rows: "sql_read sources (s4\<lparr>routing := new_watch saved\<rparr>) = (Inr rows, s5)"
    and rest: "then_do (then_do (forM (mark_media_file L) rows) (forM spawn_task (List.map_filter (start_task L) rows)))
      (then_do (spawn_task TProgramRouter) (then_do (spawn_task TFailoverSupervisor) (then_do (spawn_task TScheduler)
      (andThen (gets (\<lambda>s. rtmp_port (cfg s))) (\<lambda>port. then_do (spawn_task (TRtmpServer port)) (fallible (ok ()))))))) s5 = (Inr (), t)"
    unfolding boot_def start_sources_def Inr_iffs by auto
  have "s5 = drop_fault (s4\<lparr>routing := new_watch saved\<rparr>)" "rows = sources (db s4)"
    using rows by (auto simp: sql_read_def fallible_def split: option.splits)
  moreover have drop: "source_states (drop_fault u) = source_states u" for u by (simp add: drop_fault_def set_sys_def)
  ultimately show ?thesis using pre rest
    by (simp add: mark_media_files forM_spawn drop cong: if_cong)
      (auto simp: spawn_task_def fallible_def new_watch_def set_sys_def drop_fault_def split: option.splits)
qed

definition boot_tasks :: "lib \<Rightarrow> app \<Rightarrow> task list" where
  "boot_tasks L s = List.map_filter (start_task L) (sources (db s)) @
     [TProgramRouter, TFailoverSupervisor, TScheduler, TRtmpServer (rtmp_port (cfg s))]"

lemma main_tasks:
  assumes "run_main L d o1 = (Inr (), t)"
  shows "tasks (sys t) = tasks o1 @ boot_tasks L t \<and>
    source_states t = (\<lambda>i. if \<exists>r \<in> set (sources (db t)). is_infix media_file_mark (sr_kind r) \<and> parse_uuid L (sr_id r) = Some i
      then Some Live else None)"
proof -
  let ?s = "main_state L d o1"
  obtain s1 s2 n s3 saved s4 where a: "cleanup_orphan_guest_sources ?s = (Inr () :: string + unit, s1)"
      "seed_bootstrap_key L s1 = (Inr (), s2)" "sql_read (\<lambda>d. length (api_keys d)) s2 = (Inr n, s3)"
      "load_setting (routing_of_json L) default_audio_routing ''audio_routing'' s3 = (Inr saved :: string + audio_routing, s4)"
    and b: "db t = db s4" "tasks (sys t) = tasks (sys s4) @ List.map_filter (start_task L) (sources (db s4)) @
        [TProgramRouter, TFailoverSupervisor, TScheduler, TRtmpServer (rtmp_port (cfg s4))]"
      "source_states t = (\<lambda>i. if \<exists>r \<in> set (sources (db s4)). is_infix media_file_mark (sr_kind r) \<and> parse_uuid L (sr_id r) = Some i
        then Some Live else source_states s4 i)" "cfg t = cfg s4"
    using boot_Inr [OF assms [unfolded run_main_def]] by blast
  have "boot_view s4 = boot_view ?s"
    using keeps_run [OF boot_view_seed(1) a(1)] keeps_run [OF boot_view_seed(2) a(2)] keeps_run [OF boot_view_calls(1) a(3)]
      keeps_run [OF boot_view_calls(7) a(4)] by simp
  moreover have "tasks (sys ?s) = tasks o1" "source_states ?s = (\<lambda>_. None)" by (simp_all add: main_state_def initial_state_def)
  ultimately show ?thesis using b by (simp add: boot_view_def boot_tasks_def cong: if_cong)
qed


section \<open>The guests after a restart\<close>

lemma lasting_fallible: "preserves no_faults m \<Longrightarrow> preserves no_faults (fallible m)"
  by (auto simp: preserves_def fallible_def no_faults_def set_sys_def drop_fault_def split: option.split)

lemma boot_no_faults: "preserves no_faults (boot L)"
proof -
  have calls: "preserves no_faults (sql_read f)" "preserves no_faults (sql_exec g)" "preserves no_faults (sql_try h)"
    "preserves no_faults (fallible (ok ()))" "preserves no_faults now" "preserves no_faults (fresh_uuid L)"
    "preserves no_faults (spawn_task x)" "preserves no_faults (modify (\<lambda>s. s\<lparr>routing := w\<rparr>))" "preserves no_faults (mark_media_file L r)"
    for f :: "db \<Rightarrow> 'x" and g h x w r
    unfolding sql_read_def sql_exec_def sql_try_def
    by ((intro lasting_fallible)?; simp add: preserves_def no_faults_def now_def fresh_uuid_def spawn_task_def set_sys_def
        mark_media_file_def split: option.split)+
  show ?thesis
    unfolding boot_def cleanup_orphan_guest_sources_def seed_bootstrap_key_def load_setting_def read_setting_def start_sources_def
    by (intro preserves_intros calls)
qed

lemma seed_Inr:
  assumes "seed_bootstrap_key L s = (Inr (), t)"
  shows "sources (db t) = sources (db s) \<and> guests (db t) = guests (db s) \<and>
    (\<forall>key. bootstrap_api_key (cfg s) = Some key \<longrightarrow> hash_key L key \<in> kr_key_hash ` set (api_keys (db t)))"
  using assms
  by (cases "bootstrap_api_key (cfg s)")
    (auto simp: seed_bootstrap_key_def fresh_uuid_def now_def sql_try_def fallible_def seed_key_def insert_row_Some
      split: option.splits if_splits)

text \<open>What a start that no call disturbs makes of the database.\<close>

lemma main_db:
  assumes "run_main L d o1 = (Inr (), t)" "faults o1 = []"
  shows "sources (db t) = delete_where (\<lambda>r. sr_id r \<in> guest_linked d) (sources d)"
    "guests (db t) = guests (reset_guests d)" "no_faults t" "guest_peers t = (\<lambda>_. None)"
    "\<forall>key. bootstrap_api_key (config_from_env (environ o1)) = Some key \<longrightarrow> hash_key L key \<in> kr_key_hash ` set (api_keys (db t))"
proof -
  let ?s = "main_state L d o1"
  have s: "no_faults ?s" "db ?s = d" "guest_peers ?s = (\<lambda>_. None)" "cfg ?s = config_from_env (environ o1)"
    using assms(2) by (simp_all add: main_state_def initial_state_def no_faults_def)
  obtain s1 s2 n s3 saved s4 where a: "cleanup_orphan_guest_sources ?s = (Inr () :: string + unit, s1)"
      "seed_bootstrap_key L s1 = (Inr (), s2)" "sql_read (\<lambda>d. length (api_keys d)) s2 = (Inr n, s3)"
      "load_setting (routing_of_json L) default_audio_routing ''audio_routing'' s3 = (Inr saved :: string + audio_routing, s4)"
    and b: "db t = db s4" "guest_peers t = guest_peers s4"
    using boot_Inr [OF assms(1) [unfolded run_main_def]] by blast
  have "boot_view s4 = boot_view ?s" "cfg s1 = cfg ?s"
    using keeps_run [OF boot_view_seed(1) a(1)] keeps_run [OF boot_view_seed(2) a(2)] keeps_run [OF boot_view_calls(1) a(3)]
      keeps_run [OF boot_view_calls(7) a(4)] by (simp_all add: boot_view_def)
  moreover have "db s1 = reset_guests (delete_guest_sources d)"
    using a(1) s(1,2) by (auto simp: cleanup_orphan_guest_sources_def sql_exec_def fallible_def drop_fault_none)
  moreover have "db s4 = db s2"
    using keeps_run [OF keeps_load_setting [OF frames(4)] a(4)] sql_read_Inr [OF a(3)] by simp
  moreover note seed_Inr [OF a(2)]
  ultimately show "sources (db t) = delete_where (\<lambda>r. sr_id r \<in> guest_linked d) (sources d)"
    "guests (db t) = guests (reset_guests d)" "guest_peers t = (\<lambda>_. None)"
    "\<forall>key. bootstrap_api_key (config_from_env (environ o1)) = Some key \<longrightarrow> hash_key L key \<in> kr_key_hash ` set (api_keys (db t))"
    using b s by (simp_all add: boot_view_def reset_guests_def delete_guest_sources_def)
  show "no_faults t" using preservesD [OF boot_no_faults s(1)] assms(1) by (metis run_main_def snd_conv)
qed

text \<open>C30: A restart that no failing call disturbs forgets the sources of the guests who were
  connected, and only these: the sources of persistent publishers survive. Every
  guest keeps the link to join by and is without a source.\<close>
theorem restart_clears_guests:
  assumes "run_main L d o1 = (Inr (), t)" "faults o1 = []"
  shows "sources (db t) = filter (\<lambda>r. sr_id r \<notin> guest_linked d) (sources d) \<and>
    map gr_token (guests (db t)) = map gr_token (guests d) \<and> guest_linked (db t) = {} \<and> no_faults t"
proof -
  have "guest_linked (reset_guests d') = {}" "map gr_token (guests (reset_guests d')) = map gr_token (guests d')" for d'
    by (auto simp: guest_linked_def reset_guests_def update_where_def List.map_filter_def split: if_splits)
  then show ?thesis
    using main_db(1-3) [OF assms] by (auto simp: delete_where_def guest_linked_def)
qed

text \<open>Whoever sends the key of the environment is let in by a server that started.\<close>
theorem bootstrap_key_is_let_in:
  assumes "run_main L d o1 = (Inr (), t)" "faults o1 = []" "environ o1 ''MUXSHED_API_KEY'' = Some key" "key \<noteq> []"
    and "rq_header r ''X-API-Key'' = Some key \<or> rq_param r ''key'' = Some key"
  shows "fst ((auth_middleware L r :: (app, 'e, bool) prog) t) = Inr True"
proof -
  have "bootstrap_api_key (config_from_env (environ o1)) = Some key"
    using assms(3,4) by (simp add: config_from_env_def)
  then have "hash_key L key \<in> kr_key_hash ` set (api_keys (db t))" using main_db(5) [OF assms(1,2)] by blast
  then have "credential L r (auth_view t)" using assms(5) by (auto simp: credential_def has_key_def auth_view_def)
  moreover obtain b u where "(auth_middleware L r :: (app, 'e, bool) prog) t = (Inr b, u)"
      "no_faults t \<longrightarrow> b = credential L r (auth_view t)"
    using middleware_decides [of L r] unfolding decides_def by blast
  ultimately show ?thesis using main_db(3) [OF assms(1,2)] by simp
qed

lemma find_delete_where: "find P xs = Some r \<Longrightarrow> \<not> R r \<Longrightarrow> find P (delete_where R xs) = Some r"
  by (induction xs) (auto simp: delete_where_def split: if_splits)


section \<open>Witnesses\<close>

definition left_db :: db where
  "left_db = empty_db\<lparr>sources := [\<lparr>sr_id = ''1'', sr_name = ''Ann (guest)'', sr_kind = web_json, sr_created_at = ''I''\<rparr>],
     guests := [web_guest\<lparr>gr_source_id := Some ''1''\<rparr>]\<rparr>"

definition keyed_os :: os where
  "keyed_os = idle_os\<lparr>environ := (\<lambda>k. if k = ''MUXSHED_API_KEY'' then Some ''k'' else None)\<rparr>"

lemma key_seeded:
  assumes "no_faults s" "api_keys (db s) = []"
  shows "\<exists>t. seed_bootstrap_key L s = (Inr (), t) \<and> no_faults t"
proof (cases "bootstrap_api_key (cfg s)")
  case (Some key)
  let ?u = "set_sys (\<lambda>o1. o1\<lparr>uuids := Suc (uuids o1)\<rparr>) s"
  have "no_faults ?u" "db ?u = db s" using assms(1) by (simp_all add: no_faults_def set_sys_def)
  then show ?thesis
    using Some assms by (simp add: seed_bootstrap_key_def fresh_uuid_def now_def sql_try_def fallible_def drop_fault_none
      seed_key_def insert_row_def)
qed (use assms in \<open>simp add: seed_bootstrap_key_def\<close>)

lemma boot_runs:
  assumes "no_faults s" "api_keys (db s) = []"
  shows "\<exists>t. boot L s = (Inr (), t)"
proof -
  let ?u = "s\<lparr>db := reset_guests (delete_guest_sources (db s))\<rparr>"
  let ?rest = "then_do (sql_read (\<lambda>d. length (api_keys d)))
     (andThen (load_setting (routing_of_json L) default_audio_routing ''audio_routing'') (\<lambda>saved.
      then_do (modify (\<lambda>s. s\<lparr>routing := new_watch saved\<rparr>))
     (then_do (start_sources L)
     (then_do (spawn_task TProgramRouter)
     (then_do (spawn_task TFailoverSupervisor)
     (then_do (spawn_task TScheduler)
     (andThen (gets (\<lambda>s. rtmp_port (cfg s))) (\<lambda>port.
      then_do (spawn_task (TRtmpServer port))
              (fallible (ok ()) :: unit io)))))))))"
  have "(cleanup_orphan_guest_sources :: unit io) s = (Inr (), ?u)"
    using assms(1) by (simp add: cleanup_orphan_guest_sources_def sql_exec_def fallible_def drop_fault_none)
  moreover obtain v where "seed_bootstrap_key L ?u = (Inr (), v)" "no_faults v"
    using key_seeded [of ?u L] assms by (auto simp: reset_guests_def delete_guest_sources_def)
  moreover have "\<exists>t. ?rest v = (Inr (), t)"
  proof -
    have "smooth (mark_media_file L r)" "smooth (fallible (ok ()) :: unit io)" for r
      by (auto simp: smooth_def mark_media_file_def no_faults_def fallible_def drop_fault_def set_sys_def split: option.split)
    then have "smooth ?rest" unfolding start_sources_def by (intro smooth_intros) simp_all
    then show ?thesis using \<open>no_faults v\<close> unfolding smooth_def by fastforce
  qed
  ultimately show ?thesis unfolding boot_def by auto
qed

lemma main_runs:
  assumes "faults o1 = []" "api_keys d = []"
  shows "\<exists>t. run_main L d o1 = (Inr (), t)"
  using boot_runs [of "main_state L d o1" L] assms
  by (auto simp: run_main_def main_state_def initial_state_def no_faults_def)

lemma left_facts: "api_keys left_db = []" "faults idle_os = []" "faults keyed_os = []" "guest_linked left_db = {''1''}"
  "api_keys (empty_db\<lparr>sources := rs\<rparr>) = []"
  by (simp_all add: left_db_def empty_db_def idle_os_def keyed_os_def guest_linked_def List.map_filter_def)

definition clip_row :: source_row where
  "clip_row = \<lparr>sr_id = ''8'', sr_name = ''clip'', sr_kind = media_file_mark, sr_created_at = ''I''\<rparr>"

definition clip_lib :: lib where
  "clip_lib = sample_lib\<lparr>kind_of_json := (\<lambda>j. if j = media_file_mark then Some (MediaFile 0 ''/l/a.mp4'' ''loop'') else None)\<rparr>"


theorem restart_clears_guests_witness:
  "\<exists>t. run_main web_lib left_db idle_os = (Inr (), t) \<and> sources (db t) = [] \<and> map gr_token (guests (db t)) = [''tok'']"
proof -
  obtain t where t: "run_main web_lib left_db idle_os = (Inr (), t)"
    using main_runs [OF left_facts(2,1)] by blast
  from restart_clears_guests [OF t left_facts(2)] t show ?thesis
    by (auto simp: left_facts) (simp_all add: left_db_def web_guest_def)
qed

theorem bootstrap_key_is_let_in_witness:
  "\<exists>t. run_main sample_lib empty_db keyed_os = (Inr (), t) \<and>
    fst ((auth_middleware sample_lib (key_request ''k'') :: (app, unit, bool) prog) t) = Inr True"
proof -
  have "api_keys empty_db = []" by (simp add: empty_db_def)
  then obtain t where t: "run_main sample_lib empty_db keyed_os = (Inr (), t)"
    using main_runs [OF left_facts(3)] by blast
  have "environ keyed_os ''MUXSHED_API_KEY'' = Some ''k''" by (simp add: keyed_os_def)
  from bootstrap_key_is_let_in [OF t left_facts(3) this, of "key_request ''k''"] t show ?thesis
    by (simp add: key_request_def)
qed


theorem put_output_is_reported_witness:
  "\<exists>c t F st. put_output_config sample_lib default_output_config sample_state = (Inr c, t) \<and>
    get_stats sample_lib F t = (Inr st, t) \<and> unat (ou_output_bitrate_kbps st) = 4660"
proof -
  have c: "clamp_config default_output_config = default_output_config" by code_simp
  have "show_word (1920 :: u32) = ''1920''" "parse_unsigned 10000 ''1920'' = Some 1920" by code_simp+
  then have law: "output_of_json sample_lib (output_to_json sample_lib default_output_config) = Some default_output_config"
    by (simp add: sample_lib_def default_output_config_def)
  have start: "no_faults sample_state" "pipe_state sample_state = PIdle"
    by (simp_all add: no_faults_def sample_state_def initial_state_def idle_os_def)
  then obtain t where t: "put_output_config sample_lib default_output_config sample_state = (Inr default_output_config, t)" "no_faults t"
    by (auto simp: put_output_config_def c q_exec_ok is_broadcasting_def andThen_def)
  have "unat (video_bitrate_kbps default_output_config) + unat (audio_bitrate_kbps default_output_config) = 4660"
    by (simp add: default_output_config_def)
  with put_output_is_reported [OF t(1) law t(2) refl] t(1) show ?thesis by metis
qed

end
