(* ===== verification/Browser.thy ===== *)
theory Browser
  imports Ingest Probe
begin

text \<open>
  Inside the browser source (\<open>browser\_source.rs\<close>): the HTTP request to the DevTools
  endpoint of the browser, the page found in its answer, and the loop that asks
  for one screenshot after the other and hands the pictures to the encoder.
\<close>

section \<open>\<open>http\_get\<close>\<close>

text \<open>What a read of the socket gives within its 700 ms: bytes (here as the text
  they are), the end of the stream, an error, or nothing in time.\<close>

datatype tcp_read = Chunk string | Eof | Broken | TimedOut

definition header_end :: string where
  "header_end = [CHR 0x0D, CHR 0x0A, CHR 0x0D, CHR 0x0A]"

fun after_header :: "string \<Rightarrow> string option" where
  "after_header [] = None"
| "after_header (c # cs) = (if starts_with header_end (c # cs) then Some (drop 4 (c # cs)) else after_header cs)"

definition looks_complete :: "string \<Rightarrow> bool" where
  "looks_complete b \<longleftrightarrow> b \<noteq> [] \<and> ((hd b = CHR ''['' \<and> last b = CHR '']'') \<or> (hd b = CHR ''{'' \<and> last b = CHR ''}''))"

definition rest_of_reply :: "string \<Rightarrow> string" where
  "rest_of_reply buf = (case after_header buf of None \<Rightarrow> '''' | Some body \<Rightarrow> trim body)"

fun read_reply :: "string \<Rightarrow> tcp_read list \<Rightarrow> string" where
  "read_reply buf [] = rest_of_reply buf"
| "read_reply buf (Chunk t # rs) =
    (if t = [] then rest_of_reply buf
     else case after_header (buf @ t) of
         None \<Rightarrow> read_reply (buf @ t) rs
       | Some body \<Rightarrow> if looks_complete (trim body) then trim body else read_reply (buf @ t) rs)"
| "read_reply buf (_ # rs) = rest_of_reply buf"

text \<open>Connecting and writing the request can fail; then the reads.\<close>

definition http_get :: "tcp_read list \<Rightarrow> string io" where
  "http_get reads = then_do (fallible (ok ())) (then_do (fallible (ok ())) (ok (read_reply [] reads)))"

section \<open>The page\<close>

definition page_url :: "json \<Rightarrow> string option" where
  "page_url t = (if get_str ''type'' t = Some ''page'' then get_str ''webSocketDebuggerUrl'' t else None)"

fun first_page :: "json list \<Rightarrow> string option" where
  "first_page [] = None"
| "first_page (t # ts) = (case page_url t of Some ws \<Rightarrow> Some ws | None \<Rightarrow> first_page ts)"

definition page_of_reply :: "lib \<Rightarrow> string \<Rightarrow> string option" where
  "page_of_reply L body = Option.bind (json_of_text L body) (\<lambda>targets. Option.bind (as_array targets) first_page)"

text \<open>The attempts of \<open>wait\_for\_page\_ws\<close>, at most as many as there are reads.\<close>

fun poll_page :: "lib \<Rightarrow> tcp_read list list \<Rightarrow> string io" where
  "poll_page L [] = throw ''chrome devtools did not come up''"
| "poll_page L (reads # rest) =
    andThen (attempt (http_get reads)) (\<lambda>r.
    case Option.bind (case r of Inr body \<Rightarrow> Some body | Inl (e :: string) \<Rightarrow> None) (page_of_reply L) of
      Some ws \<Rightarrow> ok ws
    | None \<Rightarrow> then_do (sleep (from_millis 100)) (poll_page L rest))"

section \<open>\<open>screenshot\_loop\<close>\<close>

datatype ws_message = WsText string | WsOther

text \<open>The wait for the answer to request \<open>n\<close>: the data of the first text with this
  id, everything before it is skipped; the list ends where the stream ends or breaks.\<close>

fun await_reply :: "lib \<Rightarrow> u64 \<Rightarrow> ws_message list \<Rightarrow> string option \<times> ws_message list" where
  "await_reply L n [] = (None, [])"
| "await_reply L n (WsOther # ms) = await_reply L n ms"
| "await_reply L n (WsText txt # ms) = (case json_of_text L txt of
      None \<Rightarrow> await_reply L n ms
    | Some v \<Rightarrow> if Option.bind (json_get ''id'' v) as_u64 = Some n
        then (Option.bind (json_get ''result'' v) (get_str ''data''), ms) else await_reply L n ms)"

definition screenshot_request :: "u64 \<Rightarrow> string" where
  "screenshot_request n =
    ''{\"id\":'' @ show_word n @ '',\"method\":\"Page.captureScreenshot\",\"params\":{\"format\":\"jpeg\",\"quality\":70}}''"

text \<open>The loop from request \<open>n\<close> on: \<open>decode\<close> is the base64 crate's, \<open>others\<close> what the other
  tasks do to the state between two rounds (it ends when the server does). The
  answer is what the encoder was given, picture by picture.\<close>

fun screenshots :: "lib \<Rightarrow> (string \<Rightarrow> bytes option) \<Rightarrow> uuid \<Rightarrow> u32 \<Rightarrow> (app \<Rightarrow> app) list \<Rightarrow> u64 \<Rightarrow> ws_message list \<Rightarrow>
    (app, 'e, bytes list) prog" where
  "screenshots L decode i fps_c [] n ms = ok []"
| "screenshots L decode i fps_c (other # others) n ms =
    then_do (modify other)
   (andThen (gets (\<lambda>s. browser_sources s i)) (\<lambda>entry.
    if entry = None then ok []
    else andThen (attempt (fallible (ok ()))) (\<lambda>sent_ok. case sent_ok of
      Inl (e :: string) \<Rightarrow> ok []
    | Inr _ \<Rightarrow> (case await_reply L n ms of
        (None, rest) \<Rightarrow> ok []
      | (Some b64, rest) \<Rightarrow> (case decode b64 of
          None \<Rightarrow> then_do (sleep (from_millis (frame_interval_ms fps_c))) (screenshots L decode i fps_c others (n + 1) rest)
        | Some jpeg \<Rightarrow> andThen (attempt (fallible (ok ()))) (\<lambda>written. case written of
            Inl (e :: string) \<Rightarrow> ok []
          | Inr _ \<Rightarrow> then_do (sleep (from_millis (frame_interval_ms fps_c)))
              (andThen (screenshots L decode i fps_c others (n + 1) rest) (\<lambda>ps. ok (jpeg # ps)))))))))"

definition screenshot_loop :: "lib \<Rightarrow> (string \<Rightarrow> bytes option) \<Rightarrow> uuid \<Rightarrow> u32 \<Rightarrow> (app \<Rightarrow> app) list \<Rightarrow> ws_message list \<Rightarrow>
    (app, 'e, bytes list) prog" where
  "screenshot_loop L decode i fps_c others ms =
    andThen (attempt (fallible (ok ()))) (\<lambda>connected. case connected of
      Inl (e :: string) \<Rightarrow> ok []
    | Inr _ \<Rightarrow> then_do (ignore (fallible (ok ()))) (screenshots L decode i fps_c others 2 ms))"

section \<open>The reply that is read\<close>

lemma read_reply_prefix:
  assumes "[] \<notin> set cs"
  shows "\<exists>k \<le> length cs. read_reply buf (map Chunk cs @ Eof # rs) = rest_of_reply (buf @ concat (take k cs)) \<and>
    (k = length cs \<or> looks_complete (rest_of_reply (buf @ concat (take k cs))))"
  using assms
proof (induction cs arbitrary: buf)
  case (Cons c cs)
  from Cons.IH [of "buf @ c"] Cons.prems obtain k where k: "k \<le> length cs"
      "read_reply (buf @ c) (map Chunk cs @ Eof # rs) = rest_of_reply ((buf @ c) @ concat (take k cs))"
      "k = length cs \<or> looks_complete (rest_of_reply ((buf @ c) @ concat (take k cs)))" by auto
  show ?case
  proof (cases "\<exists>body. after_header (buf @ c) = Some body \<and> looks_complete (trim body)")
    case True
    then show ?thesis using Cons.prems by (intro exI [of _ 1]) (auto simp: rest_of_reply_def)
  next
    case False
    then have "read_reply buf (map Chunk (c # cs) @ Eof # rs) = read_reply (buf @ c) (map Chunk cs @ Eof # rs)"
      using Cons.prems by (auto split: option.split)
    then show ?thesis using k by (intro exI [of _ "Suc k"]) auto
  qed
qed simp

text \<open>However the reply comes in pieces, what is answered is the body of what was read
  so far, and reading stops before the end only where this body begins and ends like
  a JSON array or object.\<close>
theorem reply_is_read_to_its_end:
  assumes "[] \<notin> set cs"
  shows "\<exists>k \<le> length cs. read_reply [] (map Chunk cs @ Eof # rs) = rest_of_reply (concat (take k cs)) \<and>
    (k = length cs \<or> looks_complete (rest_of_reply (concat (take k cs))))"
  using read_reply_prefix [OF assms, of "[]"] by simp

section \<open>The pictures\<close>

text \<open>The id and the data of a message, and the data of \<open>k\<close> answers in a row, from request
  \<open>n\<close> on: of each the first message with its id.\<close>

fun message_json :: "lib \<Rightarrow> ws_message \<Rightarrow> json option" where
  "message_json L (WsText txt) = json_of_text L txt"
| "message_json L WsOther = None"

definition answers :: "lib \<Rightarrow> u64 \<Rightarrow> ws_message \<Rightarrow> bool" where
  "answers L n m \<longleftrightarrow> Option.bind (message_json L m) (json_get ''id'') = Some (JNum n)"

definition picture_text :: "lib \<Rightarrow> ws_message \<Rightarrow> string option" where
  "picture_text L m = Option.bind (message_json L m) (\<lambda>v. Option.bind (json_get ''result'' v) (get_str ''data''))"

fun reply_data :: "lib \<Rightarrow> u64 \<Rightarrow> nat \<Rightarrow> ws_message list \<Rightarrow> string list" where
  "reply_data L n 0 ms = []"
| "reply_data L n (Suc k) ms = (case dropWhile (\<lambda>m. \<not> answers L n m) ms of
      [] \<Rightarrow> []
    | m # rest \<Rightarrow> (case picture_text L m of None \<Rightarrow> [] | Some b64 \<Rightarrow> b64 # reply_data L (n + 1) k rest))"

lemma as_u64_iff: "as_u64 v = Some n \<longleftrightarrow> v = JNum n"
  by (cases v) auto

lemma await_reply_first: "await_reply L n ms = (case dropWhile (\<lambda>m. \<not> answers L n m) ms of
    [] \<Rightarrow> (None, []) | m # rest \<Rightarrow> (picture_text L m, rest))"
proof (induction ms)
  case (Cons m ms)
  have "Option.bind x as_u64 = Some n \<longleftrightarrow> x = Some (JNum n)" for x by (cases x) (auto simp: as_u64_iff)
  then show ?case using Cons.IH
    by (cases m) (auto simp: answers_def picture_text_def split: option.split)
qed simp

lemma reply_data_Suc: "await_reply L n ms = (Some b64, rest) \<Longrightarrow> reply_data L n (Suc k) ms = b64 # reply_data L (n + 1) k rest"
  by (cases "dropWhile (\<lambda>m. \<not> answers L n m) ms") (simp_all add: await_reply_first)

lemma screenshots_data:
  "\<exists>k t. k \<le> length others \<and> (screenshots L decode i f others n ms :: (app, 'e, bytes list) prog) s =
    (Inr (List.map_filter decode (reply_data L n k ms)), t)"
proof (induction others arbitrary: n ms s)
  case Nil
  show ?case by (intro exI [of _ 0] exI [of _ s]) (simp add: List.map_filter_def)
next
  case (Cons other others)
  let ?run = "(screenshots L decode i f (other # others) n ms :: (app, 'e, bytes list) prog) s"
  have stop: ?case if "\<exists>t. ?run = (Inr [], t)"
    using that by (intro exI [of _ 0]) (simp add: List.map_filter_def)
  have go: ?case if "await_reply L n ms = (Some b64, rest)"
    "?run = (case (screenshots L decode i f others (n + 1) rest :: (app, 'e, bytes list) prog) u of
      (Inl e, t) \<Rightarrow> (Inl e, t) | (Inr ps, t) \<Rightarrow> (Inr ((case decode b64 of None \<Rightarrow> [] | Some jpeg \<Rightarrow> [jpeg]) @ ps), t))"
    for b64 rest u
  proof -
    obtain k t where "k \<le> length others" "(screenshots L decode i f others (n + 1) rest :: (app, 'e, bytes list) prog) u =
        (Inr (List.map_filter decode (reply_data L (n + 1) k rest)), t)" using Cons.IH by blast
    then show ?thesis using that reply_data_Suc [OF that(1), of k]
      by (intro exI [of _ "Suc k"] exI [of _ t]) (simp del: reply_data.simps add: List.map_filter_def split: option.split)
  qed
  obtain reply rest where reply: "await_reply L n ms = (reply, rest)" by fastforce
  show ?case
  proof (cases "browser_sources (other s) i = None \<or> next_fault (other s) \<noteq> None \<or> reply = None")
    case True
    then show ?thesis using reply by (intro stop) (auto simp: fallible_def andThen_def split: option.split)
  next
    case False
    then obtain b64 where b64: "reply = Some b64" by blast
    show ?thesis
    proof (cases "decode b64")
      case None
      then show ?thesis
        using False reply b64 by (intro go [of b64 rest "set_sys (\<lambda>o1. o1\<lparr>clock := clock o1 + from_millis (frame_interval_ms f)\<rparr>) (drop_fault (other s))"]) (auto simp: fallible_def andThen_def sleep_def split: prod.split sum.split)
    next
      case (Some jpeg)
      show ?thesis
      proof (cases "next_fault (drop_fault (other s))")
        case None
        then show ?thesis
          using False reply b64 Some
          by (intro go [of b64 rest "set_sys (\<lambda>o1. o1\<lparr>clock := clock o1 + from_millis (frame_interval_ms f)\<rparr>) (drop_fault (drop_fault (other s)))"]) (auto simp: fallible_def andThen_def sleep_def split: prod.split sum.split)
      next
        case (Some e)
        then show ?thesis
          using False reply b64 \<open>decode b64 = Some jpeg\<close> by (intro stop) (auto simp: fallible_def andThen_def)
      qed
    qed
  qed
qed

text \<open>C40: What the encoder of a browser page is given are the pictures that answer the
  requests made so far, one after the other and each at most once, whatever else the
  browser sends, whatever calls fail and whatever other tasks do.\<close>
theorem pictures_answer_requests:
  "\<exists>k. k \<le> length others \<and> fst ((screenshot_loop L decode i f others ms :: (app, 'e, bytes list) prog) s) =
    Inr (List.map_filter decode (reply_data L 2 k ms))"
proof -
  have run: "\<exists>k. k \<le> length others \<and> fst ((screenshots L decode i f others 2 ms :: (app, 'e, bytes list) prog) u) =
      Inr (List.map_filter decode (reply_data L 2 k ms))" for u
    using screenshots_data [of others L decode i f 2 ms u] by (metis fst_conv)
  have none: "\<exists>k. k \<le> length others \<and> (Inr [] :: 'e + bytes list) = Inr (List.map_filter decode (reply_data L 2 k ms))"
    by (intro exI [of _ 0]) (simp add: List.map_filter_def)
  show ?thesis
    using run none by (cases "next_fault s") (simp_all add: screenshot_loop_def fallible_def andThen_def)
qed

end
