(* ===== verification/Spec2Isabelle.thy ===== *)
theory Spec2Isabelle
  imports Failover Sources Rtmp Channel Library Server Browser
begin

text \<open>
  Muxshed, a live video studio server written in Rust. Sources (RTMP and WebRTC
  publishers, SRT listeners, media files, browser pages, guests) become channels of
  FLV tags; a router copies one of them to the program; the program goes to the
  destinations and to a public watch page. An operator drives it over HTTP, a
  scheduler and a failover supervisor drive it by themselves. This development
  models the crates \<open>common\<close>, \<open>processor\<close> (the controller the server runs) and
  \<open>api\<close> under \<open>crates/\<close>, function by function, and proves what they promise.
\<close>

section \<open>How the program is modelled\<close>

text \<open>
  \<^item> Every handler and helper is a \<open>prog\<close> (theory \<open>Prelude\<close>): a function from the state
    \<open>app\<close> to a result or an error, and the state after it. \<open>andThen\<close> is \<open>?\<close>,
    \<open>attempt\<close>, \<open>ignore\<close>, \<open>or_else\<close> and \<open>ok_flatten\<close> are what the code does with a
    \<open>Result\<close> it does not pass on.
  \<^item> \<open>app\<close> (theory \<open>AppState\<close>) has a field for each of \<open>AppState\<close>: the registries of child
    processes, the relays, the cached codec headers, the watch channels, the outputs;
    and \<open>db\<close>, the tables of SQLite (theory \<open>Schema\<close>), and \<open>sys\<close>, the operating system: clock,
    files, running processes, ports, spawned tasks.
  \<^item> Every call that can fail (a statement, a spawn, a file operation, a socket) takes
    the next entry of the list \<open>faults\<close>. A statement about all states is about every pattern of
    failures; \<open>no_faults\<close> says that no call fails.
  \<^item> Machine integers are words of their width, so arithmetic wraps as in a release
    build; floats are bit patterns. UUIDs are 128-bit words. Texts are lists of 8-bit
    characters and the code's character tests are those of ASCII.
  \<^item> A spawned task is recorded in \<open>tasks\<close>; its own body is a definition of the theory of its
    file. A loop that waits for events is its step (\<open>sup_step\<close>, the router's steps,
    \<open>bc_step\<close>, \<open>ingest_step\<close>) with the reachable states as an inductive relation, or a
    function of the list of what it reads (\<open>read_flv\<close>, \<open>session_loop\<close>, \<open>screenshots\<close>); the list
    ends where the stream or the server does, and statements hold for every list, so no
    fuel is chosen anywhere.
  \<^item> What third-party crates compute is a parameter: \<open>lib\<close> (serde, uuid, chrono, cron,
    SHA-256, bcrypt, SDP), \<open>rtmp_crate\<close> (rml\_rtmp), \<open>tool\<close> (ffprobe and ffmpeg), \<open>f64_ops\<close>.
    What a theorem needs of them is a named hypothesis (\<open>uuid_text\<close>, \<open>kind_text\<close>,
    \<open>datetime_ordered\<close>, \<open>careful_tool\<close>, ..), and theory \<open>Sample\<close> has an instance for which they
    hold, on which the witnesses evaluate the definitions.
\<close>

section \<open>The theories\<close>

text \<open>
  \<^item> \<open>Prelude\<close>: programs, the invariant calculus \<open>preserves\<close>, the frame calculus \<open>keeps\<close>, the
    weakest precondition \<open>wp\<close>, watch channels, lemmas on lists and words. \<open>Common\<close>:
    \<open>crates/common/src\<close> (types, events, errors, configuration) and text functions of std.
    \<open>Schema\<close>: tables, \<open>LIKE\<close>, cascades, and the locale \<open>keyed_table\<close> of a table with a
    primary key. \<open>AppState\<close>: \<open>state.rs\<close>, the failing calls, the closure rules \<open>smooth\<close>
    (succeeds when no call fails) and \<open>later\<close> (time), the locale \<open>relay_registry\<close>. \<open>Sample\<close>: the
    initial state and the sample parameters. \<open>Http\<close>: answers of the handlers that build their own.
  \<^item> \<open>Flv\<close>: \<open>rtmp/flv.rs\<close>, the reader that all encoders' outputs share, the header cache, the
    locale \<open>tag_clock\<close> of a timestamp field. \<open>Procs\<close>: the locale \<open>child_registry\<close> and the invariant that
    no process runs unowned. \<open>Ingest\<close>: \<open>media_player.rs\<close>, \<open>source_normalizer.rs\<close>,
    \<open>srt.rs\<close>, \<open>browser_source.rs\<close>; \<open>Browser\<close>: the DevTools and screenshot part of the latter.
    \<open>WebRtc\<close>: \<open>webrtc_ingest.rs\<close>, \<open>guest_webrtc.rs\<close>, \<open>routes/whip.rs\<close>, \<open>routes/guests.rs\<close>.
    \<open>Rtmp\<close>: \<open>rtmp/server.rs\<close>.
  \<^item> \<open>Router\<close>: \<open>program.rs\<close>. \<open>Failover\<close>: \<open>failover.rs\<close> and its settings. \<open>Pipeline\<close>:
    \<open>controller.rs\<close> as the locale \<open>pipeline_controller\<close>, \<open>stub.rs\<close> as its interpretation.
    \<open>Egress\<close>: \<open>egress.rs\<close>, \<open>channel_hls.rs\<close>, \<open>lib.rs\<close>, \<open>routes/output.rs\<close>.
    \<open>Compositor\<close>: \<open>scene_compositor.rs\<close>, \<open>routes/scenes.rs\<close>. \<open>Playout\<close>: \<open>playout.rs\<close>.
    \<open>Schedule\<close>: \<open>scheduler.rs\<close>, \<open>schedule_time.rs\<close>, \<open>routes/schedules.rs\<close>.
  \<^item> \<open>Studio\<close>: going live, cuts, preview, recording, audio, settings (\<open>routes/stream.rs\<close>,
    \<open>switching.rs\<close>, \<open>preview.rs\<close>, \<open>recording.rs\<close>, \<open>audio.rs\<close>, \<open>broadcast.rs\<close>,
    \<open>webrtc_config.rs\<close>, \<open>status.rs\<close>). \<open>Auth\<close>: \<open>auth.rs\<close>, \<open>routes/auth.rs\<close>, \<open>keys.rs\<close>, \<open>setup.rs\<close>,
    \<open>ws.rs\<close> and the table of routes of \<open>mod.rs\<close>. \<open>Sources\<close>: \<open>routes/sources.rs\<close>,
    \<open>destinations.rs\<close>. \<open>Upload\<close>, \<open>Channel\<close>: forms, and \<open>routes/channel.rs\<close>. \<open>Probe\<close>, \<open>Library\<close>:
    \<open>media_probe.rs\<close>, \<open>routes/assets.rs\<close>, \<open>routes/stingers.rs\<close>. \<open>Server\<close>: \<open>main.rs\<close>,
    \<open>startup.rs\<close>, \<open>routes/admin.rs\<close> and the output statistics.
\<close>

section \<open>How the parts interact\<close>

text \<open>
  The operator sets \<open>program_intent\<close>; the failover supervisor copies it to \<open>program_source\<close> or
  puts the fallback there and sets \<open>failover_active\<close>; the router wakes on \<open>program_source\<close> and on the
  audio routing, waits for a keyframe of the new source, and re-stamps its tags for \<open>program_tx\<close>,
  which the feeders of the outputs read. Ingests publish to the relay of their source and
  set \<open>source_states\<close>; the child that encodes is owned by a registry, and dropping an entry kills it.
  A broadcast sets \<open>active_schedule\<close> and takes it as the sign to go on; the scheduler only
  spawns broadcasts. The state is shared, so what is proved of a handler is proved for every
  state it can be called in, and where the order of tasks matters (publications and the late callbacks
  of their peers, the readers of replaced players, timers of the pipeline) the steps of
  the tasks are explicit and the statements quantify over their sequences.
\<close>

section \<open>What is proved\<close>

text \<open>
  \<^item> The program: \<open>failover_active\<close> and the routed source agree in every reachable state, the supervisor
    engages and restores exactly on its thresholds, the router's output decodes and its clock continues.
  \<^item> Ingest: encoders' outputs reach the relays tag by tag; no process is left without
    an owner; WebRTC publications refine an abstract contract of publishing sources and
    their sessions; RTMP media reach the encoder unchanged, and what the end of a connection cleans up.
  \<^item> Sources, scenes, schedules, channel and library: what was created is read back, deletions
    take everything along, uploads are served byte for byte and stay in their directory.
  \<^item> Access: exactly who is let in, how long a log-in lasts, that deletions keep an administrator, who
    is served a protected channel, what a restart does to guests and keys.
  \<^item> Broadcasts: the scheduler's waits, what is on air when, what is taken down at the end.
  \<^item> Where the code does something else than it means to, the theorem states what it
    does: a switch that was withdrawn still fires, an old reader or connection ends its
    successor, a stream key with wildcards, the last administrator demoted, a null that is
    read as absent, a revoked guest's token that works again after a restart, and others.
\<close>

section \<open>Not modelled\<close>

text \<open>
  \<open>processor/src/gst_pipeline.rs\<close> (bindings to GStreamer behind a feature that no build of the server
  enables); \<open>openapi.rs\<close> and the attributes of utoipa and serde; opening the database and the SQL of the
  migrations (\<open>Schema\<close> has the tables they make); axum's extraction of requests, static files, the
  accept loops of HTTP and RTMP, which only spawn a handler; logging; the web page, the examples and the tests.
  Within modelled files: the JSON text of values is serde's, so it is a parameter; UTF-8 beyond ASCII; the
  interleaving of two handlers within one, where the code holds no lock across awaits, other than in the step
  relations named above.
\<close>

end
